(* ===== verification/Prelude.thy ===== *)
theory Prelude
  imports Main "HOL-Library.Word" "HOL-Library.Char_ord" "HOL-Library.List_Lexorder"
    "HOL-Library.DAList"
begin

text \<open>
  Shared vocabulary of the development: byte and machine-word types, Rust's saturating
  arithmetic, decimal rendering of numbers (\<^verbatim>\<open>Display\<close> of integers), splitting of
  strings at a separator, and the action type of the effectful code.

  An effectful function of the source (\<^verbatim>\<open>async fn ... -> Result<A, E>\<close>) is a function
  from the world to a result and the next world.  \<open>Inl\<close> is \<^verbatim>\<open>Err\<close>, \<open>Inr\<close> is \<^verbatim>\<open>Ok\<close>,
  and \<open>io_bind\<close> is the \<^verbatim>\<open>?\<close> operator: it stops at the first error and keeps the world
  reached so far, as an early return does.
\<close>

section \<open>Collections of rewrite rules\<close>

named_theorems io_simps \<open>evaluation of actions\<close>
named_theorems io_inv \<open>inversion of completed actions\<close>
named_theorems domain_simps \<open>definitions of the domain layer\<close>
named_theorems store_simps \<open>effects of the storage adapters on their views\<close>

section \<open>Bytes, words and saturating arithmetic\<close>

type_synonym byte = "8 word"
type_synonym bytes = "byte list"
type_synonym u8 = "8 word"
type_synonym u16 = "16 word"
type_synonym u32 = "32 word"
type_synonym u64 = "64 word"

definition saturating_add :: "'a::len word \<Rightarrow> 'a word \<Rightarrow> 'a word" where
  "saturating_add a b = (if unat a + unat b < 2 ^ LENGTH('a) then a + b else - 1)"

definition saturating_sub :: "'a::len word \<Rightarrow> 'a word \<Rightarrow> 'a word" where
  "saturating_sub a b = (if b \<le> a then a - b else 0)"

definition saturating_mul :: "'a::len word \<Rightarrow> 'a word \<Rightarrow> 'a word" where
  "saturating_mul a b = (if unat a * unat b < 2 ^ LENGTH('a) then a * b else - 1)"

lemma unat_minus_one_word_eq: "unat (- 1 :: 'a::len word) = 2 ^ LENGTH('a) - 1"
  by transfer (simp add: take_bit_minus_one_eq_mask mask_eq_exp_minus_1 nat_diff_distrib nat_power_eq)

lemma unat_saturating_add:
  "unat (saturating_add a b) = min (unat a + unat b) (2 ^ LENGTH('a) - 1)"
  for a b :: "'a::len word"
  by (auto simp: saturating_add_def unat_add_lem [THEN iffD1] unat_minus_one_word_eq min_def)

lemma unat_saturating_sub: "unat (saturating_sub a b) = unat a - unat b"
  by (auto simp: saturating_sub_def unat_sub word_le_nat_alt)

lemma unat_saturating_mul:
  "unat (saturating_mul a b) = min (unat a * unat b) (2 ^ LENGTH('a) - 1)"
  for a b :: "'a::len word"
proof (cases "unat a * unat b < 2 ^ LENGTH('a)")
  case True
  then have "unat a * unat b \<le> 2 ^ LENGTH('a) - 1"
    by linarith
  with True show ?thesis
    by (simp only: saturating_mul_def unat_mult_lem [THEN iffD1] if_True min_absorb1)
next
  case False
  then show ?thesis
    by (simp add: saturating_mul_def unat_minus_one_word_eq)
qed

lemma unat_of_nat_small: "n < 2 ^ LENGTH('a) \<Longrightarrow> unat (word_of_nat n :: 'a::len word) = n"
  by (simp add: unat_of_nat take_bit_nat_eq_self)

section \<open>Decimal numbers\<close>

definition digit_char :: "nat \<Rightarrow> char" where
  "digit_char d = char_of (48 + d)"

fun show_nat :: "nat \<Rightarrow> string" where
  "show_nat n = (if n < 10 then [digit_char n] else show_nat (n div 10) @ [digit_char (n mod 10)])"

declare show_nat.simps [simp del]

definition is_digit :: "char \<Rightarrow> bool" where
  "is_digit c \<longleftrightarrow> 48 \<le> (of_char c :: nat) \<and> (of_char c :: nat) \<le> 57"

definition digit_val :: "char \<Rightarrow> nat" where
  "digit_val c = of_char c - 48"

text \<open>Reading a digit string back, most significant digit first.\<close>

fun read_digits :: "nat \<Rightarrow> string \<Rightarrow> nat option" where
  "read_digits acc [] = Some acc"
| "read_digits acc (c # cs) =
     (if is_digit c then read_digits (10 * acc + digit_val c) cs else None)"

lemma of_char_digit_char [simp]: "d < 10 \<Longrightarrow> (of_char (digit_char d) :: nat) = 48 + d"
  by (simp add: digit_char_def)

lemma is_digit_digit_char [simp]: "d < 10 \<Longrightarrow> is_digit (digit_char d)"
  by (simp add: is_digit_def)

lemma digit_val_digit_char [simp]: "d < 10 \<Longrightarrow> digit_val (digit_char d) = d"
  by (simp add: digit_val_def)

lemma show_nat_digits: "c \<in> set (show_nat n) \<Longrightarrow> is_digit c"
proof (induction n rule: show_nat.induct)
  case (1 n)
  then show ?case
    by (cases "n < 10") (auto simp: show_nat.simps [of n])
qed

lemma digit_chars [simp]:
  "digit_char 0 = CHR ''0''" "digit_char (Suc 0) = CHR ''1''" "digit_char 2 = CHR ''2''" "digit_char 3 = CHR ''3''" "digit_char 4 = CHR ''4''"
  "digit_char 5 = CHR ''5''" "digit_char 6 = CHR ''6''" "digit_char 7 = CHR ''7''" "digit_char 8 = CHR ''8''" "digit_char 9 = CHR ''9''"
  by code_simp+

lemma show_nat_nonempty [simp]: "show_nat n \<noteq> []"
  by (subst show_nat.simps) simp

lemma read_digits_append:
  "read_digits acc (xs @ ys) = Option.bind (read_digits acc xs) (\<lambda>a. read_digits a ys)"
  by (induction xs arbitrary: acc) auto

lemma read_digits_show_nat [simp]: "read_digits 0 (show_nat n) = Some n"
proof (induction n rule: show_nat.induct)
  case (1 n)
  then show ?case
    by (cases "n < 10") (auto simp: show_nat.simps [of n] read_digits_append)
qed

lemma show_nat_inject [simp]: "show_nat m = show_nat n \<longleftrightarrow> m = n"
  by (metis option.inject read_digits_show_nat)

text \<open>\<^verbatim>\<open>{:05}\<close>: at least five characters, filled with zeros on the left.\<close>

definition show_pad5 :: "nat \<Rightarrow> string" where
  "show_pad5 n = (let s = show_nat n in replicate (5 - length s) (CHR ''0'') @ s)"

lemma read_digits_zeros: "read_digits 0 (replicate k (CHR ''0'') @ s) = read_digits 0 s"
  by (induction k) (auto simp: is_digit_def digit_val_def)

lemma read_digits_show_pad5 [simp]: "read_digits 0 (show_pad5 n) = Some n"
  by (simp add: show_pad5_def Let_def read_digits_zeros)

lemma show_pad5_inject [simp]: "show_pad5 m = show_pad5 n \<longleftrightarrow> m = n"
  by (metis option.inject read_digits_show_pad5)

lemma show_pad5_digits: "c \<in> set (show_pad5 n) \<Longrightarrow> is_digit c"
  by (auto simp: show_pad5_def Let_def is_digit_def dest: show_nat_digits split: if_splits)

lemma show_pad5_nonempty [simp]: "show_pad5 n \<noteq> []"
  by (simp add: show_pad5_def Let_def)

section \<open>Splitting at a separator\<close>

text \<open>\<^verbatim>\<open>str::split(c)\<close>: the pieces between separators; one piece more than separators.\<close>

fun split_on :: "char \<Rightarrow> string \<Rightarrow> string list" where
  "split_on c [] = [[]]"
| "split_on c (x # xs) =
     (if x = c then [] # split_on c xs
      else (case split_on c xs of [] \<Rightarrow> [[x]] | y # ys \<Rightarrow> (x # y) # ys))"

lemma split_on_nonempty [simp]: "split_on c xs \<noteq> []"
  by (induction xs) (auto split: list.splits)

lemma split_on_none: "c \<notin> set xs \<Longrightarrow> split_on c xs = [xs]"
  by (induction xs) auto

lemma split_on_append: "c \<notin> set xs \<Longrightarrow> split_on c (xs @ c # ys) = xs # split_on c ys"
  by (induction xs) auto

lemma append_sep_eq:
  assumes "c \<notin> set xs" and "c \<notin> set xs'"
  shows "xs @ c # ys = xs' @ c # ys' \<longleftrightarrow> xs = xs' \<and> ys = ys'"
  using assms
proof (induction xs arbitrary: xs')
  case Nil
  then show ?case by (cases xs') auto
next
  case (Cons x xs)
  then show ?case by (cases xs') auto
qed

section \<open>Trimming\<close>

text \<open>
  \<^verbatim>\<open>str::trim\<close>: the code points with the property \<^verbatim>\<open>White_Space\<close>, each as the bytes of its UTF-8 form, are
  taken off both ends.
\<close>

definition white_space :: "string list" where
  "white_space = map (map char_of) ([[9], [10], [11], [12], [13], [32], [0xC2, 0x85], [0xC2, 0xA0], [0xE1, 0x9A, 0x80],
     [0xE2, 0x81, 0x9F], [0xE3, 0x80, 0x80 :: nat]] @ map (\<lambda>n. [0xE2, 0x80, n]) ([0x80..<0x8B] @ [0xA8, 0xA9, 0xAF]))"

function strip :: "string list \<Rightarrow> string \<Rightarrow> string" where
  "strip ps s = (case find (\<lambda>p. p \<noteq> [] \<and> take (length p) s = p) ps of
     None \<Rightarrow> s | Some p \<Rightarrow> strip ps (drop (length p) s))"
  by auto
termination
proof (relation "measure (\<lambda>(ps, s). length s)", goal_cases)
  case (2 ps s p)
  then have "p \<noteq> []" "take (length p) s = p" by (auto simp: find_Some_iff)
  then show ?case by (cases s) auto
qed simp

declare strip.simps [simp del]

definition trim :: "string \<Rightarrow> string" where
  "trim s = rev (strip (map rev white_space) (rev (strip white_space s)))"

text \<open>A text that begins and ends with a visible ASCII character is left as it is.\<close>

definition visible :: "char \<Rightarrow> bool" where
  "visible c \<longleftrightarrow> 33 \<le> (of_char c :: nat) \<and> (of_char c :: nat) < 128"

lemma white_space_invisible: "p \<in> set white_space \<Longrightarrow> c \<in> set p \<Longrightarrow> \<not> visible c"
  by (auto simp: white_space_def visible_def)

lemma strip_none:
  assumes "\<forall>p\<in>set ps. \<forall>c\<in>set p. \<not> visible c" and "s \<noteq> []" and "visible (hd s)"
  shows "strip ps s = s"
proof -
  have "take (length p) s \<noteq> p" if "p \<in> set ps" "p \<noteq> []" for p
  proof
    assume "take (length p) s = p"
    then have "hd p = hd s" using that(2) by (metis hd_take length_greater_0_conv)
    then show False using assms(1,3) that by (metis hd_in_set)
  qed
  then have "find (\<lambda>p. p \<noteq> [] \<and> take (length p) s = p) ps = None" by (auto simp: find_None_iff)
  then show ?thesis by (subst strip.simps) simp
qed

lemma trim_visible: "s \<noteq> [] \<Longrightarrow> visible (hd s) \<Longrightarrow> visible (last s) \<Longrightarrow> trim s = s"
  using white_space_invisible by (simp add: trim_def strip_none hd_rev)

section \<open>Strings as bytes\<close>

text \<open>\<^verbatim>\<open>str::as_bytes\<close>. A \<^typ>\<open>char\<close> is one byte of the UTF-8 text.\<close>

definition as_bytes :: "string \<Rightarrow> bytes" where
  "as_bytes s = map of_char s"

definition of_bytes :: "bytes \<Rightarrow> string" where
  "of_bytes bs = map (\<lambda>b. char_of (unat b)) bs"

lemma unat_of_char_byte [simp]: "unat (of_char c :: byte) = of_char c"
proof -
  have "(of_char c :: byte) = word_of_nat (of_char c)"
    by (simp add: of_nat_of_char)
  moreover have "(of_char c :: nat) < 2 ^ LENGTH(8)"
    by simp
  ultimately show ?thesis
    by (simp only: unat_of_nat_small)
qed

lemma of_bytes_as_bytes [simp]: "of_bytes (as_bytes s) = s"
  by (simp add: as_bytes_def of_bytes_def comp_def)

lemma as_bytes_of_bytes [simp]: "as_bytes (of_bytes bs) = bs"
proof -
  have "(of_char (char_of (unat a)) :: byte) = a" for a :: byte
    using unsigned_less [of a, where ?'a = nat] by (simp add: word_unat_eq_iff)
  then show ?thesis by (induction bs) (simp_all add: as_bytes_def of_bytes_def)
qed

lemma as_bytes_inject [simp]: "as_bytes s = as_bytes t \<longleftrightarrow> s = t"
  by (metis of_bytes_as_bytes)

lemma length_as_bytes [simp]: "length (as_bytes s) = length s"
  by (simp add: as_bytes_def)

text \<open>\<^verbatim>\<open>to_be_bytes\<close>: the \<open>n\<close> bytes of a word, most significant first.\<close>

definition be_bytes :: "nat \<Rightarrow> 'a::len word \<Rightarrow> bytes" where
  "be_bytes n x = map (\<lambda>i. ucast (drop_bit (8 * i) x)) (rev [0..<n])"

lemma length_be_bytes [simp]: "length (be_bytes n x) = n"
  by (simp add: be_bytes_def)

lemma be_bytes_inject:
  fixes x y :: "'a::len word"
  assumes "LENGTH('a) \<le> 8 * n" and "be_bytes n x = be_bytes n y"
  shows "x = y"
proof (rule bit_word_eqI)
  fix i assume i: "i < LENGTH('a)"
  then have "i div 8 < n" using assms(1) by simp
  then have "(ucast (drop_bit (8 * (i div 8)) x) :: byte) = ucast (drop_bit (8 * (i div 8)) y)"
    using assms(2) by (simp add: be_bytes_def)
  then have "bit (ucast (drop_bit (8 * (i div 8)) x) :: byte) (i mod 8) =
      bit (ucast (drop_bit (8 * (i div 8)) y) :: byte) (i mod 8)" by simp
  moreover have "8 * (i div 8) + i mod 8 = i" by simp
  ultimately show "bit x i = bit y i" using i by (simp add: bit_simps)
qed

section \<open>Hash maps as association lists\<close>

lemma dom_lookup_alist: "dom (DAList.lookup m) = set (map fst (DAList.impl_of m))"
  by transfer (simp add: dom_map_of_conv_image_fst)

lemma distinct_keys_alist [simp]: "distinct (map fst (DAList.impl_of m))"
  using DAList.impl_of by auto

lemma lookup_update_alist [simp]: "DAList.lookup (DAList.update k v m) = (DAList.lookup m)(k \<mapsto> v)"
  by transfer (simp add: AList.update_conv')

lemma lookup_delete_alist [simp]: "DAList.lookup (DAList.delete k m) = (DAList.lookup m)(k := None)"
  by (simp add: DAList.lookup_delete)

lemma mem_keys_alist: "k \<in> set (map fst (DAList.impl_of m)) \<longleftrightarrow> DAList.lookup m k \<noteq> None"
  by (metis domIff dom_lookup_alist)

section \<open>Actions\<close>

type_synonym ('e, 'w, 'a) act = "'w \<Rightarrow> ('e + 'a) \<times> 'w"

definition io_return :: "'a \<Rightarrow> ('e, 'w, 'a) act" where
  "io_return a = (\<lambda>w. (Inr a, w))"

definition io_throw :: "'e \<Rightarrow> ('e, 'w, 'a) act" where
  "io_throw e = (\<lambda>w. (Inl e, w))"

definition io_bind :: "('e, 'w, 'a) act \<Rightarrow> ('a \<Rightarrow> ('e, 'w, 'b) act) \<Rightarrow> ('e, 'w, 'b) act" where
  "io_bind m f = (\<lambda>w. case m w of (Inl e, w') \<Rightarrow> (Inl e, w') | (Inr a, w') \<Rightarrow> f a w')"

text \<open>A pure fallible computation, and the reified result of an action (\<^verbatim>\<open>match\<close> on it).\<close>

definition io_lift :: "'e + 'a \<Rightarrow> ('e, 'w, 'a) act" where
  "io_lift r = (\<lambda>w. (r, w))"

definition io_attempt :: "('e, 'w, 'a) act \<Rightarrow> ('f, 'w, 'e + 'a) act" where
  "io_attempt m = (\<lambda>w. case m w of (r, w') \<Rightarrow> (Inr r, w'))"

definition io_read :: "('w \<Rightarrow> 'a \<times> 'w) \<Rightarrow> ('e, 'w, 'a) act" where
  "io_read g = (\<lambda>w. case g w of (a, w') \<Rightarrow> (Inr a, w'))"

definition io_map_err :: "('e \<Rightarrow> 'f) \<Rightarrow> ('e, 'w, 'a) act \<Rightarrow> ('f, 'w, 'a) act" where
  "io_map_err h m = (\<lambda>w. case m w of (r, w') \<Rightarrow> (map_sum h id r, w'))"

text \<open>\<^verbatim>\<open>.ok_or(e)?\<close> on an optional value.\<close>

definition ok_or :: "'e \<Rightarrow> 'a option \<Rightarrow> 'e + 'a" where
  "ok_or e x = (case x of None \<Rightarrow> Inl e | Some a \<Rightarrow> Inr a)"

lemma ok_or_simps [simp]:
  "ok_or e None = Inl e" "ok_or e (Some a) = Inr a"
  "ok_or e x = Inr b \<longleftrightarrow> x = Some b"
  "ok_or e x = Inl d \<longleftrightarrow> x = None \<and> d = e"
  by (auto simp: ok_or_def split: option.splits)

lemma io_return_eq [io_simps]: "io_return a w = (Inr a, w)"
  by (simp add: io_return_def)

lemma io_throw_eq [io_simps]: "io_throw e w = (Inl e, w)"
  by (simp add: io_throw_def)

lemma io_lift_eq [io_simps]: "io_lift r w = (r, w)"
  by (simp add: io_lift_def)

lemma io_bind_eq [io_simps]:
  "m w = (Inr a, w') \<Longrightarrow> io_bind m f w = f a w'"
  "m w = (Inl e, w') \<Longrightarrow> io_bind m f w = (Inl e, w')"
  by (simp_all add: io_bind_def)

lemma io_bind_Inr [io_inv]: "io_bind m f w = (Inr b, w'') \<longleftrightarrow>
    (\<exists>a w'. m w = (Inr a, w') \<and> f a w' = (Inr b, w''))"
  by (auto simp: io_bind_def split: prod.splits sum.splits)

lemma io_bind_Inl [io_inv]: "io_bind m f w = (Inl e, w'') \<longleftrightarrow>
    m w = (Inl e, w'') \<or> (\<exists>a w'. m w = (Inr a, w') \<and> f a w' = (Inl e, w''))"
  by (auto simp: io_bind_def split: prod.splits sum.splits)

lemma io_bindE [consumes 1, case_names Stop Go]:
  assumes "io_bind m f w = (r, w'')"
  obtains (Stop) e where "m w = (Inl e, w'')" and "r = Inl e"
  | (Go) a w' where "m w = (Inr a, w')" and "f a w' = (r, w'')"
  using assms by (auto simp: io_bind_def split: prod.splits sum.splits)

lemma io_attempt_eq [io_simps]: "m w = (r, w') \<Longrightarrow> io_attempt m w = (Inr r, w')"
  by (simp add: io_attempt_def)

lemma io_read_eq [io_simps]: "g w = (a, w') \<Longrightarrow> io_read g w = (Inr a, w')"
  by (simp add: io_read_def)

lemma io_map_err_Inr [simp]: "io_map_err h m w = (Inr a, w') \<longleftrightarrow> m w = (Inr a, w')"
  by (cases "m w"; cases "fst (m w)") (auto simp: io_map_err_def)

lemma io_map_err_Inl [io_inv]: "io_map_err h m w = (Inl f, w') \<longleftrightarrow> (\<exists>e. m w = (Inl e, w') \<and> f = h e)"
  by (cases "m w"; cases "fst (m w)") (auto simp: io_map_err_def)

lemma io_return_iff [io_inv]: "io_return a w = (r, w') \<longleftrightarrow> r = Inr a \<and> w' = w"
  by (auto simp: io_return_def)

lemma io_throw_iff [io_inv]: "io_throw e w = (r, w') \<longleftrightarrow> r = Inl e \<and> w' = w"
  by (auto simp: io_throw_def)

lemma io_lift_iff [io_inv]: "io_lift x w = (r, w') \<longleftrightarrow> x = r \<and> w' = w"
  by (auto simp: io_lift_def)

lemma io_read_iff [io_inv]: "io_read g w = (r, w') \<longleftrightarrow> (\<exists>a. g w = (a, w') \<and> r = Inr a)"
  by (auto simp: io_read_def split: prod.splits)

lemma io_attempt_iff [io_inv]: "io_attempt m w = (r, w') \<longleftrightarrow> (\<exists>x. m w = (x, w') \<and> r = Inr x)"
  by (auto simp: io_attempt_def split: prod.splits)

lemma map_sum_Inr_iff [simp]: "map_sum f id x = Inr y \<longleftrightarrow> x = Inr y"
  by (cases x) auto

lemma map_sum_Inl_iff: "map_sum f id x = Inl e \<longleftrightarrow> (\<exists>d. x = Inl d \<and> e = f d)"
  by (cases x) auto

lemma Inr_map_sum_iff [simp]: "Inr y = map_sum f id x \<longleftrightarrow> x = Inr y"
  by (cases x) auto

lemma Inr_ok_or_iff [simp]: "Inr b = ok_or e x \<longleftrightarrow> x = Some b"
  by (cases x) auto

end
