(* ===== verification/Domain.thy ===== *)
theory Domain
  imports Prelude
begin

text \<open>
  The pure domain core, \<^verbatim>\<open>crates/vault-domain\<close>: opaque identifiers (\<^verbatim>\<open>ids.rs\<close>),
  timestamps and capability tokens (\<^verbatim>\<open>capability.rs\<close>), the Contract entities
  (\<^verbatim>\<open>contract.rs\<close>), namespaces, placement, shards and manifests (\<^verbatim>\<open>namespace.rs\<close>,
  \<^verbatim>\<open>placement.rs\<close>, \<^verbatim>\<open>backup.rs\<close>) and the domain errors (\<^verbatim>\<open>error.rs\<close>).
  Record fields carry a short prefix of their struct; the rest of the name is the source's.
\<close>

section \<open>Identifiers (ids.rs)\<close>

datatype app_id = AppId (app_str: string)
datatype namespace_id = NamespaceId (ns_str: string)
datatype blob_id = BlobId (blob_str: string)
datatype nonce = Nonce (nonce_str: string)

text \<open>The derived \<^verbatim>\<open>Ord\<close> of a string id compares the text bytewise.\<close>

instantiation namespace_id :: linorder
begin

definition less_eq_namespace_id :: "namespace_id \<Rightarrow> namespace_id \<Rightarrow> bool" where
  "less_eq_namespace_id a b \<longleftrightarrow> ns_str a \<le> ns_str b"

definition less_namespace_id :: "namespace_id \<Rightarrow> namespace_id \<Rightarrow> bool" where
  "less_namespace_id a b \<longleftrightarrow> ns_str a < ns_str b"

instance
  by standard
    (auto simp: less_eq_namespace_id_def less_namespace_id_def namespace_id.expand
      intro: order_trans dest: order_antisym)

end

section \<open>Timestamps (capability.rs)\<close>

datatype timestamp = Timestamp (as_millis: u64)

instantiation timestamp :: linorder
begin

definition less_eq_timestamp :: "timestamp \<Rightarrow> timestamp \<Rightarrow> bool" where
  "less_eq_timestamp a b \<longleftrightarrow> as_millis a \<le> as_millis b"

definition less_timestamp :: "timestamp \<Rightarrow> timestamp \<Rightarrow> bool" where
  "less_timestamp a b \<longleftrightarrow> as_millis a < as_millis b"

instance
  by standard
    (auto simp: less_eq_timestamp_def less_timestamp_def timestamp.expand
      intro: order_trans dest: order_antisym)

end

definition plus_secs :: "timestamp \<Rightarrow> u64 \<Rightarrow> timestamp" where
  "plus_secs t secs = Timestamp (saturating_add (as_millis t) (saturating_mul secs 1000))"

section \<open>Operations and capability claims (capability.rs)\<close>

datatype operation = OpPut | OpGet | OpList | OpDelete

fun operation_as_str :: "operation \<Rightarrow> string" where
  "operation_as_str OpPut = ''put''"
| "operation_as_str OpGet = ''get''"
| "operation_as_str OpList = ''list''"
| "operation_as_str OpDelete = ''delete''"

record capability_claims =
  cc_app_id :: app_id
  cc_namespace :: namespace_id
  cc_operation :: operation
  cc_nonce :: nonce
  cc_expires_at :: timestamp

abbreviation newline :: char where
  "newline \<equiv> CHR 0x0A"

definition canonical_text :: "capability_claims \<Rightarrow> string" where
  "canonical_text c =
     ''vaultmesh.cap.v1'' @ [newline] @
     ''app='' @ app_str (cc_app_id c) @ [newline] @
     ''ns='' @ ns_str (cc_namespace c) @ [newline] @
     ''op='' @ operation_as_str (cc_operation c) @ [newline] @
     ''nonce='' @ nonce_str (cc_nonce c) @ [newline] @
     ''exp='' @ show_nat (unat (as_millis (cc_expires_at c))) @ [newline]"

definition canonical_bytes :: "capability_claims \<Rightarrow> bytes" where
  "canonical_bytes c = as_bytes (canonical_text c)"

record capability_token =
  ct_claims :: capability_claims
  ct_signature :: bytes

section \<open>Domain errors (error.rs)\<close>

datatype domain_error =
    InvalidErasureParams u8 u8
  | TokenExpired
  | Unauthorized
  | NamespaceMismatch
  | OperationNotPermitted (granted: operation) (requested: operation)
  | QuotaExceeded
  | RetentionHold (held_min_days: u32)
  | InvalidContract string

section \<open>Token policy (capability.rs)\<close>

definition is_expired :: "capability_token \<Rightarrow> timestamp \<Rightarrow> bool" where
  "is_expired tok now \<longleftrightarrow> cc_expires_at (ct_claims tok) \<le> now"

definition token_authorize ::
  "capability_token \<Rightarrow> app_id \<Rightarrow> namespace_id \<Rightarrow> operation \<Rightarrow> timestamp \<Rightarrow> domain_error + unit" where
  "token_authorize tok app ns oper now =
     (if is_expired tok now then Inl TokenExpired
      else if cc_app_id (ct_claims tok) \<noteq> app then Inl Unauthorized
      else if cc_namespace (ct_claims tok) \<noteq> ns then Inl NamespaceMismatch
      else if cc_operation (ct_claims tok) \<noteq> oper
        then Inl (OperationNotPermitted (cc_operation (ct_claims tok)) oper)
      else Inr ())"

section \<open>The Contract (contract.rs)\<close>

record protocol_version =
  pv_major :: u16
  pv_minor :: u16

definition PROTOCOL_CURRENT :: protocol_version where
  "PROTOCOL_CURRENT = \<lparr>pv_major = 1, pv_minor = 0\<rparr>"

definition is_compatible_with :: "protocol_version \<Rightarrow> protocol_version \<Rightarrow> bool" where
  "is_compatible_with client server \<longleftrightarrow>
     pv_major client = pv_major server \<and> pv_minor client \<le> pv_minor server"

definition show_protocol_version :: "protocol_version \<Rightarrow> string" where
  "show_protocol_version v =
     show_nat (unat (pv_major v)) @ ''.'' @ show_nat (unat (pv_minor v))"

record erasure_params =
  ep_k :: u8
  ep_n :: u8

definition erasure_params_new :: "u8 \<Rightarrow> u8 \<Rightarrow> domain_error + erasure_params" where
  "erasure_params_new k n =
     (if k = 0 \<or> n < k then Inl (InvalidErasureParams k n) else Inr \<lparr>ep_k = k, ep_n = n\<rparr>)"

text \<open>\<^verbatim>\<open>self.n - self.k\<close> on \<^verbatim>\<open>u8\<close>: wrapping in a release build.\<close>

definition parity :: "erasure_params \<Rightarrow> u8" where
  "parity p = ep_n p - ep_k p"

definition passthrough_params :: erasure_params where
  "passthrough_params = \<lparr>ep_k = 1, ep_n = 1\<rparr>"

definition recommended_params :: erasure_params where
  "recommended_params = \<lparr>ep_k = 4, ep_n = 6\<rparr>"

record quota =
  q_max_bytes :: u64
  q_max_objects :: u64

definition admits :: "quota \<Rightarrow> u64 \<Rightarrow> u64 \<Rightarrow> u64 \<Rightarrow> bool" where
  "admits q current_bytes object_count add_bytes \<longleftrightarrow>
     saturating_add current_bytes add_bytes \<le> q_max_bytes q \<and> object_count < q_max_objects q"

record retention_policy =
  rp_keep_versions :: u32
  rp_min_days :: u32

definition hold_elapsed :: "retention_policy \<Rightarrow> timestamp \<Rightarrow> timestamp \<Rightarrow> bool" where
  "hold_elapsed p created_at now =
     (if rp_min_days p = 0 then True
      else (let elapsed_ms = saturating_sub (as_millis now) (as_millis created_at)
            in ucast (rp_min_days p) * 86400000 \<le> elapsed_ms))"

datatype encryption_mode = ClientSideOnly

record app_contract =
  ac_app_id :: app_id
  ac_protocol_version :: protocol_version
  ac_quota :: quota
  ac_retention :: retention_policy
  ac_erasure :: erasure_params
  ac_encryption :: encryption_mode

definition app_contract_new ::
  "app_id \<Rightarrow> quota \<Rightarrow> retention_policy \<Rightarrow> erasure_params \<Rightarrow> app_contract" where
  "app_contract_new app q ret er =
     \<lparr>ac_app_id = app, ac_protocol_version = PROTOCOL_CURRENT, ac_quota = q, ac_retention = ret,
      ac_erasure = er, ac_encryption = ClientSideOnly\<rparr>"

section \<open>Namespaces and placement (namespace.rs, placement.rs)\<close>

record namespace =
  nsp_id :: namespace_id
  nsp_app_id :: app_id

definition owned_by :: "namespace \<Rightarrow> app_id \<Rightarrow> bool" where
  "owned_by n app \<longleftrightarrow> nsp_app_id n = app"

record placement_policy =
  pp_locality_hint :: "string option"
  pp_prefer_peers :: bool

definition anchor_only :: placement_policy where
  "anchor_only = \<lparr>pp_locality_hint = None, pp_prefer_peers = False\<rparr>"

section \<open>Shards and manifests (backup.rs)\<close>

datatype shard_location = Anchor | Peer string

record shard =
  sh_index :: u16
  sh_sha256 :: string
  sh_size :: u32
  sh_locations :: "shard_location list"

definition shard_new :: "u16 \<Rightarrow> string \<Rightarrow> u32 \<Rightarrow> shard" where
  "shard_new i h sz = \<lparr>sh_index = i, sh_sha256 = h, sh_size = sz, sh_locations = [Anchor]\<rparr>"

record manifest =
  mf_blob_id :: blob_id
  mf_namespace :: namespace_id
  mf_erasure :: erasure_params
  mf_shards :: "shard list"
  mf_ciphertext_len :: u64
  mf_created_at :: timestamp
  mf_name_enc :: "string option"
  mf_object_id :: "string option"

definition manifest_new ::
  "blob_id \<Rightarrow> namespace_id \<Rightarrow> erasure_params \<Rightarrow> shard list \<Rightarrow> u64 \<Rightarrow> timestamp \<Rightarrow> manifest" where
  "manifest_new b ns er shs len now =
     \<lparr>mf_blob_id = b, mf_namespace = ns, mf_erasure = er, mf_shards = shs,
      mf_ciphertext_len = len, mf_created_at = now, mf_name_enc = None, mf_object_id = None\<rparr>"

definition is_reconstructable :: "manifest \<Rightarrow> nat \<Rightarrow> bool" where
  "is_reconstructable m available \<longleftrightarrow> unat (ep_k (mf_erasure m)) \<le> available"

section \<open>Facts about the domain policies\<close>

lemma timestamp_le_iff [domain_simps]: "a \<le> b \<longleftrightarrow> unat (as_millis a) \<le> unat (as_millis b)"
  by (simp add: less_eq_timestamp_def word_le_nat_alt)

lemma timestamp_less_iff [domain_simps]: "a < b \<longleftrightarrow> unat (as_millis a) < unat (as_millis b)"
  by (simp add: less_timestamp_def word_less_nat_alt)

lemma plus_secs_millis:
  "unat (as_millis (plus_secs t s)) = min (unat (as_millis t) + unat s * 1000) (2 ^ 64 - 1)"
  by (simp add: plus_secs_def unat_saturating_add unat_saturating_mul min_def)

lemma newline_not_in_operation [simp]: "newline \<notin> set (operation_as_str oper)"
  by (cases oper) auto

lemma operation_as_str_inject [simp]: "operation_as_str a = operation_as_str b \<longleftrightarrow> a = b"
  by (cases a; cases b) auto

lemma newline_not_in_show_nat [simp]: "newline \<notin> set (show_nat n)"
  using show_nat_digits [of newline n] by (auto simp: is_digit_def)

text \<open>Claims whose text fields hold no line break: what the id generators produce.\<close>

definition line_free :: "capability_claims \<Rightarrow> bool" where
  "line_free c \<longleftrightarrow>
     newline \<notin> set (app_str (cc_app_id c)) \<and> newline \<notin> set (ns_str (cc_namespace c)) \<and>
     newline \<notin> set (nonce_str (cc_nonce c))"

lemma unat_as_millis_inject [simp]: "unat (as_millis a) = unat (as_millis b) \<longleftrightarrow> a = b"
  by (metis timestamp.expand unsigned_word_eqI)

lemma canonical_text_injective:
  assumes "line_free c" and "line_free d" and "canonical_text c = canonical_text d"
  shows "c = d"
proof -
  from assms have "app_str (cc_app_id c) = app_str (cc_app_id d)
      \<and> ns_str (cc_namespace c) = ns_str (cc_namespace d)
      \<and> cc_operation c = cc_operation d
      \<and> nonce_str (cc_nonce c) = nonce_str (cc_nonce d)
      \<and> cc_expires_at c = cc_expires_at d"
    by (simp add: canonical_text_def line_free_def append_sep_eq)
  then show ?thesis
    by (simp add: app_id.expand namespace_id.expand nonce.expand)
qed

text \<open>
  The signed encoding of capability claims is unambiguous on ids without line breaks: two
  claim sets with the same canonical bytes are equal in every field.
\<close>

theorem canonical_bytes_injective:
  assumes "line_free c" and "line_free d" and "canonical_bytes c = canonical_bytes d"
  shows "c = d"
  using assms canonical_text_injective by (simp add: canonical_bytes_def)

theorem canonical_bytes_injective_witness:
  "(let c = \<lparr>cc_app_id = AppId ''app-a'', cc_namespace = NamespaceId ''ns-1'',
        cc_operation = OpPut, cc_nonce = Nonce ''n-1'', cc_expires_at = Timestamp 10000\<rparr>
    in line_free c \<and> canonical_bytes c = canonical_bytes c \<and> c = c)"
  using canonical_bytes_injective
    [of "\<lparr>cc_app_id = AppId ''app-a'', cc_namespace = NamespaceId ''ns-1'',
        cc_operation = OpPut, cc_nonce = Nonce ''n-1'', cc_expires_at = Timestamp 10000\<rparr>"]
  by (simp add: line_free_def)

text \<open>
  Without that restriction the encoding is ambiguous: a line break inside an id moves text
  from one field to the next, and two different claim sets are signed over the same bytes.
\<close>

theorem canonical_bytes_ambiguous:
  "\<exists>c d. c \<noteq> d \<and> cc_namespace c \<noteq> cc_namespace d \<and> canonical_bytes c = canonical_bytes d"
proof -
  define c :: capability_claims where
    "c = \<lparr>cc_app_id = AppId (''a'' @ [newline] @ ''ns=b''), cc_namespace = NamespaceId ''c'',
        cc_operation = OpPut, cc_nonce = Nonce ''n'', cc_expires_at = Timestamp 1\<rparr>"
  define d :: capability_claims where
    "d = \<lparr>cc_app_id = AppId ''a'', cc_namespace = NamespaceId (''b'' @ [newline] @ ''ns=c''),
        cc_operation = OpPut, cc_nonce = Nonce ''n'', cc_expires_at = Timestamp 1\<rparr>"
  have "c \<noteq> d" and "cc_namespace c \<noteq> cc_namespace d" and "canonical_bytes c = canonical_bytes d"
    by (simp_all add: c_def d_def canonical_bytes_def canonical_text_def)
  then show ?thesis by blast
qed

text \<open>
  A token passes the domain check exactly when it is unexpired and its claims name the
  requested app, namespace and operation; otherwise the first failing check decides the error.
\<close>

theorem token_authorize_spec:
  "token_authorize tok app ns oper now = Inr () \<longleftrightarrow>
     now < cc_expires_at (ct_claims tok) \<and> cc_app_id (ct_claims tok) = app \<and>
     cc_namespace (ct_claims tok) = ns \<and> cc_operation (ct_claims tok) = oper"
  by (auto simp: token_authorize_def is_expired_def not_le)

lemma unat_min_days_ms:
  "unat (ucast (d :: u32) * 86400000 :: u64) = unat d * 86400000"
proof -
  have d: "unat (ucast d :: u64) = unat d"
    by (simp add: unsigned_ucast_eq take_bit_nat_eq_self order.strict_trans [OF unsigned_less])
  have "unat d < 2 ^ 32"
    using unsigned_less [of d, where ?'a = nat] by simp
  then have "unat (ucast d :: u64) * unat (86400000 :: u64) < 2 ^ LENGTH(64)"
    by (simp add: d)
  then have "unat (ucast d * 86400000 :: u64) = unat (ucast d :: u64) * unat (86400000 :: u64)"
    by (rule unat_mult_lem [THEN iffD1])
  then show ?thesis by (simp add: d)
qed

lemma hold_elapsed_nat:
  "hold_elapsed p created now \<longleftrightarrow>
     rp_min_days p = 0 \<or>
     unat (as_millis created) + unat (rp_min_days p) * 86400000 \<le> unat (as_millis now)"
proof (cases "rp_min_days p = 0")
  case False
  then have "0 < unat (rp_min_days p) * 86400000"
    by (simp add: unat_gt_0)
  with False show ?thesis
    by (auto simp: hold_elapsed_def Let_def word_le_nat_alt unat_min_days_ms unat_saturating_sub)
qed (simp add: hold_elapsed_def)

text \<open>
  The retention hold in exact arithmetic: it has elapsed when there is no hold or when at
  least \<open>min_days\<close> whole days of milliseconds passed since creation; the machine computation
  neither overflows nor releases early when the clock reads before the creation time.
\<close>

theorem hold_elapsed_exact:
  "hold_elapsed p created now \<longleftrightarrow>
     rp_min_days p = 0 \<or>
     unat (as_millis created) + unat (rp_min_days p) * 86400000 \<le> unat (as_millis now)"
  by (rule hold_elapsed_nat)

text \<open>
  Quota admission in exact arithmetic, for every byte limit below the largest \<^verbatim>\<open>u64\<close>:
  the saturating sum never lets an oversized upload through.
\<close>

theorem admits_exact:
  assumes "unat (q_max_bytes q) < 2 ^ 64 - 1"
  shows "admits q cur cnt add \<longleftrightarrow>
     unat cur + unat add \<le> unat (q_max_bytes q) \<and> unat cnt < unat (q_max_objects q)"
  using assms by (auto simp: admits_def word_le_nat_alt word_less_nat_alt unat_saturating_add)

theorem admits_exact_witness:
  "admits \<lparr>q_max_bytes = 1000, q_max_objects = 10\<rparr> 900 5 100
    \<and> \<not> admits \<lparr>q_max_bytes = 1000, q_max_objects = 10\<rparr> 950 5 100"
  using admits_exact [of "\<lparr>q_max_bytes = 1000, q_max_objects = 10\<rparr>" 900 5 100]
    admits_exact [of "\<lparr>q_max_bytes = 1000, q_max_objects = 10\<rparr>" 950 5 100]
  by simp

definition valid_erasure :: "erasure_params \<Rightarrow> bool" where
  "valid_erasure p \<longleftrightarrow> 1 \<le> unat (ep_k p) \<and> unat (ep_k p) \<le> unat (ep_n p)"

lemma erasure_params_new_Inr:
  "erasure_params_new k n = Inr p \<longleftrightarrow> p = \<lparr>ep_k = k, ep_n = n\<rparr> \<and> valid_erasure p"
  by (auto simp: erasure_params_new_def valid_erasure_def word_less_nat_alt Suc_le_eq unat_gt_0
      split: if_splits)

lemma parity_valid: "valid_erasure p \<Longrightarrow> unat (parity p) = unat (ep_n p) - unat (ep_k p)"
  by (simp add: parity_def valid_erasure_def unat_sub word_le_nat_alt)

end
