(* ===== verification/Ports.thy ===== *)
theory Ports
  imports Domain
begin

text \<open>
  The ports, \<^verbatim>\<open>crates/vault-ports\<close>: the error type adapters return (\<^verbatim>\<open>error.rs\<close>),
  shard addresses and usage (\<^verbatim>\<open>storage.rs\<close>), and one record of operations per trait
  (\<^verbatim>\<open>storage.rs\<close>, \<^verbatim>\<open>crypto.rs\<close>, \<^verbatim>\<open>time.rs\<close>, \<^verbatim>\<open>future_ports.rs\<close>).  A trait object of the
  source (\<^verbatim>\<open>Arc<dyn Port>\<close>) is a value of such a record over a world type \<open>'w\<close>.
  The locales at the end state what the use-cases rely on; the adapter theories interpret them.
\<close>

section \<open>Errors (error.rs)\<close>

datatype port_error =
    NotFound
  | DomainErr domain_error
  | Crypto string
  | Integrity string
  | Serialization string
  | Unavailable string
  | Backend string

text \<open>
  What a computation that may panic can end in.  A panic is not an \<^verbatim>\<open>Err\<close>: no \<^verbatim>\<open>match\<close>
  on a result sees it, so the code that can panic has its own failure type.
\<close>

datatype fault = Fail port_error | Panic

type_synonym ('w, 'a) io = "(port_error, 'w, 'a) act"
type_synonym ('w, 'a) unsafe_io = "(fault, 'w, 'a) act"

section \<open>Shard addresses and usage (storage.rs)\<close>

record shard_ref =
  sr_namespace :: namespace_id
  sr_blob_id :: blob_id
  sr_index :: u16

definition shard_ref_new :: "namespace_id \<Rightarrow> blob_id \<Rightarrow> u16 \<Rightarrow> shard_ref" where
  "shard_ref_new ns b i = \<lparr>sr_namespace = ns, sr_blob_id = b, sr_index = i\<rparr>"

definition object_key :: "shard_ref \<Rightarrow> string" where
  "object_key at =
     ns_str (sr_namespace at) @ ''/'' @ blob_str (sr_blob_id at) @ ''/'' @
     show_pad5 (unat (sr_index at)) @ ''.shard''"

record namespace_usage =
  nu_bytes :: u64
  nu_objects :: u64

section \<open>The traits as records of operations\<close>

record 'w blob_anchor =
  ba_put_shard :: "shard_ref \<Rightarrow> bytes \<Rightarrow> ('w, unit) io"
  ba_get_shard :: "shard_ref \<Rightarrow> ('w, bytes) io"
  ba_delete_blob :: "namespace_id \<Rightarrow> blob_id \<Rightarrow> ('w, unit) io"

record 'w metadata_store =
  ms_register_app :: "app_contract \<Rightarrow> ('w, unit) io"
  ms_get_contract :: "app_id \<Rightarrow> ('w, app_contract option) io"
  ms_create_namespace :: "namespace \<Rightarrow> ('w, unit) io"
  ms_get_namespace :: "namespace_id \<Rightarrow> ('w, namespace option) io"
  ms_namespace_usage :: "namespace_id \<Rightarrow> ('w, namespace_usage) io"
  ms_list_namespaces :: "('w, namespace_id list) io"
  ms_put_manifest :: "manifest \<Rightarrow> ('w, unit) io"
  ms_get_manifest :: "namespace_id \<Rightarrow> blob_id \<Rightarrow> ('w, manifest option) io"
  ms_list_blobs :: "namespace_id \<Rightarrow> ('w, blob_id list) io"
  ms_delete_manifest :: "namespace_id \<Rightarrow> blob_id \<Rightarrow> ('w, unit) io"

record 'w cryptographer =
  cr_derive_key :: "bytes \<Rightarrow> bytes \<Rightarrow> bytes"
  cr_encrypt :: "bytes \<Rightarrow> bytes \<Rightarrow> ('w, bytes) io"
  cr_decrypt :: "bytes \<Rightarrow> bytes \<Rightarrow> port_error + bytes"
  cr_sha256_hex :: "bytes \<Rightarrow> string"

record erasure_coder =
  ec_encode :: "bytes \<Rightarrow> erasure_params \<Rightarrow> fault + bytes list"
  ec_decode :: "bytes option list \<Rightarrow> erasure_params \<Rightarrow> nat \<Rightarrow> port_error + bytes"

record capability_signer =
  cs_sign :: "capability_claims \<Rightarrow> port_error + capability_token"
  cs_public_key :: bytes

record auth_verifier =
  av_verify_signature :: "capability_token \<Rightarrow> port_error + unit"

record 'w clock =
  ck_now :: "'w \<Rightarrow> timestamp \<times> 'w"

record 'w id_source =
  is_new_id :: "string \<Rightarrow> 'w \<Rightarrow> string \<times> 'w"

definition new_nonce :: "'w id_source \<Rightarrow> 'w \<Rightarrow> nonce \<times> 'w" where
  "new_nonce ids w = (case is_new_id ids ''nonce'' w of (s, w') \<Rightarrow> (Nonce s, w'))"

record 'w shard_transport =
  st_send_shard :: "string \<Rightarrow> shard_ref \<Rightarrow> bytes \<Rightarrow> ('w, unit) io"
  st_fetch_shard :: "string \<Rightarrow> shard_ref \<Rightarrow> ('w, bytes) io"

section \<open>Keys\<close>

text \<open>Ids that are one ordinary path component: what the id generator produces.\<close>

definition plain_id :: "string \<Rightarrow> bool" where
  "plain_id s \<longleftrightarrow> s \<noteq> [] \<and> CHR ''/'' \<notin> set s \<and> s \<noteq> ''.'' \<and> s \<noteq> ''..''"

definition plain_ref :: "shard_ref \<Rightarrow> bool" where
  "plain_ref at \<longleftrightarrow> plain_id (ns_str (sr_namespace at)) \<and> plain_id (blob_str (sr_blob_id at))"

lemma slash_not_in_pad5 [simp]: "CHR ''/'' \<notin> set (show_pad5 n)"
  using show_pad5_digits [of "CHR ''/''" n] by (auto simp: is_digit_def)

lemma split_object_key:
  assumes "plain_ref at"
  shows "split_on (CHR ''/'') (object_key at) =
    [ns_str (sr_namespace at), blob_str (sr_blob_id at), show_pad5 (unat (sr_index at)) @ ''.shard'']"
  using assms
  by (simp add: object_key_def plain_ref_def plain_id_def split_on_append split_on_none)

lemma object_key_inj:
  assumes "plain_ref a" and "plain_ref b" and "object_key a = object_key b"
  shows "a = b"
proof -
  from assms(3) have "split_on (CHR ''/'') (object_key a) = split_on (CHR ''/'') (object_key b)"
    by simp
  with assms(1,2) have "ns_str (sr_namespace a) = ns_str (sr_namespace b)
      \<and> blob_str (sr_blob_id a) = blob_str (sr_blob_id b) \<and> unat (sr_index a) = unat (sr_index b)"
    by (simp add: split_object_key)
  then show ?thesis
    by (auto intro!: shard_ref.equality namespace_id.expand blob_id.expand simp: word_unat_eq_iff)
qed

text \<open>
  Object keys are collision free: two shard addresses with slash-free ids have the same
  object key only if namespace, blob and index all agree, so shards never overwrite each other.
\<close>

theorem object_key_injective:
  assumes "plain_ref a" and "plain_ref b" and "object_key a = object_key b"
  shows "a = b"
  using assms by (rule object_key_inj)

theorem object_key_injective_witness:
  "plain_ref \<lparr>sr_namespace = NamespaceId ''ns1'', sr_blob_id = BlobId ''b1'', sr_index = 3\<rparr>
   \<and> object_key \<lparr>sr_namespace = NamespaceId ''ns1'', sr_blob_id = BlobId ''b1'', sr_index = 3\<rparr>
     \<noteq> object_key \<lparr>sr_namespace = NamespaceId ''ns1'', sr_blob_id = BlobId ''b1'', sr_index = 4\<rparr>"
  using object_key_injective
    [of "\<lparr>sr_namespace = NamespaceId ''ns1'', sr_blob_id = BlobId ''b1'', sr_index = 3\<rparr>"
        "\<lparr>sr_namespace = NamespaceId ''ns1'', sr_blob_id = BlobId ''b1'', sr_index = 4\<rparr>"]
  by (auto simp: plain_ref_def plain_id_def)

section \<open>Frames: which part of the world an action leaves alone\<close>

named_theorems frame_rules \<open>actions that keep a view of the world\<close>

definition keeps :: "('w \<Rightarrow> 'v) \<Rightarrow> ('w \<Rightarrow> 'a \<times> 'w) \<Rightarrow> bool" where
  "keeps v m \<longleftrightarrow> (\<forall>w. v (snd (m w)) = v w)"

lemma keepsD: "keeps v m \<Longrightarrow> m w = (r, w') \<Longrightarrow> v w' = v w"
  by (metis keeps_def snd_conv)

lemma keepsI: "(\<And>w r w'. m w = (r, w') \<Longrightarrow> v w' = v w) \<Longrightarrow> keeps v m"
  by (metis keeps_def prod.collapse)

lemma keeps_pure [frame_rules, simp]:
  "keeps v (io_return a)" "keeps v (io_throw e)" "keeps v (io_lift r)"
  by (simp_all add: keeps_def io_return_def io_throw_def io_lift_def)

lemma keeps_bind [frame_rules]:
  assumes "keeps v m" and "\<And>a. keeps v (f a)"
  shows "keeps v (io_bind m f)"
proof (rule keepsI)
  fix w r w'
  assume "io_bind m f w = (r, w')"
  then show "v w' = v w"
    by (cases rule: io_bindE) (metis assms keepsD)+
qed

lemma keeps_attempt [frame_rules]: "keeps v m \<Longrightarrow> keeps v (io_attempt m)"
  by (simp add: keeps_def io_attempt_def split_beta)

lemma keeps_read [frame_rules]: "keeps v g \<Longrightarrow> keeps v (io_read g)"
  by (simp add: keeps_def io_read_def split_beta)

lemma keeps_map_err [frame_rules]: "keeps v m \<Longrightarrow> keeps v (io_map_err h m)"
  by (simp add: keeps_def io_map_err_def split_beta)

section \<open>What a metadata store promises\<close>

text \<open>The abstract contents of a store: three finite maps.\<close>

record meta_view =
  mv_contracts :: "app_id \<rightharpoonup> app_contract"
  mv_namespaces :: "namespace_id \<rightharpoonup> namespace"
  mv_manifests :: "namespace_id \<times> blob_id \<rightharpoonup> manifest"

definition blobs_of :: "meta_view \<Rightarrow> namespace_id \<Rightarrow> blob_id set" where
  "blobs_of v ns = {b. (ns, b) \<in> dom (mv_manifests v)}"

definition usage_of :: "meta_view \<Rightarrow> namespace_id \<Rightarrow> namespace_usage" where
  "usage_of v ns =
     \<lparr>nu_bytes = (\<Sum>b\<in>blobs_of v ns. mf_ciphertext_len (the (mv_manifests v (ns, b)))),
      nu_objects = word_of_nat (card (blobs_of v ns))\<rparr>"

definition add_contract :: "app_contract \<Rightarrow> meta_view \<Rightarrow> meta_view" where
  "add_contract c v = v\<lparr>mv_contracts := (mv_contracts v)(ac_app_id c \<mapsto> c)\<rparr>"

definition add_namespace :: "namespace \<Rightarrow> meta_view \<Rightarrow> meta_view" where
  "add_namespace n v = v\<lparr>mv_namespaces := (mv_namespaces v)(nsp_id n \<mapsto> n)\<rparr>"

definition add_manifest :: "manifest \<Rightarrow> meta_view \<Rightarrow> meta_view" where
  "add_manifest m v =
     v\<lparr>mv_manifests := (mv_manifests v)((mf_namespace m, mf_blob_id m) \<mapsto> m)\<rparr>"

definition drop_manifest :: "namespace_id \<Rightarrow> blob_id \<Rightarrow> meta_view \<Rightarrow> meta_view" where
  "drop_manifest ns b v = v\<lparr>mv_manifests := (mv_manifests v)((ns, b) := None)\<rparr>"

lemmas meta_view_updates = add_contract_def add_namespace_def add_manifest_def drop_manifest_def

text \<open>
  Reads return the abstract contents and change nothing; writes that report success perform the
  update.  A store may fail; a failed write has either not happened or happened completely.
\<close>

locale meta_laws =
  fixes ms :: "'w metadata_store" and mview :: "'w \<Rightarrow> meta_view"
  assumes read_keeps:
      "keeps mview (ms_get_contract ms a)" "keeps mview (ms_get_namespace ms ns)"
      "keeps mview (ms_namespace_usage ms ns)" "keeps mview (ms_list_namespaces ms)"
      "keeps mview (ms_get_manifest ms ns b)" "keeps mview (ms_list_blobs ms ns)"
    and get_contract: "ms_get_contract ms a w = (Inr x, w') \<Longrightarrow> x = mv_contracts (mview w) a"
    and get_namespace: "ms_get_namespace ms ns w = (Inr y, w') \<Longrightarrow> y = mv_namespaces (mview w) ns"
    and get_manifest: "ms_get_manifest ms ns b w = (Inr z, w') \<Longrightarrow> z = mv_manifests (mview w) (ns, b)"
    and namespace_usage: "ms_namespace_usage ms ns w = (Inr u, w') \<Longrightarrow> u = usage_of (mview w) ns"
    and list_namespaces: "ms_list_namespaces ms w = (Inr nss, w') \<Longrightarrow>
      set nss = dom (mv_namespaces (mview w)) \<and> distinct nss"
    and list_blobs: "ms_list_blobs ms ns w = (Inr bs, w') \<Longrightarrow>
      set bs = blobs_of (mview w) ns \<and> distinct bs"
    and register_app: "ms_register_app ms c w = (r, w') \<Longrightarrow>
      mview w' = add_contract c (mview w) \<or> (\<exists>e. r = Inl e) \<and> mview w' = mview w"
    and create_namespace: "ms_create_namespace ms n w = (r, w') \<Longrightarrow>
      mview w' = add_namespace n (mview w) \<or> (\<exists>e. r = Inl e) \<and> mview w' = mview w"
    and put_manifest: "ms_put_manifest ms m w = (r, w') \<Longrightarrow>
      mview w' = add_manifest m (mview w) \<or> (\<exists>e. r = Inl e) \<and> mview w' = mview w"
    and delete_manifest: "ms_delete_manifest ms ns b w = (r, w') \<Longrightarrow>
      mview w' = drop_manifest ns b (mview w) \<or> (\<exists>e. r = Inl e) \<and> mview w' = mview w"

text \<open>A store that never reports an error, as the in-memory one.\<close>

locale reliable_meta = meta_laws +
  assumes total:
    "\<exists>w'. ms_register_app ms c w = (Inr (), w')" "\<exists>x w'. ms_get_contract ms a w = (Inr x, w')"
    "\<exists>w'. ms_create_namespace ms n w = (Inr (), w')" "\<exists>y w'. ms_get_namespace ms ns w = (Inr y, w')"
    "\<exists>u w'. ms_namespace_usage ms ns w = (Inr u, w')" "\<exists>nss w'. ms_list_namespaces ms w = (Inr nss, w')"
    "\<exists>w'. ms_put_manifest ms m w = (Inr (), w')" "\<exists>z w'. ms_get_manifest ms ns b w = (Inr z, w')"
    "\<exists>bs w'. ms_list_blobs ms ns w = (Inr bs, w')" "\<exists>w'. ms_delete_manifest ms ns b w = (Inr (), w')"

section \<open>What a blob anchor promises\<close>

text \<open>
  The abstract contents map addresses of plain ids to shard bytes.  The anchor may fail; a failed
  write or delete never touches the shards of other addresses.
\<close>

definition drop_blob :: "namespace_id \<Rightarrow> blob_id \<Rightarrow> (shard_ref \<rightharpoonup> bytes) \<Rightarrow> (shard_ref \<rightharpoonup> bytes)" where
  "drop_blob ns b a = (\<lambda>r. if sr_namespace r = ns \<and> sr_blob_id r = b then None else a r)"

locale anchor_laws =
  fixes ba :: "'w blob_anchor" and aview :: "'w \<Rightarrow> shard_ref \<rightharpoonup> bytes"
  assumes get_keeps: "keeps aview (ba_get_shard ba at)"
    and get_found: "plain_ref at \<Longrightarrow> ba_get_shard ba at w = (Inr x, w') \<Longrightarrow> aview w at = Some x"
    and get_missing: "plain_ref at \<Longrightarrow> ba_get_shard ba at w = (Inl NotFound, w') \<Longrightarrow> aview w at = None"
    and put_stored: "plain_ref at \<Longrightarrow> ba_put_shard ba at x w = (Inr (), w') \<Longrightarrow>
      aview w' = (aview w)(at \<mapsto> x)"
    and put_failed: "plain_ref at \<Longrightarrow> ba_put_shard ba at x w = (Inl e, w') \<Longrightarrow>
      r \<noteq> at \<Longrightarrow> aview w' r = aview w r"
    and delete_done: "plain_id (ns_str ns) \<Longrightarrow> plain_id (blob_str b) \<Longrightarrow>
      ba_delete_blob ba ns b w = (Inr (), w') \<Longrightarrow> aview w' = drop_blob ns b (aview w)"
    and delete_failed: "plain_id (ns_str ns) \<Longrightarrow> plain_id (blob_str b) \<Longrightarrow>
      ba_delete_blob ba ns b w = (Inl e, w') \<Longrightarrow>
      sr_namespace r \<noteq> ns \<or> sr_blob_id r \<noteq> b \<Longrightarrow> aview w' r = aview w r"

section \<open>The ports of a deployment\<close>

text \<open>Clock readings and id draws leave the stored data alone.\<close>

locale control_laws = meta_laws ms mview
  for ms :: "'w metadata_store" and mview :: "'w \<Rightarrow> meta_view" +
  fixes ck :: "'w clock" and ids :: "'w id_source"
  assumes env_keeps_meta [frame_rules]: "keeps mview (ck_now ck)" "keeps mview (is_new_id ids s)"

text \<open>
  A data-plane deployment: metadata and shards are separate data, and peers hold replicas of
  their own, so that talking to a peer changes neither the metadata nor the anchor.
\<close>

locale vault_laws = control_laws ms mview ck ids + anchor_laws ba aview
  for ms :: "'w metadata_store" and mview :: "'w \<Rightarrow> meta_view"
    and ck :: "'w clock" and ids :: "'w id_source"
    and ba :: "'w blob_anchor" and aview :: "'w \<Rightarrow> shard_ref \<rightharpoonup> bytes" +
  fixes tr :: "'w shard_transport"
  assumes meta_keeps_anchor [frame_rules]:
      "keeps aview (ms_get_contract ms a)" "keeps aview (ms_get_namespace ms ns)"
      "keeps aview (ms_namespace_usage ms ns)" "keeps aview (ms_list_namespaces ms)"
      "keeps aview (ms_get_manifest ms ns b)" "keeps aview (ms_list_blobs ms ns)"
      "keeps aview (ms_put_manifest ms m)" "keeps aview (ms_delete_manifest ms ns b)"
    and anchor_keeps_meta [frame_rules]:
      "keeps mview (ba_put_shard ba at x)" "keeps mview (ba_get_shard ba at)"
      "keeps mview (ba_delete_blob ba ns b)"
    and env_keeps_anchor [frame_rules]: "keeps aview (ck_now ck)" "keeps aview (is_new_id ids s)"
    and peers_keep [frame_rules]:
      "keeps mview (st_send_shard tr p at x)" "keeps aview (st_send_shard tr p at x)"
      "keeps mview (st_fetch_shard tr p at)" "keeps aview (st_fetch_shard tr p at)"
    and ids_plain: "plain_id s \<Longrightarrow> plain_id (fst (is_new_id ids s w))"


text \<open>
  Availability: \<open>readable\<close> says at which addresses the anchor answers.  Where it does, a stored
  shard is returned, and reading, asking peers or the clock does not change where it answers.
\<close>

locale live_vault = vault_laws ms mview ck ids ba aview tr
  for ms :: "'w metadata_store" and mview :: "'w \<Rightarrow> meta_view"
    and ck :: "'w clock" and ids :: "'w id_source"
    and ba :: "'w blob_anchor" and aview :: "'w \<Rightarrow> shard_ref \<rightharpoonup> bytes" and tr :: "'w shard_transport" +
  fixes readable :: "'w \<Rightarrow> shard_ref \<Rightarrow> bool"
  assumes get_live: "plain_ref at \<Longrightarrow> readable w at \<Longrightarrow> aview w at = Some x \<Longrightarrow>
      \<exists>w'. ba_get_shard ba at w = (Inr x, w')"
    and readable_keeps [frame_rules]:
      "keeps readable (ms_get_contract ms a)" "keeps readable (ms_get_namespace ms ns)"
      "keeps readable (ms_get_manifest ms ns b)" "keeps readable (ck_now ck)"
      "keeps readable (ba_get_shard ba at)" "keeps readable (ba_put_shard ba at x)"
      "keeps readable (st_fetch_shard tr p at)" "keeps readable (st_send_shard tr p at x)"

end
