(* ===== verification/Control_Plane.thy ===== *)
theory Control_Plane
  imports Ports
begin

text \<open>
  The control-plane use-cases of \<^verbatim>\<open>crates/vault-app\<close>: the authorization guard shared by the data
  plane (\<^verbatim>\<open>guard.rs\<close>), app registration, namespaces, capability issue and the usage statement.
\<close>

section \<open>The authorization guard (guard.rs)\<close>

definition guard_authorize ::
  "auth_verifier \<Rightarrow> 'w metadata_store \<Rightarrow> 'w clock \<Rightarrow> namespace_id \<Rightarrow> capability_token \<Rightarrow> operation
   \<Rightarrow> ('w, app_id) io" where
  "guard_authorize verifier metadata clk ns tok oper =
     io_bind (io_lift (av_verify_signature verifier tok)) (\<lambda>_.
     (let app = cc_app_id (ct_claims tok) in
      io_bind (io_read (ck_now clk)) (\<lambda>now.
      io_bind (io_lift (map_sum DomainErr id (token_authorize tok app ns oper now))) (\<lambda>_.
      io_bind (ms_get_namespace metadata ns) (\<lambda>found.
      io_bind (io_lift (ok_or NotFound found)) (\<lambda>n.
      if \<not> owned_by n app then io_throw (DomainErr Unauthorized) else io_return app))))))"

section \<open>Registration and namespaces (register\_app.rs, create\_namespace.rs)\<close>

definition register_app_execute ::
  "'w metadata_store \<Rightarrow> 'w id_source \<Rightarrow> quota \<Rightarrow> retention_policy \<Rightarrow> erasure_params \<Rightarrow> ('w, app_contract) io" where
  "register_app_execute metadata ids q ret er =
     io_bind (io_read (is_new_id ids ''app'')) (\<lambda>s.
     (let contract = app_contract_new (AppId s) q ret er in
      io_bind (ms_register_app metadata contract) (\<lambda>_. io_return contract)))"

definition create_namespace_execute ::
  "'w metadata_store \<Rightarrow> 'w id_source \<Rightarrow> app_id \<Rightarrow> ('w, namespace) io" where
  "create_namespace_execute metadata ids app =
     io_bind (ms_get_contract metadata app) (\<lambda>found.
     if found = None then io_throw NotFound
     else io_bind (io_read (is_new_id ids ''ns'')) (\<lambda>s.
       (let n = \<lparr>nsp_id = NamespaceId s, nsp_app_id = app\<rparr> in
        io_bind (ms_create_namespace metadata n) (\<lambda>_. io_return n))))"

section \<open>Capability issue (issue\_capability.rs)\<close>

definition MAX_TOKEN_TTL_SECS :: u64 where
  "MAX_TOKEN_TTL_SECS = 15 * 60"

definition clamp_u64 :: "u64 \<Rightarrow> u64 \<Rightarrow> u64 \<Rightarrow> u64" where
  "clamp_u64 lo hi x = (if x < lo then lo else if hi < x then hi else x)"

definition issue_capability_execute ::
  "'w metadata_store \<Rightarrow> capability_signer \<Rightarrow> 'w id_source \<Rightarrow> 'w clock \<Rightarrow> app_id \<Rightarrow> namespace_id
   \<Rightarrow> operation \<Rightarrow> u64 \<Rightarrow> ('w, capability_token) io" where
  "issue_capability_execute metadata signer ids clk app ns oper ttl_secs =
     io_bind (ms_get_namespace metadata ns) (\<lambda>found.
     io_bind (io_lift (ok_or NotFound found)) (\<lambda>n.
     if \<not> owned_by n app then io_throw (DomainErr Unauthorized)
     else (let ttl = clamp_u64 1 MAX_TOKEN_TTL_SECS ttl_secs in
       io_bind (io_read (ck_now clk)) (\<lambda>now.
       (let expires_at = plus_secs now ttl in
        io_bind (io_read (new_nonce ids)) (\<lambda>non.
        io_lift (cs_sign signer
          \<lparr>cc_app_id = app, cc_namespace = ns, cc_operation = oper, cc_nonce = non,
           cc_expires_at = expires_at\<rparr>)))))))"

section \<open>Usage statement (usage\_report.rs)\<close>

definition MICROS_PER_GIB :: u64 where
  "MICROS_PER_GIB = 20000"

definition BYTES_PER_GIB :: u64 where
  "BYTES_PER_GIB = 2 ^ 30"

record namespace_line =
  nl_namespace :: namespace_id
  nl_bytes :: u64
  nl_objects :: u64

record usage_statement =
  us_app_id :: app_id
  us_lines :: "namespace_line list"
  us_total_bytes :: u64
  us_total_objects :: u64
  us_quota_max_bytes :: u64
  us_estimated_cost_micros :: u64

fun usage_lines ::
  "'w metadata_store \<Rightarrow> app_id \<Rightarrow> namespace_id list \<Rightarrow> namespace_line list \<Rightarrow> u64 \<Rightarrow> u64
   \<Rightarrow> ('w, namespace_line list \<times> u64 \<times> u64) io" where
  "usage_lines metadata app [] ls total_bytes total_objects =
     io_return (ls, total_bytes, total_objects)"
| "usage_lines metadata app (ns # nss) ls total_bytes total_objects =
     io_bind (ms_get_namespace metadata ns) (\<lambda>found.
     case found of
       Some n \<Rightarrow>
         if nsp_app_id n = app
         then io_bind (ms_namespace_usage metadata ns) (\<lambda>u.
           usage_lines metadata app nss
             (ls @ [\<lparr>nl_namespace = ns, nl_bytes = nu_bytes u, nl_objects = nu_objects u\<rparr>])
             (total_bytes + nu_bytes u) (total_objects + nu_objects u))
         else usage_lines metadata app nss ls total_bytes total_objects
     | None \<Rightarrow> usage_lines metadata app nss ls total_bytes total_objects)"

definition usage_report_execute :: "'w metadata_store \<Rightarrow> app_id \<Rightarrow> ('w, usage_statement) io" where
  "usage_report_execute metadata app =
     io_bind (ms_get_contract metadata app) (\<lambda>found.
     io_bind (io_lift (ok_or NotFound found)) (\<lambda>contract.
     io_bind (ms_list_namespaces metadata) (\<lambda>nss.
     io_bind (usage_lines metadata app nss [] 0 0) (\<lambda>(ls, total_bytes, total_objects).
     io_return \<lparr>us_app_id = app, us_lines = ls, us_total_bytes = total_bytes,
       us_total_objects = total_objects, us_quota_max_bytes = q_max_bytes (ac_quota contract),
       us_estimated_cost_micros = saturating_mul total_bytes MICROS_PER_GIB div BYTES_PER_GIB\<rparr>))))"

section \<open>Inversion of the control-plane actions\<close>

lemma guard_authorize_Inr:
  assumes "guard_authorize v ms ck ns tok oper w = (Inr app, w')"
  obtains now w1 n where "av_verify_signature v tok = Inr ()" and "app = cc_app_id (ct_claims tok)"
    and "ck_now ck w = (now, w1)" and "token_authorize tok app ns oper now = Inr ()"
    and "ms_get_namespace ms ns w1 = (Inr (Some n), w')" and "nsp_app_id n = app"
  using assms
  by (auto simp: guard_authorize_def Let_def io_inv owned_by_def split: if_splits)

lemma issue_capability_Inr:
  assumes "issue_capability_execute ms sg ids ck app ns oper ttl w = (Inr tok, w')"
  obtains n w1 now w2 non where "ms_get_namespace ms ns w = (Inr (Some n), w1)" and "nsp_app_id n = app"
    and "ck_now ck w1 = (now, w2)" and "new_nonce ids w2 = (non, w')"
    and "cs_sign sg \<lparr>cc_app_id = app, cc_namespace = ns, cc_operation = oper, cc_nonce = non,
      cc_expires_at = plus_secs now (clamp_u64 1 MAX_TOKEN_TTL_SECS ttl)\<rparr> = Inr tok"
  using assms
  by (auto simp: issue_capability_execute_def Let_def io_inv owned_by_def split: if_splits)

lemma clamp_ttl_bounds:
  "1 \<le> unat (clamp_u64 1 MAX_TOKEN_TTL_SECS x)" "unat (clamp_u64 1 MAX_TOKEN_TTL_SECS x) \<le> 900"
  by (auto simp: clamp_u64_def MAX_TOKEN_TTL_SECS_def word_less_nat_alt)

lemma keeps_new_nonce [frame_rules]: "keeps v (is_new_id ids ''nonce'') \<Longrightarrow> keeps v (new_nonce ids)"
  by (simp add: keeps_def new_nonce_def split_beta)

definition owned :: "app_id \<Rightarrow> namespace option \<Rightarrow> bool" where
  "owned app x \<longleftrightarrow> (case x of None \<Rightarrow> False | Some n \<Rightarrow> nsp_app_id n = app)"

definition usage_line :: "meta_view \<Rightarrow> namespace_id \<Rightarrow> namespace_line" where
  "usage_line v ns = \<lparr>nl_namespace = ns, nl_bytes = nu_bytes (usage_of v ns), nl_objects = nu_objects (usage_of v ns)\<rparr>"

section \<open>What the control plane guarantees over any lawful metadata store\<close>

context control_laws
begin

lemma guard_keeps: "keeps mview (guard_authorize v ms ck ns tok oper)"
  unfolding guard_authorize_def Let_def
  by (intro frame_rules) (auto intro!: frame_rules read_keeps)

lemma guard_grants:
  assumes "guard_authorize v ms ck ns tok oper w = (Inr app, w')"
  shows "av_verify_signature v tok = Inr () \<and> app = cc_app_id (ct_claims tok) \<and>
    cc_namespace (ct_claims tok) = ns \<and> cc_operation (ct_claims tok) = oper \<and>
    fst (ck_now ck w) < cc_expires_at (ct_claims tok) \<and>
    (\<exists>n. mv_namespaces (mview w) ns = Some n \<and> nsp_app_id n = app) \<and> mview w' = mview w"
proof -
  from assms obtain now w1 n where g: "av_verify_signature v tok = Inr ()"
      "app = cc_app_id (ct_claims tok)" "ck_now ck w = (now, w1)"
      "token_authorize tok app ns oper now = Inr ()"
      "ms_get_namespace ms ns w1 = (Inr (Some n), w')" "nsp_app_id n = app"
    by (rule guard_authorize_Inr)
  have "mview w1 = mview w" using env_keeps_meta(1) g(3) by (rule keepsD)
  moreover have "mv_namespaces (mview w1) ns = Some n" using get_namespace [OF g(5)] by simp
  moreover have "mview w' = mview w" using guard_keeps assms by (rule keepsD)
  moreover have "now < cc_expires_at (ct_claims tok) \<and> cc_namespace (ct_claims tok) = ns
      \<and> cc_operation (ct_claims tok) = oper"
    using g(4) by (auto simp: token_authorize_def is_expired_def split: if_splits)
  ultimately show ?thesis using g by auto
qed

lemma issue_keeps: "keeps mview (issue_capability_execute ms sg ids ck app ns oper ttl)"
  unfolding issue_capability_execute_def Let_def
  by (intro frame_rules) (auto intro!: frame_rules read_keeps)

lemma issue_scoped:
  assumes "issue_capability_execute ms sg ids ck app ns oper ttl w = (Inr tok, w')"
    and signs: "\<And>cl t. cs_sign sg cl = Inr t \<Longrightarrow> ct_claims t = cl"
  shows "\<exists>n now. mv_namespaces (mview w) ns = Some n \<and> nsp_app_id n = app \<and> mview w' = mview w \<and>
    cc_app_id (ct_claims tok) = app \<and> cc_namespace (ct_claims tok) = ns \<and>
    cc_operation (ct_claims tok) = oper \<and>
    (\<exists>w1. now = fst (ck_now ck w1)) \<and>
    cc_expires_at (ct_claims tok) \<le> plus_secs now 900"
proof -
  from assms(1) obtain n w1 now w2 non where i: "ms_get_namespace ms ns w = (Inr (Some n), w1)"
      "nsp_app_id n = app" "ck_now ck w1 = (now, w2)" "new_nonce ids w2 = (non, w')"
      "cs_sign sg \<lparr>cc_app_id = app, cc_namespace = ns, cc_operation = oper, cc_nonce = non,
        cc_expires_at = plus_secs now (clamp_u64 1 MAX_TOKEN_TTL_SECS ttl)\<rparr> = Inr tok"
    by (rule issue_capability_Inr)
  have "plus_secs now (clamp_u64 1 MAX_TOKEN_TTL_SECS ttl) \<le> plus_secs now 900"
    using clamp_ttl_bounds(2) [of ttl] by (simp add: timestamp_le_iff plus_secs_millis min_def)
  moreover have "mv_namespaces (mview w) ns = Some n" using get_namespace [OF i(1)] by simp
  moreover have "mview w' = mview w" using issue_keeps assms(1) by (rule keepsD)
  ultimately show ?thesis
    using i signs [OF i(5)] by (metis capability_claims.select_convs fst_conv)
qed

text \<open>Creating a namespace records it for an app that has a contract, and nothing else.\<close>

lemma create_namespace_ok:
  assumes "create_namespace_execute ms ids app w = (Inr n, w')"
  shows "mv_contracts (mview w) app \<noteq> None \<and> nsp_app_id n = app \<and> mview w' = add_namespace n (mview w) \<and>
    (\<exists>w1. NamespaceId (fst (is_new_id ids ''ns'' w1)) = nsp_id n)"
proof -
  from assms obtain c w1 s w2 where p: "ms_get_contract ms app w = (Inr (Some c), w1)"
      "is_new_id ids ''ns'' w1 = (s, w2)" "n = \<lparr>nsp_id = NamespaceId s, nsp_app_id = app\<rparr>"
      "ms_create_namespace ms n w2 = (Inr (), w')"
    by (auto simp: create_namespace_execute_def Let_def io_inv split: if_splits)
  have "mview w2 = mview w" using keepsD [OF read_keeps(1) p(1)] keepsD [OF env_keeps_meta(2) p(2)] by simp
  moreover have "mv_contracts (mview w) app = Some c" using get_contract [OF p(1)] by simp
  ultimately show ?thesis using create_namespace [OF p(4)] p(2,3) by (metis fst_conv namespace.select_convs option.distinct(1) sum.distinct(2))
qed

lemma register_app_ok:
  assumes "register_app_execute ms ids q ret er w = (Inr c, w')"
  shows "mview w' = add_contract c (mview w) \<and> ac_quota c = q \<and> ac_retention c = ret \<and> ac_erasure c = er \<and>
    ac_protocol_version c = PROTOCOL_CURRENT \<and> ac_app_id c = AppId (fst (is_new_id ids ''app'' w))"
proof -
  from assms obtain s w1 where p: "is_new_id ids ''app'' w = (s, w1)" "c = app_contract_new (AppId s) q ret er"
      "ms_register_app ms c w1 = (Inr (), w')"
    by (auto simp: register_app_execute_def Let_def io_inv)
  show ?thesis
    using register_app [OF p(3)] keepsD [OF env_keeps_meta(2) p(1)] p(1,2) by (auto simp: app_contract_new_def)
qed

lemma usage_lines_spec:
  assumes "usage_lines ms app nss ls tb ob w = (Inr (ls', tb', ob'), w')"
  shows "(let new = map (usage_line (mview w)) (filter (\<lambda>ns. owned app (mv_namespaces (mview w) ns)) nss) in
    ls' = ls @ new \<and> tb' = tb + sum_list (map nl_bytes new) \<and> ob' = ob + sum_list (map nl_objects new)) \<and>
    mview w' = mview w"
  using assms
proof (induction nss arbitrary: ls tb ob w)
  case (Cons ns nss)
  then obtain found w1 where g: "ms_get_namespace ms ns w = (Inr found, w1)"
    and r: "(case found of Some n \<Rightarrow> if nsp_app_id n = app
         then io_bind (ms_namespace_usage ms ns) (\<lambda>u. usage_lines ms app nss
             (ls @ [\<lparr>nl_namespace = ns, nl_bytes = nu_bytes u, nl_objects = nu_objects u\<rparr>])
             (tb + nu_bytes u) (ob + nu_objects u))
         else usage_lines ms app nss ls tb ob
       | None \<Rightarrow> usage_lines ms app nss ls tb ob) w1 = (Inr (ls', tb', ob'), w')"
    unfolding usage_lines.simps io_bind_Inr by blast
  have v: "mview w1 = mview w" "found = mv_namespaces (mview w) ns"
    using keepsD [OF read_keeps(2) g] get_namespace [OF g] by simp_all
  show ?case
  proof (cases "owned app found")
    case True
    then obtain n where n: "found = Some n" "nsp_app_id n = app" by (auto simp: owned_def split: option.splits)
    with r obtain u w2 where u: "ms_namespace_usage ms ns w1 = (Inr u, w2)"
      "usage_lines ms app nss (ls @ [\<lparr>nl_namespace = ns, nl_bytes = nu_bytes u, nl_objects = nu_objects u\<rparr>])
             (tb + nu_bytes u) (ob + nu_objects u) w2 = (Inr (ls', tb', ob'), w')"
      by (auto simp: io_bind_Inr)
    have "mview w2 = mview w" "u = usage_of (mview w) ns"
      using keepsD [OF read_keeps(3) u(1)] namespace_usage [OF u(1)] v by simp_all
    then show ?thesis using Cons.IH [OF u(2)] True v by (simp add: Let_def usage_line_def add.assoc)
  next
    case False
    then have skip: "usage_lines ms app nss ls tb ob w1 = (Inr (ls', tb', ob'), w')"
      using r by (auto simp: owned_def split: option.splits)
    show ?thesis using Cons.IH [OF skip] False v by simp
  qed
qed (simp add: io_return_def)

lemma usage_report_ok:
  assumes "usage_report_execute ms app w = (Inr st, w')"
  obtains nss c where "set nss = {ns. owned app (mv_namespaces (mview w) ns)}" and "distinct nss"
    and "mv_contracts (mview w) app = Some c"
    and "us_app_id st = app" and "us_lines st = map (usage_line (mview w)) nss"
    and "us_total_bytes st = sum_list (map nl_bytes (us_lines st))"
    and "us_total_objects st = sum_list (map nl_objects (us_lines st))"
    and "us_quota_max_bytes st = q_max_bytes (ac_quota c)"
    and "us_estimated_cost_micros st = saturating_mul (us_total_bytes st) MICROS_PER_GIB div BYTES_PER_GIB"
    and "mview w' = mview w"
proof -
  from assms obtain c w1 nss w2 ls tb ob where p: "ms_get_contract ms app w = (Inr (Some c), w1)"
      "ms_list_namespaces ms w1 = (Inr nss, w2)" "usage_lines ms app nss [] 0 0 w2 = (Inr (ls, tb, ob), w')"
      "st = \<lparr>us_app_id = app, us_lines = ls, us_total_bytes = tb, us_total_objects = ob,
         us_quota_max_bytes = q_max_bytes (ac_quota c),
         us_estimated_cost_micros = saturating_mul tb MICROS_PER_GIB div BYTES_PER_GIB\<rparr>"
    by (auto simp: usage_report_execute_def io_inv)
  have v: "mview w1 = mview w" "mview w2 = mview w" "mv_contracts (mview w) app = Some c"
    using keepsD [OF read_keeps(1) p(1)] keepsD [OF read_keeps(4) p(2)] get_contract [OF p(1)] by simp_all
  have n: "set nss = dom (mv_namespaces (mview w))" "distinct nss" using list_namespaces [OF p(2)] v by simp_all
  let ?own = "filter (\<lambda>ns. owned app (mv_namespaces (mview w) ns)) nss"
  have "set ?own = {ns. owned app (mv_namespaces (mview w) ns)}"
    using n by (auto simp: owned_def split: option.splits)
  then show thesis
    using usage_lines_spec [OF p(3)] v n(2) p(4) by (intro that [of ?own c]) (simp_all add: Let_def)
qed

end

end
