(* ===== verification/Erasure_Coders.thy ===== *)
theory Erasure_Coders
  imports Ports
begin

text \<open>
  The two erasure adapters: the replication coder of \<^verbatim>\<open>crates/adapter-erasure\<close> and the
  Reed-Solomon coder of \<^verbatim>\<open>crates/adapter-reed-solomon\<close>.  The latter's splitting, padding,
  guards and reassembly are modelled in full; the matrix code of the third-party crate
  \<^verbatim>\<open>reed_solomon_erasure\<close> is a parameter, and \<open>rs_contract\<close> is its documented promise.
  Both adapters satisfy the contract \<open>erasure_laws\<close> that the use-cases build on.
\<close>

section \<open>Slots\<close>

definition survivors :: "bytes option list \<Rightarrow> nat" where
  "survivors slots = length (filter (\<lambda>s. s \<noteq> None) slots)"

fun find_present :: "'a option list \<Rightarrow> 'a option" where
  "find_present [] = None"
| "find_present (None # xs) = find_present xs"
| "find_present (Some x # xs) = Some x"

text \<open>A slot list holds the given shards, except that some are missing.\<close>

definition slots_of :: "bytes list \<Rightarrow> bytes option list \<Rightarrow> bool" where
  "slots_of shards slots \<longleftrightarrow> list_all2 (\<lambda>s x. x = None \<or> x = Some s) shards slots"

lemma slots_of_length: "slots_of shards slots \<Longrightarrow> length slots = length shards"
  by (simp add: slots_of_def list_all2_lengthD)

lemma slots_of_nth:
  "slots_of shards slots \<longleftrightarrow> length slots = length shards \<and>
     (\<forall>i<length shards. slots ! i = None \<or> slots ! i = Some (shards ! i))"
  by (auto simp: slots_of_def list_all2_conv_all_nth)

lemma slots_of_mem: "slots_of shards slots \<Longrightarrow> Some x \<in> set slots \<Longrightarrow> x \<in> set shards"
  by (fastforce simp: slots_of_nth in_set_conv_nth)

lemma survivors_le: "survivors slots \<le> length slots"
  by (simp add: survivors_def)

lemma survivors_pos: "0 < survivors slots \<longleftrightarrow> (\<exists>x. Some x \<in> set slots)"
  by (auto simp: survivors_def filter_empty_conv)

lemma survivors_simps [simp]:
  "survivors [] = 0" "survivors (None # ss) = survivors ss" "survivors (Some x # ss) = Suc (survivors ss)"
  by (simp_all add: survivors_def)

lemma survivors_full:
  assumes "slots_of shards slots" and "survivors slots = length slots"
  shows "slots = map Some shards"
  using assms unfolding slots_of_def
proof (induction rule: list_all2_induct)
  case (Cons s ss x xs)
  then show ?case using survivors_le [of xs] by auto
qed simp

lemma find_present_None: "find_present slots = None \<longleftrightarrow> survivors slots = 0"
  by (induction slots rule: find_present.induct) auto

lemma find_present_Some: "find_present slots = Some x \<Longrightarrow> Some x \<in> set slots"
  by (induction slots rule: find_present.induct) auto

section \<open>The contract of an erasure coder\<close>

locale erasure_laws =
  fixes ec :: erasure_coder and supported :: "erasure_params \<Rightarrow> bool"
  assumes supported_valid: "supported p \<Longrightarrow> valid_erasure p"
    and encode_ok: "supported p \<Longrightarrow> \<exists>shards. ec_encode ec d p = Inr shards"
    and encode_count: "supported p \<Longrightarrow> ec_encode ec d p = Inr shards \<Longrightarrow> length shards = unat (ep_n p)"
    and decode_any_k: "supported p \<Longrightarrow> ec_encode ec d p = Inr shards \<Longrightarrow> slots_of shards slots \<Longrightarrow>
      unat (ep_k p) \<le> survivors slots \<Longrightarrow> ec_decode ec slots p (length d) = Inr d"
begin

lemma encode_bound: "supported p \<Longrightarrow> ec_encode ec d p = Inr shards \<Longrightarrow> length shards < 256"
  using encode_count unsigned_less [of "ep_n p", where ?'a = nat] by simp

text \<open>Decoding any surviving set and encoding again gives back the whole original set.\<close>

lemma decode_encode:
  assumes "supported p" and "ec_encode ec d p = Inr shards" and "slots_of shards slots"
    and "unat (ep_k p) \<le> survivors slots"
  shows "\<exists>data. ec_decode ec slots p (length d) = Inr data \<and> ec_encode ec data p = Inr shards"
  using assms decode_any_k by blast

lemma encode_nonempty: "supported p \<Longrightarrow> ec_encode ec d p = Inr shards \<Longrightarrow> shards \<noteq> []"
  using encode_count [of p d shards] supported_valid [of p] by (auto simp: valid_erasure_def)

end

section \<open>Replication coder (adapter-erasure)\<close>

definition passthrough_encode :: "bytes \<Rightarrow> erasure_params \<Rightarrow> fault + bytes list" where
  "passthrough_encode data p =
     (if ep_k p \<noteq> 1
      then Inl (Fail (Backend (''passthrough coder supports k=1 only (got k='' @
             show_nat (unat (ep_k p)) @ ''); use the Reed-Solomon adapter'')))
      else Inr (map (\<lambda>_. data) [0..<max (unat (ep_n p)) 1]))"

definition passthrough_decode ::
  "bytes option list \<Rightarrow> erasure_params \<Rightarrow> nat \<Rightarrow> port_error + bytes" where
  "passthrough_decode slots p data_len =
     (if ep_k p \<noteq> 1 then Inl (Backend ''passthrough coder supports k=1 only'')
      else case find_present slots of
        None \<Rightarrow> Inl (Unavailable ''no shards present'')
      | Some bs \<Rightarrow>
          if length bs < data_len
          then Inl (Integrity (''shard too short: '' @ show_nat (length bs) @ '' < '' @ show_nat data_len))
          else Inr (take data_len bs))"

definition passthrough_coder :: erasure_coder where
  "passthrough_coder = \<lparr>ec_encode = passthrough_encode, ec_decode = passthrough_decode\<rparr>"

section \<open>Reed-Solomon coder (adapter-reed-solomon)\<close>

text \<open>The third-party crate: \<^verbatim>\<open>ReedSolomon::new\<close>, \<^verbatim>\<open>encode\<close>, \<^verbatim>\<open>reconstruct\<close>; errors by their text.\<close>

record rs_crate =
  rs_new :: "nat \<Rightarrow> nat \<Rightarrow> string + unit"
  rs_encode :: "nat \<Rightarrow> nat \<Rightarrow> bytes list \<Rightarrow> string + bytes list"
  rs_reconstruct :: "nat \<Rightarrow> nat \<Rightarrow> bytes option list \<Rightarrow> string + bytes option list"

definition rs_err :: "string \<Rightarrow> port_error" where
  "rs_err e = Backend (''reed-solomon: '' @ e)"

definition div_ceil :: "nat \<Rightarrow> nat \<Rightarrow> nat" where
  "div_ceil a b = (if a mod b = 0 then a div b else a div b + 1)"

definition data_shard :: "bytes \<Rightarrow> nat \<Rightarrow> nat \<Rightarrow> bytes" where
  "data_shard data shard_size i =
     (let start = i * shard_size in
      if start < length data
      then (let stop = min (start + shard_size) (length data)
            in take (stop - start) (drop start data) @ replicate (shard_size - (stop - start)) 0)
      else replicate shard_size 0)"

definition rs_coder_encode :: "rs_crate \<Rightarrow> bytes \<Rightarrow> erasure_params \<Rightarrow> fault + bytes list" where
  "rs_coder_encode c data p =
     (let k = unat (ep_k p); n = unat (ep_n p) in
      if k = 0 then Inl Panic \<comment> \<open>\<^verbatim>\<open>div_ceil(0)\<close> divides by zero\<close>
      else let shard_size = max (div_ceil (length data) k) 1;
               shards = map (data_shard data shard_size) [0..<k] @
                        map (\<lambda>_. replicate shard_size 0) [k..<n]
           in if k < n
              then (case rs_new c k (n - k) of
                  Inl e \<Rightarrow> Inl (Fail (rs_err e))
                | Inr _ \<Rightarrow> (case rs_encode c k (n - k) shards of
                      Inl e \<Rightarrow> Inl (Fail (rs_err e))
                    | Inr coded \<Rightarrow> Inr coded))
              else Inr shards)"

fun join_slots :: "bytes option list \<Rightarrow> port_error + bytes" where
  "join_slots [] = Inr []"
| "join_slots (None # ss) = Inl (Unavailable ''missing data shard'')"
| "join_slots (Some s # ss) = (case join_slots ss of Inl e \<Rightarrow> Inl e | Inr rest \<Rightarrow> Inr (s @ rest))"

definition rs_coder_decode ::
  "rs_crate \<Rightarrow> bytes option list \<Rightarrow> erasure_params \<Rightarrow> nat \<Rightarrow> port_error + bytes" where
  "rs_coder_decode c slots p data_len =
     (let k = unat (ep_k p); n = unat (ep_n p); present = survivors slots in
      if length slots \<noteq> n
      then Inl (Backend (''expected '' @ show_nat n @ '' shard slots, got '' @ show_nat (length slots)))
      else if find_present slots = None then Inl (Unavailable ''no shards present'')
      else if present < k
      then Inl (Unavailable (''only '' @ show_nat present @ '' of '' @ show_nat n @
             '' shards available (need k='' @ show_nat k @ '')''))
      else case (if k < n
                 then (case rs_new c k (n - k) of
                     Inl e \<Rightarrow> Inl (rs_err e)
                   | Inr _ \<Rightarrow> (case rs_reconstruct c k (n - k) slots of
                         Inl e \<Rightarrow> Inl (rs_err e) | Inr full \<Rightarrow> Inr full))
                 else Inr slots) of
          Inl e \<Rightarrow> Inl e
        | Inr full \<Rightarrow> (case join_slots (take k full) of
              Inl e \<Rightarrow> Inl e | Inr out \<Rightarrow> Inr (take data_len out)))"

definition reed_solomon_coder :: "rs_crate \<Rightarrow> erasure_coder" where
  "reed_solomon_coder c = \<lparr>ec_encode = rs_coder_encode c, ec_decode = rs_coder_decode c\<rparr>"

section \<open>Both adapters are erasure coders\<close>

definition passthrough_supported :: "erasure_params \<Rightarrow> bool" where
  "passthrough_supported p \<longleftrightarrow> ep_k p = 1 \<and> valid_erasure p"

lemma passthrough_encode_supported:
  assumes "passthrough_supported p"
  shows "passthrough_encode d p = Inr (replicate (unat (ep_n p)) d)"
proof -
  have "max (unat (ep_n p)) 1 = unat (ep_n p)"
    using assms by (auto simp: passthrough_supported_def valid_erasure_def)
  with assms show ?thesis
    by (simp add: passthrough_encode_def passthrough_supported_def map_replicate_const)
qed

interpretation pass: erasure_laws passthrough_coder passthrough_supported
proof (unfold_locales, goal_cases)
  case (4 p d shards slots)
  then have shards: "shards = replicate (unat (ep_n p)) d" and k: "ep_k p = 1"
    by (simp_all add: passthrough_coder_def passthrough_encode_supported passthrough_supported_def)
  from 4(4) k obtain x where "find_present slots = Some x"
    by (cases "find_present slots") (auto simp: find_present_None)
  moreover from this have "x = d"
    using slots_of_mem [OF 4(3)] shards find_present_Some by fastforce
  ultimately show ?case
    by (simp add: passthrough_coder_def passthrough_decode_def k)
qed (auto simp: passthrough_supported_def passthrough_coder_def passthrough_encode_supported)

text \<open>
  What the crate's documentation promises for \<open>k\<close> data and \<open>m\<close> parity shards: the coder can be
  built; encoding equally sized, non-empty shards keeps the data shards and their size; and from
  any \<open>k\<close> of the coded shards, \<open>reconstruct\<close> fills in all the others.
\<close>

definition rs_contract :: "rs_crate \<Rightarrow> nat \<Rightarrow> nat \<Rightarrow> bool" where
  "rs_contract c k m \<longleftrightarrow> rs_new c k m = Inr () \<and>
     (\<forall>shards sz. length shards = k + m \<and> 0 < sz \<and> (\<forall>s\<in>set shards. length s = sz) \<longrightarrow>
        (\<exists>coded. rs_encode c k m shards = Inr coded \<and> length coded = k + m \<and>
           take k coded = take k shards \<and> (\<forall>s\<in>set coded. length s = sz) \<and>
           (\<forall>slots. slots_of coded slots \<and> k \<le> survivors slots \<longrightarrow>
              rs_reconstruct c k m slots = Inr (map Some coded))))"

definition rs_supported :: "rs_crate \<Rightarrow> erasure_params \<Rightarrow> bool" where
  "rs_supported c p \<longleftrightarrow> valid_erasure p \<and>
     (unat (ep_k p) < unat (ep_n p) \<longrightarrow> rs_contract c (unat (ep_k p)) (unat (ep_n p) - unat (ep_k p)))"

lemma div_ceil_covers: "0 < k \<Longrightarrow> a \<le> k * div_ceil a k"
proof (cases "a mod k = 0")
  case False
  assume "0 < k"
  then have "a mod k < k" by simp
  then have "a \<le> k * (a div k) + k"
    using mult_div_mod_eq [of k a] by linarith
  with False show ?thesis by (simp add: div_ceil_def add.commute)
qed (auto simp: div_ceil_def)

lemma data_shard_eq:
  "data_shard d sz i = take sz (drop (i * sz) d) @ replicate (sz - (length d - i * sz)) 0"
proof (cases "i * sz < length d")
  case True
  have "min (i * sz + sz) (length d) - i * sz = min sz (length d - i * sz)" by auto
  with True show ?thesis
    by (simp add: data_shard_def Let_def min_def)
qed (simp add: data_shard_def Let_def)

lemma length_data_shard [simp]: "length (data_shard d sz i) = sz"
  by (simp add: data_shard_eq)

lemma concat_data_shards:
  "concat (map (data_shard d sz) [0..<k]) = take (k * sz) d @ replicate (k * sz - length d) 0"
proof (induction k)
  case (Suc k)
  show ?case
  proof (cases "k * sz \<le> length d")
    case True
    have "take (Suc k * sz) d = take (k * sz) d @ take sz (drop (k * sz) d)"
      by (metis add.commute mult_Suc take_add)
    with True Suc show ?thesis by (simp add: data_shard_eq)
  next
    case False
    then have "replicate (k * sz - length d + sz) (0 :: byte) = replicate (sz + k * sz - length d) 0"
      by (simp add: add.commute)
    with False show ?thesis
      using Suc by (simp add: data_shard_eq flip: replicate_add)
  qed
qed simp

lemma join_slots_Some [simp]: "join_slots (map Some xs) = Inr (concat xs)"
  by (induction xs) auto

text \<open>The padded data shards and empty parity shards handed to the crate.\<close>

definition split_shards :: "bytes \<Rightarrow> nat \<Rightarrow> nat \<Rightarrow> bytes list" where
  "split_shards data k n = (let sz = max (div_ceil (length data) k) 1
     in map (data_shard data sz) [0..<k] @ map (\<lambda>_. replicate sz 0) [k..<n])"

lemma split_shards_facts:
  assumes "1 \<le> k" and "k \<le> n"
  shows "length (split_shards d k n) = k + (n - k)"
    and "\<exists>sz. 0 < sz \<and> (\<forall>s\<in>set (split_shards d k n). length s = sz)"
    and "take (length d) (concat (take k (split_shards d k n))) = d"
proof -
  let ?sz = "max (div_ceil (length d) k) 1"
  show "length (split_shards d k n) = k + (n - k)"
    by (simp add: split_shards_def Let_def)
  show "\<exists>sz. 0 < sz \<and> (\<forall>s\<in>set (split_shards d k n). length s = sz)"
    by (rule exI [of _ ?sz]) (auto simp: split_shards_def Let_def)
  have "length d \<le> k * ?sz"
    using div_ceil_covers [of k "length d"] assms(1)
    by (metis le_trans less_le_trans less_numeral_extra(1) max.cobounded1 mult_le_mono2)
  then show "take (length d) (concat (take k (split_shards d k n))) = d"
    by (simp add: split_shards_def Let_def concat_data_shards)
qed

lemma rs_coder_encode_eq:
  "rs_coder_encode c d p =
     (let k = unat (ep_k p); n = unat (ep_n p) in
      if k = 0 then Inl Panic
      else if k < n then (case rs_new c k (n - k) of Inl e \<Rightarrow> Inl (Fail (rs_err e))
        | Inr _ \<Rightarrow> (case rs_encode c k (n - k) (split_shards d k n) of
             Inl e \<Rightarrow> Inl (Fail (rs_err e)) | Inr coded \<Rightarrow> Inr coded))
      else Inr (split_shards d k n))"
  unfolding rs_coder_encode_def split_shards_def Let_def by (rule refl)

text \<open>
  The encoder's result on supported parameters: its first \<open>k\<close> shards joined and cut give back the
  payload, and any \<open>k\<close> shards give back all of them.
\<close>

definition rs_codes :: "rs_crate \<Rightarrow> erasure_params \<Rightarrow> bytes \<Rightarrow> bytes list \<Rightarrow> bool" where
  "rs_codes c p d coded \<longleftrightarrow> (let k = unat (ep_k p); n = unat (ep_n p) in
     length coded = n \<and> take (length d) (concat (take k coded)) = d \<and>
     (k < n \<longrightarrow> rs_new c k (n - k) = Inr () \<and>
        (\<forall>slots. slots_of coded slots \<and> k \<le> survivors slots \<longrightarrow>
           rs_reconstruct c k (n - k) slots = Inr (map Some coded))))"

lemma rs_encode_supported:
  assumes "rs_supported c p"
  shows "\<exists>coded. rs_coder_encode c d p = Inr coded \<and> rs_codes c p d coded"
proof -
  let ?k = "unat (ep_k p)" and ?n = "unat (ep_n p)"
  have kn: "1 \<le> ?k" "?k \<le> ?n" using assms by (simp_all add: rs_supported_def valid_erasure_def)
  note facts = split_shards_facts [OF kn, of d]
  show ?thesis
  proof (cases "?k < ?n")
    case True
    then have contract: "rs_contract c ?k (?n - ?k)" using assms by (simp add: rs_supported_def)
    then have new: "rs_new c ?k (?n - ?k) = Inr ()" by (simp add: rs_contract_def)
    obtain sz where "0 < sz" "\<forall>s\<in>set (split_shards d ?k ?n). length s = sz" using facts(2) by blast
    with contract facts(1) obtain coded where enc: "rs_encode c ?k (?n - ?k) (split_shards d ?k ?n) = Inr coded"
      and len: "length coded = ?k + (?n - ?k)" and tk: "take ?k coded = take ?k (split_shards d ?k ?n)"
      and rec: "\<forall>slots. slots_of coded slots \<and> ?k \<le> survivors slots \<longrightarrow>
        rs_reconstruct c ?k (?n - ?k) slots = Inr (map Some coded)"
      unfolding rs_contract_def by blast
    have "rs_coder_encode c d p = Inr coded"
      using True enc new kn by (simp add: rs_coder_encode_eq Let_def)
    moreover have "rs_codes c p d coded"
      unfolding rs_codes_def Let_def tk using facts(3) new rec len kn by simp
    ultimately show ?thesis by blast
  next
    case False
    then have "rs_coder_encode c d p = Inr (split_shards d ?k ?n)"
      using kn by (simp add: rs_coder_encode_eq Let_def)
    moreover have "rs_codes c p d (split_shards d ?k ?n)"
      unfolding rs_codes_def Let_def using facts(1,3) False kn by simp
    ultimately show ?thesis by blast
  qed
qed

lemma rs_encode_codes:
  "rs_supported c p \<Longrightarrow> rs_coder_encode c d p = Inr shards \<Longrightarrow> rs_codes c p d shards"
  using rs_encode_supported [of c p d] by auto

lemma rs_decode_any_k:
  assumes sup: "rs_supported c p" and codes: "rs_codes c p d shards" and slots: "slots_of shards slots"
    and enough: "unat (ep_k p) \<le> survivors slots"
  shows "rs_coder_decode c slots p (length d) = Inr d"
proof -
  let ?k = "unat (ep_k p)" and ?n = "unat (ep_n p)"
  have kn: "1 \<le> ?k" "?k \<le> ?n" using sup by (simp_all add: rs_supported_def valid_erasure_def)
  have len: "length slots = ?n" and join: "take (length d) (concat (take ?k shards)) = d"
    using codes slots by (simp_all add: rs_codes_def Let_def slots_of_length)
  have some: "find_present slots \<noteq> None" using enough kn by (simp add: find_present_None)
  show ?thesis
  proof (cases "?k < ?n")
    case True
    then have "rs_new c ?k (?n - ?k) = Inr ()"
      and "rs_reconstruct c ?k (?n - ?k) slots = Inr (map Some shards)"
      using codes slots enough by (simp_all add: rs_codes_def Let_def)
    with True len some enough join show ?thesis
      by (simp add: rs_coder_decode_def Let_def take_map)
  next
    case False
    then have "slots = map Some shards"
      using slots enough kn len survivors_le [of slots] by (intro survivors_full) auto
    with False len some enough join show ?thesis
      by (simp add: rs_coder_decode_def Let_def take_map)
  qed
qed

lemma rs_codes_length: "rs_codes c p d shards \<Longrightarrow> length shards = unat (ep_n p)"
  by (simp add: rs_codes_def Let_def)

lemma rs_supported_valid: "rs_supported c p \<Longrightarrow> valid_erasure p"
  by (simp add: rs_supported_def)

interpretation rs: erasure_laws "reed_solomon_coder c" "rs_supported c" for c
  by unfold_locales
    (auto simp: reed_solomon_coder_def
      dest: rs_encode_supported rs_encode_codes rs_codes_length rs_supported_valid intro: rs_decode_any_k)

section \<open>Properties of the Reed-Solomon adapter\<close>

text \<open>A crate for one parity shard over two data shards, to show that \<open>rs_contract\<close> can hold.\<close>

definition xor_bytes :: "bytes \<Rightarrow> bytes \<Rightarrow> bytes" where
  "xor_bytes a b = map2 (\<lambda>x y. xor x y) a b"

fun xor_fill :: "bytes option list \<Rightarrow> string + bytes option list" where
  "xor_fill [Some a, Some b, _] = Inr [Some a, Some b, Some (xor_bytes a b)]"
| "xor_fill [Some a, None, Some q] = Inr [Some a, Some (xor_bytes a q), Some q]"
| "xor_fill [None, Some b, Some q] = Inr [Some (xor_bytes b q), Some b, Some q]"
| "xor_fill _ = Inl ''too few shards''"

definition xor_crate :: rs_crate where
  "xor_crate = \<lparr>rs_new = (\<lambda>k m. if k = 2 \<and> m = 1 then Inr () else Inl ''unsupported''),
     rs_encode = (\<lambda>k m shards. Inr [shards ! 0, shards ! 1, xor_bytes (shards ! 0) (shards ! 1)]),
     rs_reconstruct = (\<lambda>k m slots. xor_fill slots)\<rparr>"

lemma xor_bytes_cancel: "length a = length b \<Longrightarrow> xor_bytes a (xor_bytes a b) = b"
  by (induction a b rule: list_induct2) (auto simp: xor_bytes_def bit_eq_iff bit_xor_iff)

lemma xor_bytes_commute: "length a = length b \<Longrightarrow> xor_bytes a b = xor_bytes b a"
  by (induction a b rule: list_induct2) (auto simp: xor_bytes_def xor.commute)

lemma length_xor_bytes: "length (xor_bytes a b) = min (length a) (length b)"
  by (simp add: xor_bytes_def)

lemma xor_fill_any_two:
  assumes "length a = length b" and "slots_of [a, b, xor_bytes a b] slots" and "2 \<le> survivors slots"
  shows "xor_fill slots = Inr (map Some [a, b, xor_bytes a b])"
proof -
  obtain x y z where "slots = [x, y, z]"
    using slots_of_length [OF assms(2)] by (auto simp: length_Suc_conv eval_nat_numeral)
  then show ?thesis
    using assms xor_bytes_cancel [of a b] xor_bytes_cancel [of b a] xor_bytes_commute [of a b]
    by (cases x; cases y; cases z) (auto simp: slots_of_def)
qed

lemma xor_crate_contract: "rs_contract xor_crate 2 1"
proof -
  have coding: "\<exists>coded. rs_encode xor_crate 2 1 shards = Inr coded \<and> length coded = 2 + 1 \<and>
      take 2 coded = take 2 shards \<and> (\<forall>s\<in>set coded. length s = sz) \<and>
      (\<forall>slots. slots_of coded slots \<and> 2 \<le> survivors slots \<longrightarrow>
         rs_reconstruct xor_crate 2 1 slots = Inr (map Some coded))"
    if len: "length shards = 2 + 1" and sz: "\<forall>s\<in>set shards. length s = sz" for shards sz
  proof -
    obtain a b q where "shards = [a, b, q]"
      using len by (auto simp: length_Suc_conv eval_nat_numeral)
    then show ?thesis
      using sz xor_fill_any_two [of a b] by (simp add: xor_crate_def length_xor_bytes)
  qed
  have "rs_new xor_crate 2 1 = Inr ()" by (simp add: xor_crate_def)
  with coding show ?thesis unfolding rs_contract_def by blast
qed

text \<open>
  C18. Any \<open>k\<close> of \<open>n\<close>: whatever shards of an encoded payload are lost, as long as \<open>k\<close> of them are
  left in their slots, decoding returns the payload byte for byte.  \<open>rs_supported\<close> asks for valid
  parameters and, where parity shards are used, for the documented promise of the crate.
\<close>

theorem reed_solomon_restores_any_k:
  assumes "rs_supported c p" and "rs_coder_encode c data p = Inr shards"
    and "slots_of shards slots" and "unat (ep_k p) \<le> survivors slots"
  shows "rs_coder_decode c slots p (length data) = Inr data"
  using rs.decode_any_k [of c p data shards slots] assms by (simp add: reed_solomon_coder_def)

theorem reed_solomon_restores_any_k_witness:
  "rs_supported xor_crate \<lparr>ep_k = 2, ep_n = 3\<rparr>
   \<and> rs_coder_encode xor_crate [1, 2, 3] \<lparr>ep_k = 2, ep_n = 3\<rparr> = Inr [[1, 2], [3, 0], [2, 2]]
   \<and> rs_coder_decode xor_crate [None, Some [3, 0], Some [2, 2]] \<lparr>ep_k = 2, ep_n = 3\<rparr> 3 = Inr [1, 2, 3]"
proof -
  have sup: "rs_supported xor_crate \<lparr>ep_k = 2, ep_n = 3\<rparr>"
    using xor_crate_contract by (simp add: rs_supported_def valid_erasure_def)
  have enc: "rs_coder_encode xor_crate [1, 2, 3] \<lparr>ep_k = 2, ep_n = 3\<rparr> = Inr [[1, 2], [3, 0], [2, 2]]"
    by code_simp
  from reed_solomon_restores_any_k [OF sup enc, of "[None, Some [3, 0], Some [2, 2]]"] sup enc
  show ?thesis by (simp add: slots_of_def eval_nat_numeral)
qed

text \<open>Parameters that skip validation: with \<open>k > n\<close> the encoder succeeds and returns \<open>k\<close> shards.\<close>

lemma unvalidated_encodes:
  assumes "unat (ep_n p) < unat (ep_k p)"
  shows "\<exists>shs. rs_coder_encode c d p = Inr shs \<and> length shs = unat (ep_k p)"
proof -
  have "rs_coder_encode c d p = Inr (split_shards d (unat (ep_k p)) (unat (ep_n p)))" using assms by (simp add: rs_coder_encode_eq Let_def)
  moreover have "length (split_shards d (unat (ep_k p)) (unat (ep_n p))) = unat (ep_k p)" using assms by (simp add: split_shards_def Let_def)
  ultimately show ?thesis by blast
qed

lemma rs_encode_zero_panics: "ep_k p = 0 \<Longrightarrow> rs_coder_encode c data p = Inl Panic"
  by (simp add: rs_coder_encode_eq Let_def)

end
