(* ===== verification/Data_Plane.thy ===== *)
theory Data_Plane
  imports Control_Plane Erasure_Coders
begin

text \<open>
  The data-plane use-cases of \<^verbatim>\<open>crates/vault-app\<close>: \<^verbatim>\<open>put_backup.rs\<close>, \<^verbatim>\<open>get_backup.rs\<close>,
  \<^verbatim>\<open>list_backups.rs\<close> and \<^verbatim>\<open>delete_backup.rs\<close>.  Each struct of ports is a record; each
  \<^verbatim>\<open>execute\<close> is one action.  Loops over shards and peers are recursion over the list.
\<close>

section \<open>Storing a blob (put\_backup.rs)\<close>

record 'w mesh =
  me_transport :: "'w shard_transport option"
  me_peers :: "string list"
  me_placement :: placement_policy

definition mesh_default :: "'w mesh" where
  "mesh_default = \<lparr>me_transport = None, me_peers = [],
     me_placement = \<lparr>pp_locality_hint = None, pp_prefer_peers = False\<rparr>\<rparr>"

record 'w put_backup =
  pb_metadata :: "'w metadata_store"
  pb_anchor :: "'w blob_anchor"
  pb_erasure :: erasure_coder
  pb_crypto :: "'w cryptographer"
  pb_verifier :: auth_verifier
  pb_ids :: "'w id_source"
  pb_clock :: "'w clock"
  pb_mesh :: "'w mesh"

definition put_backup_new ::
  "'w metadata_store \<Rightarrow> 'w blob_anchor \<Rightarrow> erasure_coder \<Rightarrow> 'w cryptographer \<Rightarrow> auth_verifier
   \<Rightarrow> 'w id_source \<Rightarrow> 'w clock \<Rightarrow> 'w put_backup" where
  "put_backup_new ms ba ec cr v ids ck =
     \<lparr>pb_metadata = ms, pb_anchor = ba, pb_erasure = ec, pb_crypto = cr, pb_verifier = v,
      pb_ids = ids, pb_clock = ck, pb_mesh = mesh_default\<rparr>"

definition put_with_mesh ::
  "'w put_backup \<Rightarrow> 'w shard_transport \<Rightarrow> string list \<Rightarrow> placement_policy \<Rightarrow> 'w put_backup" where
  "put_with_mesh pb tr peers pol =
     pb\<lparr>pb_mesh := \<lparr>me_transport = Some tr, me_peers = peers, me_placement = pol\<rparr>\<rparr>"

fun send_to_peers ::
  "'w shard_transport \<Rightarrow> shard_ref \<Rightarrow> bytes \<Rightarrow> string list \<Rightarrow> 'w \<Rightarrow> string list \<times> 'w" where
  "send_to_peers tr at bs [] w = ([], w)"
| "send_to_peers tr at bs (peer # peers) w =
     (case st_send_shard tr peer at bs w of
        (Inr _, w') \<Rightarrow> (case send_to_peers tr at bs peers w' of (placed, w'') \<Rightarrow> (peer # placed, w''))
      | (Inl _, w') \<Rightarrow> send_to_peers tr at bs peers w')"

definition put_replicate :: "'w put_backup \<Rightarrow> shard_ref \<Rightarrow> bytes \<Rightarrow> 'w \<Rightarrow> string list \<times> 'w" where
  "put_replicate pb at bs w =
     (if \<not> pp_prefer_peers (me_placement (pb_mesh pb)) then ([], w)
      else case me_transport (pb_mesh pb) of
        None \<Rightarrow> ([], w)
      | Some tr \<Rightarrow> send_to_peers tr at bs (me_peers (pb_mesh pb)) w)"

fun put_shards ::
  "'w put_backup \<Rightarrow> namespace_id \<Rightarrow> blob_id \<Rightarrow> nat \<Rightarrow> bytes list \<Rightarrow> ('w, shard list) io" where
  "put_shards pb ns blob i [] = io_return []"
| "put_shards pb ns blob i (bs # rest) =
     (let index = word_of_nat i; at = shard_ref_new ns blob index in
      io_bind (ba_put_shard (pb_anchor pb) at bs) (\<lambda>_.
      (let meta = shard_new index (cr_sha256_hex (pb_crypto pb) bs) (word_of_nat (length bs)) in
       io_bind (io_read (put_replicate pb at bs)) (\<lambda>placed.
       (let meta = meta\<lparr>sh_locations := sh_locations meta @ map Peer placed\<rparr> in
        io_bind (put_shards pb ns blob (Suc i) rest) (\<lambda>metas. io_return (meta # metas)))))))"

definition put_backup_execute ::
  "'w put_backup \<Rightarrow> namespace_id \<Rightarrow> capability_token \<Rightarrow> bytes \<Rightarrow> ('w, blob_id) unsafe_io" where
  "put_backup_execute pb ns tok ciphertext =
     io_bind (io_map_err Fail (guard_authorize (pb_verifier pb) (pb_metadata pb) (pb_clock pb) ns tok OpPut)) (\<lambda>app.
     io_bind (io_map_err Fail (ms_get_contract (pb_metadata pb) app)) (\<lambda>found.
     io_bind (io_lift (ok_or (Fail NotFound) found)) (\<lambda>contract.
     io_bind (io_map_err Fail (ms_namespace_usage (pb_metadata pb) ns)) (\<lambda>usage.
     if \<not> admits (ac_quota contract) (nu_bytes usage) (nu_objects usage) (word_of_nat (length ciphertext))
     then io_throw (Fail (DomainErr QuotaExceeded))
     else
       io_bind (io_read (is_new_id (pb_ids pb) ''blob'')) (\<lambda>s.
       (let blob = BlobId s in
        io_bind (io_lift (ec_encode (pb_erasure pb) ciphertext (ac_erasure contract))) (\<lambda>shards.
        io_bind (io_map_err Fail (put_shards pb ns blob 0 shards)) (\<lambda>shard_meta.
        io_bind (io_read (ck_now (pb_clock pb))) (\<lambda>now.
        (let m = manifest_new blob ns (ac_erasure contract) shard_meta (word_of_nat (length ciphertext)) now in
         io_bind (io_map_err Fail (ms_put_manifest (pb_metadata pb) m)) (\<lambda>_.
         io_return blob)))))))))))"

section \<open>Restoring a blob (get\_backup.rs)\<close>

record 'w get_backup =
  gb_metadata :: "'w metadata_store"
  gb_anchor :: "'w blob_anchor"
  gb_erasure :: erasure_coder
  gb_crypto :: "'w cryptographer"
  gb_verifier :: auth_verifier
  gb_clock :: "'w clock"
  gb_transport :: "'w shard_transport option"

record restore_outcome =
  ro_ciphertext :: bytes
  ro_shards_total :: nat
  ro_shards_missing :: nat

definition get_backup_new ::
  "'w metadata_store \<Rightarrow> 'w blob_anchor \<Rightarrow> erasure_coder \<Rightarrow> 'w cryptographer \<Rightarrow> auth_verifier
   \<Rightarrow> 'w clock \<Rightarrow> 'w get_backup" where
  "get_backup_new ms ba ec cr v ck =
     \<lparr>gb_metadata = ms, gb_anchor = ba, gb_erasure = ec, gb_crypto = cr, gb_verifier = v,
      gb_clock = ck, gb_transport = None\<rparr>"

definition get_with_mesh :: "'w get_backup \<Rightarrow> 'w shard_transport \<Rightarrow> 'w get_backup" where
  "get_with_mesh gb tr = gb\<lparr>gb_transport := Some tr\<rparr>"

text \<open>The loop over a shard's peer locations: the first copy whose hash matches.\<close>

fun load_from_peers ::
  "'w shard_transport \<Rightarrow> (bytes \<Rightarrow> string) \<Rightarrow> shard_ref \<Rightarrow> string \<Rightarrow> shard_location list
   \<Rightarrow> 'w \<Rightarrow> bytes option \<times> 'w" where
  "load_from_peers tr hash at h [] w = (None, w)"
| "load_from_peers tr hash at h (Anchor # ls) w = load_from_peers tr hash at h ls w"
| "load_from_peers tr hash at h (Peer peer # ls) w =
     (case st_fetch_shard tr peer at w of
        (Inr bs, w') \<Rightarrow> if hash bs = h then (Some bs, w') else load_from_peers tr hash at h ls w'
      | (Inl _, w') \<Rightarrow> load_from_peers tr hash at h ls w')"

definition load_shard :: "'w get_backup \<Rightarrow> shard_ref \<Rightarrow> shard \<Rightarrow> 'w \<Rightarrow> bytes option \<times> 'w" where
  "load_shard gb at sh w =
     (case (case gb_transport gb of
              None \<Rightarrow> (None, w)
            | Some tr \<Rightarrow> load_from_peers tr (cr_sha256_hex (gb_crypto gb)) at (sh_sha256 sh) (sh_locations sh) w) of
        (Some bs, w') \<Rightarrow> (Some bs, w')
      | (None, w') \<Rightarrow>
          (case ba_get_shard (gb_anchor gb) at w' of
             (Inr bs, w'') \<Rightarrow> (if cr_sha256_hex (gb_crypto gb) bs = sh_sha256 sh then Some bs else None, w'')
           | (Inl _, w'') \<Rightarrow> (None, w'')))"

fun collect_shards ::
  "'w get_backup \<Rightarrow> namespace_id \<Rightarrow> blob_id \<Rightarrow> shard list \<Rightarrow> 'w \<Rightarrow> bytes option list \<times> 'w" where
  "collect_shards gb ns blob [] w = ([], w)"
| "collect_shards gb ns blob (sh # shs) w =
     (case load_shard gb (shard_ref_new ns blob (sh_index sh)) sh w of (slot, w') \<Rightarrow>
      case collect_shards gb ns blob shs w' of (slots, w'') \<Rightarrow> (slot # slots, w''))"

definition get_backup_restore ::
  "'w get_backup \<Rightarrow> namespace_id \<Rightarrow> capability_token \<Rightarrow> blob_id \<Rightarrow> ('w, restore_outcome) io" where
  "get_backup_restore gb ns tok blob =
     io_bind (guard_authorize (gb_verifier gb) (gb_metadata gb) (gb_clock gb) ns tok OpGet) (\<lambda>_.
     io_bind (ms_get_manifest (gb_metadata gb) ns blob) (\<lambda>found.
     io_bind (io_lift (ok_or NotFound found)) (\<lambda>m.
     io_bind (io_read (collect_shards gb ns blob (mf_shards m))) (\<lambda>collected.
     (let available = survivors collected; total = length (mf_shards m) in
      if \<not> is_reconstructable m available
      then io_throw (Unavailable (''only '' @ show_nat available @ '' valid of '' @ show_nat total @
             '' shards (need k='' @ show_nat (unat (ep_k (mf_erasure m))) @ '')''))
      else
        io_bind (io_lift (ec_decode (gb_erasure gb) collected (mf_erasure m) (unat (mf_ciphertext_len m)))) (\<lambda>ciphertext.
        io_return \<lparr>ro_ciphertext = ciphertext, ro_shards_total = total,
          ro_shards_missing = total - available\<rparr>))))))"

definition get_backup_execute ::
  "'w get_backup \<Rightarrow> namespace_id \<Rightarrow> capability_token \<Rightarrow> blob_id \<Rightarrow> ('w, bytes) io" where
  "get_backup_execute gb ns tok blob =
     io_bind (get_backup_restore gb ns tok blob) (\<lambda>out. io_return (ro_ciphertext out))"

section \<open>Listing and deleting (list\_backups.rs, delete\_backup.rs)\<close>

definition list_backups_execute ::
  "'w metadata_store \<Rightarrow> auth_verifier \<Rightarrow> 'w clock \<Rightarrow> namespace_id \<Rightarrow> capability_token \<Rightarrow> ('w, blob_id list) io" where
  "list_backups_execute ms v ck ns tok =
     io_bind (guard_authorize v ms ck ns tok OpList) (\<lambda>_. ms_list_blobs ms ns)"

record 'w delete_backup =
  db_metadata :: "'w metadata_store"
  db_anchor :: "'w blob_anchor"
  db_verifier :: auth_verifier
  db_clock :: "'w clock"

definition check_hold ::
  "'w delete_backup \<Rightarrow> retention_policy \<Rightarrow> namespace_id \<Rightarrow> blob_id \<Rightarrow> ('w, unit) io" where
  "check_hold db ret ns blob =
     (if 0 < rp_min_days ret
      then io_bind (ms_get_manifest (db_metadata db) ns blob) (\<lambda>found.
           io_bind (io_lift (ok_or NotFound found)) (\<lambda>m.
           io_bind (io_read (ck_now (db_clock db))) (\<lambda>now.
           if \<not> hold_elapsed ret (mf_created_at m) now
           then io_throw (DomainErr (RetentionHold (rp_min_days ret)))
           else io_return ())))
      else io_return ())"

definition delete_backup_execute ::
  "'w delete_backup \<Rightarrow> namespace_id \<Rightarrow> capability_token \<Rightarrow> blob_id \<Rightarrow> ('w, unit) io" where
  "delete_backup_execute db ns tok blob =
     io_bind (guard_authorize (db_verifier db) (db_metadata db) (db_clock db) ns tok OpDelete) (\<lambda>app.
     io_bind (ms_get_contract (db_metadata db) app) (\<lambda>found.
     io_bind (io_lift (ok_or NotFound found)) (\<lambda>contract.
     io_bind (check_hold db (ac_retention contract) ns blob) (\<lambda>_.
     io_bind (ba_delete_blob (db_anchor db) ns blob) (\<lambda>_.
     ms_delete_manifest (db_metadata db) ns blob)))))"


section \<open>What a put writes\<close>

text \<open>The anchor after shards \<open>shs\<close> of one blob are written from index \<open>i\<close> on.\<close>

definition store_shards ::
  "namespace_id \<Rightarrow> blob_id \<Rightarrow> nat \<Rightarrow> bytes list \<Rightarrow> (shard_ref \<rightharpoonup> bytes) \<Rightarrow> (shard_ref \<rightharpoonup> bytes)" where
  "store_shards ns b i shs a = (\<lambda>r.
     if sr_namespace r = ns \<and> sr_blob_id r = b \<and> i \<le> unat (sr_index r) \<and> unat (sr_index r) < i + length shs
     then Some (shs ! (unat (sr_index r) - i)) else a r)"

text \<open>Shard metadata that describes shards \<open>shs\<close> from index \<open>i\<close> on.\<close>

fun describes :: "(bytes \<Rightarrow> string) \<Rightarrow> nat \<Rightarrow> bytes list \<Rightarrow> shard list \<Rightarrow> bool" where
  "describes hash i [] metas \<longleftrightarrow> metas = []"
| "describes hash i (s # shs) metas \<longleftrightarrow>
     (case metas of [] \<Rightarrow> False
      | m # ms \<Rightarrow> sh_index m = word_of_nat i \<and> sh_sha256 m = hash s \<and>
          sh_size m = word_of_nat (length s) \<and> Anchor \<in> set (sh_locations m) \<and>
          describes hash (Suc i) shs ms)"

lemma describes_Cons: "describes hash i (s # shs) metas \<longleftrightarrow> (\<exists>m ms. metas = m # ms \<and>
    sh_index m = word_of_nat i \<and> sh_sha256 m = hash s \<and> sh_size m = word_of_nat (length s) \<and>
    Anchor \<in> set (sh_locations m) \<and> describes hash (Suc i) shs ms)"
  by (cases metas) auto

declare describes.simps(2) [simp del]

lemma describes_length: "describes hash i shs metas \<Longrightarrow> length metas = length shs"
  by (induction hash i shs metas rule: describes.induct) (auto simp: describes_Cons)

lemma describes_nth:
  assumes "describes hash i shs metas" and "j < length shs"
  shows "sh_index (metas ! j) = word_of_nat (i + j) \<and> sh_sha256 (metas ! j) = hash (shs ! j)"
  using assms
proof (induction shs arbitrary: i j metas)
  case (Cons s shs)
  then show ?case by (cases j) (fastforce simp: describes_Cons)+
qed simp

lemma store_shards_Nil [simp]: "store_shards ns b i [] a = a"
  unfolding store_shards_def by (rule ext) auto

lemma store_shards_Cons:
  assumes "i < 2 ^ 16"
  shows "store_shards ns b (Suc i) shs (a(shard_ref_new ns b (word_of_nat i) \<mapsto> s)) =
    store_shards ns b i (s # shs) a"
proof
  fix r :: shard_ref
  have i: "unat (word_of_nat i :: u16) = i" using assms by (simp add: unat_of_nat_small)
  show "store_shards ns b (Suc i) shs (a(shard_ref_new ns b (word_of_nat i) \<mapsto> s)) r =
    store_shards ns b i (s # shs) a r"
  proof (cases "unat (sr_index r) = i")
    case True
    then have "sr_index r = word_of_nat i" using i by (metis unsigned_word_eqI)
    then show ?thesis using i by (cases r) (auto simp: store_shards_def shard_ref_new_def)
  next
    case False
    then have "unat (sr_index r) - i = Suc (unat (sr_index r) - Suc i)" if "i \<le> unat (sr_index r)"
      using that by simp
    with False i show ?thesis
      by (auto simp: store_shards_def shard_ref_new_def)
  qed
qed

lemma store_shards_at: "j < length shs \<Longrightarrow> length shs \<le> 2 ^ 16 \<Longrightarrow>
  store_shards ns b 0 shs a (shard_ref_new ns b (word_of_nat j)) = Some (shs ! j)"
  by (simp add: store_shards_def shard_ref_new_def unat_of_nat_small)

text \<open>The records of the use-cases wired to the ports of a deployment.\<close>

definition put_uses ::
  "'w metadata_store \<Rightarrow> 'w blob_anchor \<Rightarrow> 'w id_source \<Rightarrow> 'w clock \<Rightarrow> 'w shard_transport \<Rightarrow> 'w put_backup \<Rightarrow> bool" where
  "put_uses ms ba ids ck tr pb \<longleftrightarrow> pb_metadata pb = ms \<and> pb_anchor pb = ba \<and> pb_ids pb = ids \<and>
     pb_clock pb = ck \<and> (\<forall>t. me_transport (pb_mesh pb) = Some t \<longrightarrow> t = tr)"

definition get_uses ::
  "'w metadata_store \<Rightarrow> 'w blob_anchor \<Rightarrow> 'w clock \<Rightarrow> 'w shard_transport \<Rightarrow> 'w get_backup \<Rightarrow> bool" where
  "get_uses ms ba ck tr gb \<longleftrightarrow> gb_metadata gb = ms \<and> gb_anchor gb = ba \<and> gb_clock gb = ck \<and>
     (\<forall>t. gb_transport gb = Some t \<longrightarrow> t = tr)"

definition delete_uses ::
  "'w metadata_store \<Rightarrow> 'w blob_anchor \<Rightarrow> 'w clock \<Rightarrow> 'w delete_backup \<Rightarrow> bool" where
  "delete_uses ms ba ck db \<longleftrightarrow> db_metadata db = ms \<and> db_anchor db = ba \<and> db_clock db = ck"

lemma keeps_if [frame_rules]: "(c \<Longrightarrow> keeps v m) \<Longrightarrow> (\<not> c \<Longrightarrow> keeps v n) \<Longrightarrow> keeps v (if c then m else n)"
  by simp

lemma send_to_peers_keeps:
  assumes "\<And>p at x. keeps v (st_send_shard tr p at x)"
  shows "keeps v (send_to_peers tr at bs peers)"
proof (rule keepsI)
  fix w r w'
  assume "send_to_peers tr at bs peers w = (r, w')"
  then show "v w' = v w"
  proof (induction peers arbitrary: w r)
    case (Cons peer peers)
    obtain x w1 where s: "st_send_shard tr peer at bs w = (x, w1)" by force
    obtain placed w2 where rest: "send_to_peers tr at bs peers w1 = (placed, w2)" by force
    then have "w2 = w'" using Cons.prems s by (cases x) simp_all
    with rest have "v w' = v w1" using Cons.IH by simp
    also have "\<dots> = v w" by (rule keepsD [OF assms s])
    finally show ?case .
  qed simp
qed

lemma put_replicate_keeps:
  assumes "\<And>p at x. keeps v (st_send_shard tr p at x)"
    and "\<forall>t. me_transport (pb_mesh pb) = Some t \<longrightarrow> t = tr"
  shows "keeps v (put_replicate pb at bs)"
proof (rule keepsI)
  fix w r w'
  assume "put_replicate pb at bs w = (r, w')"
  then show "v w' = v w"
    using assms keepsD [OF send_to_peers_keeps [of v tr]]
    by (auto simp: put_replicate_def split: if_splits option.splits)
qed

section \<open>What the data plane guarantees over any lawful deployment\<close>

context vault_laws
begin

lemma guard_keeps_anchor: "keeps aview (guard_authorize v ms ck ns tok oper)"
  unfolding guard_authorize_def Let_def by (intro frame_rules)

lemma put_shards_step:
  assumes "put_uses ms ba ids ck tr pb" and "put_shards pb ns b i (s # shs) w = (r, w')"
  obtains (Failed) e where "ba_put_shard ba (shard_ref_new ns b (word_of_nat i)) s w = (Inl e, w')" and "r = Inl e"
  | (Stored) w1 placed w2 r2 where "ba_put_shard ba (shard_ref_new ns b (word_of_nat i)) s w = (Inr (), w1)"
    and "put_replicate pb (shard_ref_new ns b (word_of_nat i)) s w1 = (placed, w2)"
    and "put_shards pb ns b (Suc i) shs w2 = (r2, w')"
    and "r = map_sum id ((#) \<lparr>sh_index = word_of_nat i, sh_sha256 = cr_sha256_hex (pb_crypto pb) s,
           sh_size = word_of_nat (length s), sh_locations = Anchor # map Peer placed\<rparr>) r2"
proof (cases "ba_put_shard ba (shard_ref_new ns b (word_of_nat i)) s w")
  case (Pair x w1)
  obtain placed w2 where rep: "put_replicate pb (shard_ref_new ns b (word_of_nat i)) s w1 = (placed, w2)" by force
  obtain r2 w3 where rest: "put_shards pb ns b (Suc i) shs w2 = (r2, w3)" by force
  show ?thesis
  proof (cases x)
    case (Inl e)
    then show ?thesis
      using Failed Pair assms by (simp add: put_uses_def Let_def io_simps)
  next
    case (Inr u)
    then show ?thesis
      using Stored [of w1 placed w2 r2] Pair assms rep rest
      by (cases r2) (simp_all add: put_uses_def Let_def io_simps shard_new_def)
  qed
qed

lemma put_shards_keeps_meta:
  assumes "put_uses ms ba ids ck tr pb"
  shows "keeps mview (put_shards pb ns b i shs)"
proof -
  have rep: "keeps mview (put_replicate pb at x)" for at x
    using assms peers_keep(1) by (auto simp: put_uses_def intro: put_replicate_keeps)
  have anchor: "pb_anchor pb = ba" using assms by (simp add: put_uses_def)
  show ?thesis
    by (induction shs arbitrary: i) (auto simp: Let_def anchor intro!: frame_rules rep)
qed

lemma put_shards_stored:
  assumes "put_uses ms ba ids ck tr pb" and "plain_id (ns_str ns)" and "plain_id (blob_str b)"
    and "i + length shs \<le> 2 ^ 16" and "put_shards pb ns b i shs w = (Inr metas, w')"
  shows "aview w' = store_shards ns b i shs (aview w) \<and> describes (cr_sha256_hex (pb_crypto pb)) i shs metas"
  using assms(4,5)
proof (induction shs arbitrary: i w metas)
  case Nil
  then show ?case by (simp add: io_return_def)
next
  case (Cons s shs)
  let ?at = "shard_ref_new ns b (word_of_nat i)"
  have plain: "plain_ref ?at" using assms by (simp add: plain_ref_def shard_ref_new_def)
  from assms(1) Cons.prems(2) show ?case
  proof (cases rule: put_shards_step)
    case (Stored w1 placed w2 r2)
    then obtain metas' where r2: "r2 = Inr metas'" by (cases r2) auto
    have "aview w1 = (aview w)(?at \<mapsto> s)" using put_stored [OF plain Stored(1)] .
    moreover have "aview w2 = aview w1"
      using put_replicate_keeps [of aview tr pb] peers_keep(2) assms(1) Stored(2) keepsD
      by (metis put_uses_def)
    moreover have "aview w' = store_shards ns b (Suc i) shs (aview w2) \<and>
        describes (cr_sha256_hex (pb_crypto pb)) (Suc i) shs metas'"
      using Cons.IH [of "Suc i" w2 metas'] Cons.prems(1) Stored(3) r2 by simp
    ultimately show ?thesis
      using Cons.prems(1) Stored(4) r2 by (auto simp: store_shards_Cons describes_Cons)
  qed simp
qed

lemma put_shards_frame:
  assumes "put_uses ms ba ids ck tr pb" and "plain_id (ns_str ns)" and "plain_id (blob_str b)"
    and "put_shards pb ns b i shs w = (r, w')" and other: "sr_namespace q \<noteq> ns \<or> sr_blob_id q \<noteq> b"
  shows "aview w' q = aview w q"
  using assms(4)
proof (induction shs arbitrary: i w r)
  case Nil
  then show ?case by (simp add: io_return_def)
next
  case (Cons s shs)
  let ?at = "shard_ref_new ns b (word_of_nat i)"
  have plain: "plain_ref ?at" and q: "q \<noteq> ?at" using assms by (auto simp: plain_ref_def shard_ref_new_def)
  from assms(1) Cons.prems show ?case
  proof (cases rule: put_shards_step)
    case (Failed e)
    then show ?thesis using put_failed [OF plain Failed(1) q] by simp
  next
    case (Stored w1 placed w2 r2)
    have "aview w2 = aview w1"
      using put_replicate_keeps [of aview tr pb] peers_keep(2) assms(1) Stored(2) keepsD
      by (metis put_uses_def)
    then show ?thesis
      using Cons.IH [OF Stored(3)] put_stored [OF plain Stored(1)] q by simp
  qed
qed

end

section \<open>Inversion of the data-plane actions\<close>

lemma put_backup_Inr:
  assumes "put_backup_execute pb ns tok d w = (Inr b, w')"
  obtains app w1 c w2 u w3 w4 shs metas w5 now w6 where
    "guard_authorize (pb_verifier pb) (pb_metadata pb) (pb_clock pb) ns tok OpPut w = (Inr app, w1)"
    and "ms_get_contract (pb_metadata pb) app w1 = (Inr (Some c), w2)"
    and "ms_namespace_usage (pb_metadata pb) ns w2 = (Inr u, w3)"
    and "admits (ac_quota c) (nu_bytes u) (nu_objects u) (word_of_nat (length d))"
    and "is_new_id (pb_ids pb) ''blob'' w3 = (blob_str b, w4)"
    and "ec_encode (pb_erasure pb) d (ac_erasure c) = Inr shs"
    and "put_shards pb ns b 0 shs w4 = (Inr metas, w5)"
    and "ck_now (pb_clock pb) w5 = (now, w6)"
    and "ms_put_manifest (pb_metadata pb)
      (manifest_new b ns (ac_erasure c) metas (word_of_nat (length d)) now) w6 = (Inr (), w')"
  using assms
  by (auto simp: put_backup_execute_def Let_def io_inv split: if_splits)

lemma get_restore_Inr:
  assumes "get_backup_restore gb ns tok b w = (Inr out, w')"
  obtains app w1 m w2 slots where
    "guard_authorize (gb_verifier gb) (gb_metadata gb) (gb_clock gb) ns tok OpGet w = (Inr app, w1)"
    and "ms_get_manifest (gb_metadata gb) ns b w1 = (Inr (Some m), w2)"
    and "collect_shards gb ns b (mf_shards m) w2 = (slots, w')"
    and "unat (ep_k (mf_erasure m)) \<le> survivors slots"
    and "ec_decode (gb_erasure gb) slots (mf_erasure m) (unat (mf_ciphertext_len m)) = Inr (ro_ciphertext out)"
    and "ro_shards_total out = length (mf_shards m)"
    and "ro_shards_missing out = length (mf_shards m) - survivors slots"
  using assms
  by (auto simp: get_backup_restore_def Let_def io_inv is_reconstructable_def split: if_splits)

lemma delete_backup_Inr:
  assumes "delete_backup_execute db ns tok b w = (Inr (), w')"
  obtains app w1 c w2 w3 w4 where
    "guard_authorize (db_verifier db) (db_metadata db) (db_clock db) ns tok OpDelete w = (Inr app, w1)"
    and "ms_get_contract (db_metadata db) app w1 = (Inr (Some c), w2)"
    and "check_hold db (ac_retention c) ns b w2 = (Inr (), w3)"
    and "ba_delete_blob (db_anchor db) ns b w3 = (Inr (), w4)"
    and "ms_delete_manifest (db_metadata db) ns b w4 = (Inr (), w')"
  using assms by (auto simp: delete_backup_execute_def io_inv)

lemma check_hold_Inr:
  assumes "check_hold db ret ns b w = (Inr (), w')"
  obtains (NoHold) "rp_min_days ret = 0" and "w' = w"
  | (Elapsed) m w1 now where "ms_get_manifest (db_metadata db) ns b w = (Inr (Some m), w1)"
    and "ck_now (db_clock db) w1 = (now, w')" and "hold_elapsed ret (mf_created_at m) now"
  using assms by (auto simp: check_hold_def io_inv word_gt_0 split: if_splits)

section \<open>Putting a blob\<close>

context vault_laws
begin

lemma put_ok:
  assumes "put_uses ms ba ids ck tr pb" and "plain_id (ns_str ns)"
    and "put_backup_execute pb ns tok d w = (Inr b, w')"
  obtains c shs m where "av_verify_signature (pb_verifier pb) tok = Inr ()"
    and "cc_namespace (ct_claims tok) = ns" and "cc_operation (ct_claims tok) = OpPut"
    and "fst (ck_now ck w) < cc_expires_at (ct_claims tok)"
    and "\<exists>n. mv_namespaces (mview w) ns = Some n \<and> nsp_app_id n = cc_app_id (ct_claims tok)"
    and "mv_contracts (mview w) (cc_app_id (ct_claims tok)) = Some c"
    and "admits (ac_quota c) (nu_bytes (usage_of (mview w) ns)) (nu_objects (usage_of (mview w) ns))
      (word_of_nat (length d))"
    and "ec_encode (pb_erasure pb) d (ac_erasure c) = Inr shs"
    and "mf_blob_id m = b" and "mf_namespace m = ns" and "mf_erasure m = ac_erasure c"
    and "mf_ciphertext_len m = word_of_nat (length d)"
    and "mview w' = add_manifest m (mview w)" and "plain_id (blob_str b)"
    and "length shs \<le> 2 ^ 16 \<longrightarrow> aview w' = store_shards ns b 0 shs (aview w) \<and>
      describes (cr_sha256_hex (pb_crypto pb)) 0 shs (mf_shards m)"
proof -
  from assms(3) obtain app w1 c w2 u w3 w4 shs metas w5 now w6 where p:
    "guard_authorize (pb_verifier pb) (pb_metadata pb) (pb_clock pb) ns tok OpPut w = (Inr app, w1)"
    "ms_get_contract (pb_metadata pb) app w1 = (Inr (Some c), w2)"
    "ms_namespace_usage (pb_metadata pb) ns w2 = (Inr u, w3)"
    "admits (ac_quota c) (nu_bytes u) (nu_objects u) (word_of_nat (length d))"
    "is_new_id (pb_ids pb) ''blob'' w3 = (blob_str b, w4)"
    "ec_encode (pb_erasure pb) d (ac_erasure c) = Inr shs"
    "put_shards pb ns b 0 shs w4 = (Inr metas, w5)"
    "ck_now (pb_clock pb) w5 = (now, w6)"
    "ms_put_manifest (pb_metadata pb)
      (manifest_new b ns (ac_erasure c) metas (word_of_nat (length d)) now) w6 = (Inr (), w')"
    by (rule put_backup_Inr)
  let ?m = "manifest_new b ns (ac_erasure c) metas (word_of_nat (length d)) now"
  have us [simp]: "pb_metadata pb = ms" "pb_anchor pb = ba" "pb_ids pb = ids" "pb_clock pb = ck"
    using assms(1) by (simp_all add: put_uses_def)
  note g = guard_grants [OF p(1) [simplified us]]
  have mv: "mview w1 = mview w" "mview w2 = mview w1" "mview w3 = mview w2" "mview w4 = mview w3"
      "mview w5 = mview w4" "mview w6 = mview w5"
    using g keepsD [OF read_keeps(1) p(2) [simplified us]] keepsD [OF read_keeps(3) p(3) [simplified us]]
      keepsD [OF env_keeps_meta(2) p(5) [simplified us]] keepsD [OF put_shards_keeps_meta [OF assms(1)] p(7)]
      keepsD [OF env_keeps_meta(1) p(8) [simplified us]] by simp_all
  have av: "aview w1 = aview w" "aview w2 = aview w1" "aview w3 = aview w2" "aview w4 = aview w3"
      "aview w6 = aview w5" "aview w' = aview w6"
    using keepsD [OF guard_keeps_anchor p(1) [simplified us]] keepsD [OF meta_keeps_anchor(1) p(2) [simplified us]]
      keepsD [OF meta_keeps_anchor(3) p(3) [simplified us]] keepsD [OF env_keeps_anchor(2) p(5) [simplified us]]
      keepsD [OF env_keeps_anchor(1) p(8) [simplified us]] keepsD [OF meta_keeps_anchor(7) p(9) [simplified us]] by simp_all
  have plain: "plain_id (blob_str b)"
    using ids_plain [of "''blob''" w3] p(5) by (simp add: plain_id_def)
  have "mview w' = add_manifest ?m (mview w)"
    using put_manifest [OF p(9) [simplified us]] mv by simp
  moreover have "aview w' = store_shards ns b 0 shs (aview w) \<and>
      describes (cr_sha256_hex (pb_crypto pb)) 0 shs metas" if "length shs \<le> 2 ^ 16"
    using put_shards_stored [OF assms(1,2) plain _ p(7)] that av by simp
  moreover have "mv_contracts (mview w) (cc_app_id (ct_claims tok)) = Some c"
    using get_contract [OF p(2) [simplified us]] mv g by simp
  moreover have "u = usage_of (mview w) ns"
    using namespace_usage [OF p(3) [simplified us]] mv by simp
  ultimately show thesis
    using p(4,6) g plain by (intro that [of c shs ?m]) (auto simp: manifest_new_def)
qed

lemma manifest_new_sel:
  "mf_namespace (manifest_new b ns p shs l t) = ns" "mf_blob_id (manifest_new b ns p shs l t) = b"
  by (simp_all add: manifest_new_def)

lemma keeps_both: "keeps mview m \<Longrightarrow> keeps aview m \<Longrightarrow> m w = (r, w') \<Longrightarrow> mview w' = mview w \<and> aview w' = aview w"
  by (auto dest: keepsD)

lemmas view_steps =
  keeps_both [OF guard_keeps guard_keeps_anchor]
  keeps_both [OF read_keeps(1) meta_keeps_anchor(1)]
  keeps_both [OF read_keeps(3) meta_keeps_anchor(3)]
  keeps_both [OF read_keeps(5) meta_keeps_anchor(5)]
  keeps_both [OF read_keeps(6) meta_keeps_anchor(6)]
  keeps_both [OF env_keeps_meta(1) env_keeps_anchor(1)]

lemma new_blob_step:
  "is_new_id ids ''blob'' w = (s, w') \<Longrightarrow> mview w' = mview w \<and> aview w' = aview w \<and> plain_id s"
  using keeps_both [OF env_keeps_meta(2) env_keeps_anchor(2)] ids_plain [of "''blob''" w]
  by (fastforce simp: plain_id_def)

text \<open>
  A put that reports an error has touched no shard of any other blob, and the metadata is as
  before, unless the store itself failed after it had recorded the new manifest.
\<close>

lemma put_error_frame:
  assumes uses: "put_uses ms ba ids ck tr pb" and "plain_id (ns_str ns)"
    and "put_backup_execute pb ns tok d w = (Inl e, w')"
  shows "\<exists>b. (\<forall>q. sr_namespace q \<noteq> ns \<or> sr_blob_id q \<noteq> b \<longrightarrow> aview w' q = aview w q) \<and>
    (mview w' = mview w \<or> (\<exists>m. mf_namespace m = ns \<and> mf_blob_id m = b \<and>
       mview w' = add_manifest m (mview w) \<and> (\<exists>w1 e. mview w1 = mview w \<and> ms_put_manifest ms m w1 = (Inl e, w'))))"
proof -
  have us [simp]: "pb_metadata pb = ms" "pb_anchor pb = ba" "pb_ids pb = ids" "pb_clock pb = ck"
    using uses by (simp_all add: put_uses_def)
  have shards: "mview w2 = mview w1 \<and> (plain_id s \<longrightarrow>
      (\<forall>q. sr_namespace q \<noteq> ns \<or> sr_blob_id q \<noteq> BlobId s \<longrightarrow> aview w2 q = aview w1 q))"
    if "put_shards pb ns (BlobId s) 0 shs w1 = (r, w2)" for s shs w1 w2 r
    using that keepsD [OF put_shards_keeps_meta [OF uses] that] put_shards_frame [OF uses assms(2) _ that] by auto
  have manifest: "aview w2 = aview w1 \<and> (mview w2 = mview w1 \<or> mview w2 = add_manifest m (mview w1))"
    if "ms_put_manifest ms m w1 = (r, w2)" for m w1 w2 r
    using that keepsD [OF meta_keeps_anchor(7) that] put_manifest [OF that] by auto
  from assms(3) consider
      (Early) "mview w' = mview w \<and> aview w' = aview w"
    | (Late) s w4 shs r w5 where "is_new_id ids ''blob'' w4 = (s, w5)" "mview w4 = mview w" "aview w4 = aview w"
        "put_shards pb ns (BlobId s) 0 shs w5 = (r, w')"
    | (Last) s w4 shs r w5 w6 now w7 m e1 where "is_new_id ids ''blob'' w4 = (s, w5)" "mview w4 = mview w" "aview w4 = aview w"
        "put_shards pb ns (BlobId s) 0 shs w5 = (r, w6)" "ck_now ck w6 = (now, w7)"
        "ms_put_manifest ms m w7 = (Inl e1, w')" "mf_namespace m = ns" "mf_blob_id m = BlobId s"
    unfolding put_backup_execute_def Let_def
    apply (elim io_bindE; (simp add: io_inv split: if_splits)?)
    apply (auto dest: view_steps)
    apply (metis view_steps new_blob_step manifest_new_sel)+
    done
  then show ?thesis
  proof cases
    case Early
    then show ?thesis by auto
  next
    case Late
    then show ?thesis using new_blob_step shards by metis
  next
    case Last
    note b = new_blob_step [OF Last(1)] and sh = shards [OF Last(4)]
      and ck = view_steps(6) [OF Last(5)] and mf = manifest [OF Last(6)]
    have "mview w7 = mview w" using b sh ck Last(2) by simp
    then show ?thesis using b sh ck mf Last by (intro exI [of _ "BlobId s"]) auto
  qed
qed

end

section \<open>An admitted put succeeds\<close>

text \<open>
  \<open>good\<close> is a condition of the world under which the anchor accepts every shard and which anchor
  writes and peer replication preserve.
\<close>

lemma send_to_peers_good:
  assumes "\<And>p at x w r w'. good w \<Longrightarrow> st_send_shard tr p at x w = (r, w') \<Longrightarrow> good w'"
    and "good w" and "send_to_peers tr at bs peers w = (r, w')"
  shows "good w'"
  using assms(2,3)
proof (induction peers arbitrary: w r)
  case (Cons peer peers)
  obtain x w1 where s: "st_send_shard tr peer at bs w = (x, w1)" by force
  obtain placed w2 where rest: "send_to_peers tr at bs peers w1 = (placed, w2)" by force
  then have "w2 = w'" using Cons.prems s by (cases x) simp_all
  then show ?case using Cons.IH [of w1 placed] rest assms(1) [OF Cons.prems(1) s] by simp
qed simp

context vault_laws
begin

lemma put_shards_succeed:
  assumes uses: "put_uses ms ba ids ck tr pb" and plain: "plain_id (ns_str ns)" "plain_id (blob_str b)"
    and store: "\<And>at x w. good w \<Longrightarrow> plain_ref at \<Longrightarrow> \<exists>w'. ba_put_shard ba at x w = (Inr (), w') \<and> good w'"
    and peers: "\<And>p at x w r w'. good w \<Longrightarrow> st_send_shard tr p at x w = (r, w') \<Longrightarrow> good w'"
    and "good w"
  shows "\<exists>metas w'. put_shards pb ns b i shs w = (Inr metas, w') \<and> good w'"
  using assms(6)
proof (induction shs arbitrary: i w)
  case (Cons s shs)
  let ?at = "shard_ref_new ns b (word_of_nat i)"
  have "plain_ref ?at" using plain by (simp add: plain_ref_def shard_ref_new_def)
  then obtain w1 where put: "ba_put_shard ba ?at s w = (Inr (), w1)" "good w1" using store Cons.prems by blast
  obtain placed w2 where rep: "put_replicate pb ?at s w1 = (placed, w2)" by force
  have "good w2"
  proof (cases "w2 = w1")
    case False
    then obtain t where "me_transport (pb_mesh pb) = Some t"
        "send_to_peers t ?at s (me_peers (pb_mesh pb)) w1 = (placed, w2)"
      using rep by (auto simp: put_replicate_def split: if_splits option.splits)
    moreover from this have "t = tr" using uses by (simp add: put_uses_def)
    ultimately have run: "send_to_peers tr ?at s (me_peers (pb_mesh pb)) w1 = (placed, w2)" by simp
    show ?thesis by (rule send_to_peers_good [where good = good, OF _ put(2) run]) (rule peers)
  qed (use put in simp)
  then obtain metas w3 where "put_shards pb ns b (Suc i) shs w2 = (Inr metas, w3)" "good w3"
    using Cons.IH by blast
  moreover have "pb_anchor pb = ba" using uses by (simp add: put_uses_def)
  ultimately show ?case using put(1) rep by (simp add: Let_def io_simps)
qed (simp add: io_return_def)

end

section \<open>Loading shards\<close>

lemma load_from_peers_keeps:
  assumes "\<And>p at. keeps v (st_fetch_shard tr p at)"
  shows "keeps v (load_from_peers tr hash at h ls)"
proof (rule keepsI)
  fix w r w'
  assume "load_from_peers tr hash at h ls w = (r, w')"
  then show "v w' = v w"
  proof (induction ls arbitrary: w)
    case (Cons l ls)
    show ?case
    proof (cases l)
      case Anchor
      then show ?thesis using Cons by simp
    next
      case (Peer peer)
      obtain x w1 where s: "st_fetch_shard tr peer at w = (x, w1)" by force
      have "v w1 = v w" by (rule keepsD [OF assms s])
      with s Peer Cons show ?thesis by (cases x) (auto split: if_splits)
    qed
  qed simp
qed

lemma load_from_peers_sound: "load_from_peers tr hash at h ls w = (Some x, w') \<Longrightarrow> hash x = h"
  by (induction tr hash at h ls w rule: load_from_peers.induct) (auto split: prod.splits sum.splits if_splits)

lemma load_shard_sound: "load_shard gb at sh w = (Some x, w') \<Longrightarrow> cr_sha256_hex (gb_crypto gb) x = sh_sha256 sh"
  by (auto simp: load_shard_def dest: load_from_peers_sound
      split: prod.splits sum.splits option.splits if_splits)

lemma collect_slots:
  assumes "describes (cr_sha256_hex (gb_crypto gb)) i shs metas"
    and "\<forall>s\<in>set shs. \<forall>x. cr_sha256_hex (gb_crypto gb) x = cr_sha256_hex (gb_crypto gb) s \<longrightarrow> x = s"
    and "collect_shards gb ns b metas w = (slots, w')"
  shows "slots_of shs slots"
  using assms
proof (induction shs arbitrary: i metas w slots w')
  case (Cons s shs)
  then obtain m ms where m: "metas = m # ms" "sh_sha256 m = cr_sha256_hex (gb_crypto gb) s"
      "describes (cr_sha256_hex (gb_crypto gb)) (Suc i) shs ms"
    by (auto simp: describes_Cons)
  obtain slot w1 where l: "load_shard gb (shard_ref_new ns b (sh_index m)) m w = (slot, w1)" by force
  obtain rest w2 where c: "collect_shards gb ns b ms w1 = (rest, w2)" by force
  have slots: "slots = slot # rest" using Cons.prems(3) m l c by simp
  have "slots_of shs rest" using Cons.IH [OF m(3) _ c] Cons.prems(2) by simp
  moreover have "slot = None \<or> slot = Some s"
    using load_shard_sound [of gb "shard_ref_new ns b (sh_index m)" m w _ w1] l m(2) Cons.prems(2)
    by (cases slot) simp_all
  ultimately show ?case by (simp add: slots slots_of_def)
qed (simp add: slots_of_def)

context vault_laws
begin

lemma load_shard_keeps:
  assumes "get_uses ms ba ck tr gb" and "\<And>p at. keeps v (st_fetch_shard tr p at)"
    and "\<And>at. keeps v (ba_get_shard ba at)"
  shows "keeps v (load_shard gb at sh)"
proof (rule keepsI)
  fix w r w'
  assume l: "load_shard gb at sh w = (r, w')"
  obtain y w1 where y: "(case gb_transport gb of None \<Rightarrow> (None, w) | Some tr \<Rightarrow>
      load_from_peers tr (cr_sha256_hex (gb_crypto gb)) at (sh_sha256 sh) (sh_locations sh) w) = (y, w1)"
    by force
  have "v w1 = v w"
    using y assms(1) keepsD [OF load_from_peers_keeps [of v tr, OF assms(2)]]
    by (auto simp: get_uses_def split: option.splits)
  moreover have "v w' = v w1"
    using l y assms(1) keepsD [OF assms(3)]
    by (auto simp: load_shard_def get_uses_def split: option.splits prod.splits sum.splits)
  ultimately show "v w' = v w" by simp
qed

lemma collect_keeps:
  assumes "get_uses ms ba ck tr gb" and "\<And>p at. keeps v (st_fetch_shard tr p at)"
    and "\<And>at. keeps v (ba_get_shard ba at)"
  shows "keeps v (collect_shards gb ns b shs)"
proof (rule keepsI)
  fix w r w'
  assume "collect_shards gb ns b shs w = (r, w')"
  then show "v w' = v w"
  proof (induction shs arbitrary: w r)
    case (Cons sh shs)
    obtain slot w1 where l: "load_shard gb (shard_ref_new ns b (sh_index sh)) sh w = (slot, w1)" by force
    obtain rest w2 where c: "collect_shards gb ns b shs w1 = (rest, w2)" by force
    have "w2 = w'" using Cons.prems l c by simp
    then show ?case using Cons.IH c keepsD [OF load_shard_keeps [OF assms] l] by simp
  qed simp
qed

lemma restore_keeps:
  assumes "get_uses ms ba ck tr gb"
  shows "keeps mview (get_backup_restore gb ns tok b)" "keeps aview (get_backup_restore gb ns tok b)"
proof -
  have us [simp]: "gb_metadata gb = ms" "gb_anchor gb = ba" "gb_clock gb = ck"
    using assms by (simp_all add: get_uses_def)
  show "keeps mview (get_backup_restore gb ns tok b)"
    unfolding get_backup_restore_def Let_def us
    by (intro frame_rules guard_keeps read_keeps collect_keeps [OF assms])
  show "keeps aview (get_backup_restore gb ns tok b)"
    unfolding get_backup_restore_def Let_def us
    by (intro frame_rules guard_keeps_anchor collect_keeps [OF assms] get_keeps)
qed

lemma check_hold_view:
  assumes "delete_uses ms ba ck db" and "check_hold db ret ns b w = (r, w')"
  shows "mview w' = mview w \<and> aview w' = aview w"
  using assms view_steps(4,6)
  by (fastforce simp: check_hold_def delete_uses_def io_bind_def io_return_def io_throw_def io_lift_def io_read_def
      split: if_splits prod.splits sum.splits)

lemma delete_ok:
  assumes db: "delete_uses ms ba ck db" and "plain_id (ns_str ns)" and "plain_id (blob_str b)"
    and "delete_backup_execute db ns tok b w = (Inr (), w')"
  obtains c where "av_verify_signature (db_verifier db) tok = Inr ()"
    and "cc_namespace (ct_claims tok) = ns" and "cc_operation (ct_claims tok) = OpDelete"
    and "fst (ck_now ck w) < cc_expires_at (ct_claims tok)"
    and "\<exists>n. mv_namespaces (mview w) ns = Some n \<and> nsp_app_id n = cc_app_id (ct_claims tok)"
    and "mv_contracts (mview w) (cc_app_id (ct_claims tok)) = Some c"
    and "rp_min_days (ac_retention c) = 0 \<or> (\<exists>m w1. mv_manifests (mview w) (ns, b) = Some m \<and>
      hold_elapsed (ac_retention c) (mf_created_at m) (fst (ck_now ck w1)))"
    and "mview w' = drop_manifest ns b (mview w)" and "aview w' = drop_blob ns b (aview w)"
proof -
  have us [simp]: "db_metadata db = ms" "db_anchor db = ba" "db_clock db = ck"
    using db by (simp_all add: delete_uses_def)
  from assms(4) obtain app w1 c w2 w3 w4 where p:
    "guard_authorize (db_verifier db) (db_metadata db) (db_clock db) ns tok OpDelete w = (Inr app, w1)"
    "ms_get_contract (db_metadata db) app w1 = (Inr (Some c), w2)"
    "check_hold db (ac_retention c) ns b w2 = (Inr (), w3)"
    "ba_delete_blob (db_anchor db) ns b w3 = (Inr (), w4)"
    "ms_delete_manifest (db_metadata db) ns b w4 = (Inr (), w')"
    by (rule delete_backup_Inr)
  note p = p [unfolded us]
  note g = guard_grants [OF p(1)]
  note v = view_steps(1) [OF p(1)] view_steps(2) [OF p(2)] check_hold_view [OF db p(3)]
  have hold: "rp_min_days (ac_retention c) = 0 \<or> (\<exists>m w1. mv_manifests (mview w) (ns, b) = Some m \<and>
      hold_elapsed (ac_retention c) (mf_created_at m) (fst (ck_now ck w1)))"
    using p(3)
  proof (cases rule: check_hold_Inr)
    case (Elapsed m w5 now)
    then have "mv_manifests (mview w2) (ns, b) = Some m" using get_manifest [of ns b w2] by force
    then show ?thesis using Elapsed v by (metis fst_conv us(3))
  qed simp
  have "mview w' = drop_manifest ns b (mview w)"
    using delete_manifest [OF p(5)] keepsD [OF anchor_keeps_meta(3) p(4)] v by simp
  moreover have "aview w' = drop_blob ns b (aview w)"
    using keepsD [OF meta_keeps_anchor(8) p(5)] delete_done [OF assms(2,3) p(4)] v by simp
  moreover have "mv_contracts (mview w) (cc_app_id (ct_claims tok)) = Some c"
    using get_contract [OF p(2)] g by simp
  ultimately show thesis using g hold by (intro that [of c]) auto
qed

text \<open>
  While the hold lasts at every reading of this world's clock (of any world that agrees on \<open>env\<close>,
  a part that reading metadata and time leaves alone), a delete fails and changes nothing.
\<close>

lemma delete_held:
  assumes db: "delete_uses ms ba ck db"
    and c: "mv_contracts (mview w) (cc_app_id (ct_claims tok)) = Some c" "0 < rp_min_days (ac_retention c)"
    and m: "mv_manifests (mview w) (ns, b) = Some m"
    and env: "keeps env (guard_authorize (db_verifier db) ms ck ns tok OpDelete)"
      "\<And>a. keeps env (ms_get_contract ms a)" "keeps env (ms_get_manifest ms ns b)"
    and held: "\<And>w1. env w1 = env w \<Longrightarrow>
      \<not> hold_elapsed (ac_retention c) (mf_created_at m) (fst (ck_now ck w1))"
    and run: "delete_backup_execute db ns tok b w = (r, w')"
  shows "(\<exists>e. r = Inl e) \<and> mview w' = mview w \<and> aview w' = aview w"
proof -
  have us [simp]: "db_metadata db = ms" "db_anchor db = ba" "db_clock db = ck"
    using db by (simp_all add: delete_uses_def)
  have no: "\<exists>e. x = Inl e"
    if "mview w1 = mview w" "check_hold db (ac_retention c) ns b w1 = (x, w2)" "env w1 = env w" for w1 w2 x
  proof (cases x)
    case (Inr u)
    with that(2) have "check_hold db (ac_retention c) ns b w1 = (Inr (), w2)" by simp
    then show ?thesis
    proof (cases rule: check_hold_Inr)
      case (Elapsed m' w3 now)
      then have "m' = m" using get_manifest [of ns b w1] m that(1) by force
      moreover have "env w3 = env w" using keepsD [OF env(3)] Elapsed(1) that(3) by simp
      ultimately show ?thesis using Elapsed held [of w3] by simp
    qed (use c in simp)
  qed simp
  from run show ?thesis
    unfolding delete_backup_execute_def us
  proof (elim io_bindE, goal_cases)
    case (1 e)
    then show ?case using view_steps(1) by blast
  next
    case (2 app w1 e)
    then show ?case using view_steps(1,2) by metis
  next
    case (3 app w1 found w2 e)
    then show ?case using view_steps(1,2) by (metis io_lift_iff)
  next
    case (4 app w1 found w2 c' w3 e)
    then show ?case using view_steps(1,2) check_hold_view [OF db] by (metis io_lift_iff)
  next
    case (5 app w1 found w2 c' w3 u w4 e)
    then have "mview w1 = mview w" "app = cc_app_id (ct_claims tok)" "mview w2 = mview w1" "w3 = w2"
      using guard_grants [OF 5(1)] view_steps(2) [OF 5(2)] by (simp_all add: io_lift_iff)
    moreover have "env w2 = env w" using keepsD [OF env(1) 5(1)] keepsD [OF env(2) 5(2)] by simp
    moreover from \<open>mview w1 = mview w\<close> \<open>app = cc_app_id (ct_claims tok)\<close> have "c' = c" using 5(2,3) get_contract [OF 5(2)] c by (simp add: io_lift_iff)
    ultimately show ?case using no [of w3 _ w4] 5(4) by fastforce
  next
    case (6 app w1 found w2 c' w3 u w4 u')
    then have "mview w1 = mview w" "app = cc_app_id (ct_claims tok)" "mview w2 = mview w1" "w3 = w2"
      using guard_grants [OF 6(1)] view_steps(2) [OF 6(2)] by (simp_all add: io_lift_iff)
    moreover have "env w2 = env w" using keepsD [OF env(1) 6(1)] keepsD [OF env(2) 6(2)] by simp
    moreover from \<open>mview w1 = mview w\<close> \<open>app = cc_app_id (ct_claims tok)\<close> have "c' = c" using 6(2,3) get_contract [OF 6(2)] c by (simp add: io_lift_iff)
    ultimately show ?case using no [of w3 _ w4] 6(4) by fastforce
  qed
qed

lemma list_exact:
  assumes "list_backups_execute ms v ck ns tok w = (Inr bs, w')"
  shows "av_verify_signature v tok = Inr () \<and> cc_namespace (ct_claims tok) = ns \<and>
    cc_operation (ct_claims tok) = OpList \<and> fst (ck_now ck w) < cc_expires_at (ct_claims tok) \<and>
    (\<exists>n. mv_namespaces (mview w) ns = Some n \<and> nsp_app_id n = cc_app_id (ct_claims tok)) \<and>
    set bs = blobs_of (mview w) ns \<and> distinct bs \<and> mview w' = mview w \<and> aview w' = aview w"
proof -
  from assms obtain app w1 where p: "guard_authorize v ms ck ns tok OpList w = (Inr app, w1)"
      "ms_list_blobs ms ns w1 = (Inr bs, w')"
    by (auto simp: list_backups_execute_def io_inv)
  show ?thesis
    using guard_grants [OF p(1)] view_steps(1) [OF p(1)] view_steps(5) [OF p(2)] list_blobs [OF p(2)] by auto
qed

end

section \<open>Restoring a blob\<close>

locale coded_vault = live_vault ms mview ck ids ba aview tr readable + erasure_laws ec supported
  for ms :: "'w metadata_store" and mview :: "'w \<Rightarrow> meta_view"
    and ck :: "'w clock" and ids :: "'w id_source"
    and ba :: "'w blob_anchor" and aview :: "'w \<Rightarrow> shard_ref \<rightharpoonup> bytes" and tr :: "'w shard_transport"
    and readable :: "'w \<Rightarrow> shard_ref \<Rightarrow> bool"
    and ec :: erasure_coder and supported :: "erasure_params \<Rightarrow> bool"

text \<open>The manifest \<open>m\<close> records exactly the shards the coder makes of \<open>d\<close>.\<close>

definition records ::
  "erasure_coder \<Rightarrow> (bytes \<Rightarrow> string) \<Rightarrow> bytes \<Rightarrow> bytes list \<Rightarrow> manifest \<Rightarrow> bool" where
  "records ec hash d shs m \<longleftrightarrow> ec_encode ec d (mf_erasure m) = Inr shs \<and>
     describes hash 0 shs (mf_shards m) \<and> mf_ciphertext_len m = word_of_nat (length d)"

text \<open>No other byte string has the hash of one of these shards.\<close>

definition no_second_preimage :: "(bytes \<Rightarrow> string) \<Rightarrow> bytes list \<Rightarrow> bool" where
  "no_second_preimage hash shs \<longleftrightarrow> (\<forall>s\<in>set shs. \<forall>x. hash x = hash s \<longrightarrow> x = s)"

text \<open>The shards of a manifest that the anchor can serve with the recorded content.\<close>

definition intact ::
  "(shard_ref \<Rightarrow> bool) \<Rightarrow> (shard_ref \<rightharpoonup> bytes) \<Rightarrow> (bytes \<Rightarrow> string) \<Rightarrow> namespace_id \<Rightarrow> blob_id \<Rightarrow> shard \<Rightarrow> bool" where
  "intact readable a hash ns b sh \<longleftrightarrow>
     (let r = shard_ref_new ns b (sh_index sh) in
      readable r \<and> (case a r of None \<Rightarrow> False | Some x \<Rightarrow> hash x = sh_sha256 sh))"

context coded_vault
begin

lemma load_shard_live:
  assumes "get_uses ms ba ck tr gb" and "plain_id (ns_str ns)" and "plain_id (blob_str b)"
    and "intact (readable w) (aview w) (cr_sha256_hex (gb_crypto gb)) ns b sh"
    and "load_shard gb (shard_ref_new ns b (sh_index sh)) sh w = (slot, w')"
  shows "slot \<noteq> None"
proof -
  let ?at = "shard_ref_new ns b (sh_index sh)"
  obtain y w1 where y: "(case gb_transport gb of None \<Rightarrow> (None, w) | Some tr \<Rightarrow>
      load_from_peers tr (cr_sha256_hex (gb_crypto gb)) ?at (sh_sha256 sh) (sh_locations sh) w) = (y, w1)"
    by force
  have kept: "aview w1 = aview w" "readable w1 = readable w"
    using y assms(1) keepsD [OF load_from_peers_keeps [of aview tr, OF peers_keep(4)]]
      keepsD [OF load_from_peers_keeps [of readable tr, OF readable_keeps(7)]]
    by (auto simp: get_uses_def split: option.splits)
  have "plain_ref ?at" using assms by (simp add: plain_ref_def shard_ref_new_def)
  then obtain x w2 where "ba_get_shard ba ?at w1 = (Inr x, w2)" "cr_sha256_hex (gb_crypto gb) x = sh_sha256 sh"
    using get_live [of ?at w1] assms(4) kept by (fastforce simp: intact_def Let_def split: option.splits)
  then show ?thesis
    using assms(1,5) y by (auto simp: load_shard_def get_uses_def split: option.splits)
qed

lemma collect_live:
  assumes "get_uses ms ba ck tr gb" and "plain_id (ns_str ns)" and "plain_id (blob_str b)"
    and "collect_shards gb ns b shs w = (slots, w')"
  shows "length (filter (intact (readable w) (aview w) (cr_sha256_hex (gb_crypto gb)) ns b) shs) \<le> survivors slots"
  using assms(4)
proof (induction shs arbitrary: w slots)
  case (Cons sh shs)
  obtain slot w1 where l: "load_shard gb (shard_ref_new ns b (sh_index sh)) sh w = (slot, w1)" by force
  obtain rest w2 where c: "collect_shards gb ns b shs w1 = (rest, w2)" by force
  have "aview w1 = aview w" "readable w1 = readable w"
    using keepsD [OF load_shard_keeps [OF assms(1) peers_keep(4) get_keeps] l]
      keepsD [OF load_shard_keeps [OF assms(1) readable_keeps(7) readable_keeps(5)] l] by auto
  moreover have "slots = slot # rest" "w2 = w'" using Cons.prems l c by auto
  ultimately show ?case
    using Cons.IH [of w1 rest] c load_shard_live [OF assms(1-3) _ l]
    by (cases slot) (auto simp: le_SucI)
qed simp

text \<open>Whatever peers and anchor answer, a restore that succeeds returns the bytes put.\<close>

lemma restore_correct:
  assumes gb: "get_uses ms ba ck tr gb" "gb_erasure gb = ec"
    and m: "mv_manifests (mview w) (ns, b) = Some m" "supported (mf_erasure m)"
    and rec: "records ec (cr_sha256_hex (gb_crypto gb)) d shs m"
    and hash: "no_second_preimage (cr_sha256_hex (gb_crypto gb)) shs" and len: "length d < 2 ^ 64"
    and run: "get_backup_restore gb ns tok b w = (Inr out, w')"
  shows "ro_ciphertext out = d"
proof -
  have us [simp]: "gb_metadata gb = ms" "gb_anchor gb = ba" "gb_clock gb = ck"
    using gb by (simp_all add: get_uses_def)
  from run obtain app w1 m' w2 slots where p:
    "guard_authorize (gb_verifier gb) (gb_metadata gb) (gb_clock gb) ns tok OpGet w = (Inr app, w1)"
    "ms_get_manifest (gb_metadata gb) ns b w1 = (Inr (Some m'), w2)"
    "collect_shards gb ns b (mf_shards m') w2 = (slots, w')"
    "unat (ep_k (mf_erasure m')) \<le> survivors slots"
    "ec_decode (gb_erasure gb) slots (mf_erasure m') (unat (mf_ciphertext_len m')) = Inr (ro_ciphertext out)"
    by (rule get_restore_Inr)
  have "mview w1 = mview w" using view_steps(1) p(1) by simp
  then have "m' = m" using get_manifest [of ns b w1] p(2) m(1) by force
  moreover have "unat (word_of_nat (length d) :: u64) = length d" using len by (simp add: unat_of_nat_small)
  moreover have "slots_of shs slots"
    using collect_slots [OF _ _ p(3)] rec hash \<open>m' = m\<close> by (auto simp: records_def no_second_preimage_def)
  ultimately show ?thesis
    using decode_any_k [OF m(2)] rec p(4,5) gb(2) by (fastforce simp: records_def)
qed

text \<open>With \<open>k\<close> intact shards on the anchor the restore does succeed, whatever the peers answer.\<close>

lemma restore_available:
  assumes gb: "get_uses ms ba ck tr gb" "gb_erasure gb = ec"
    and plain: "plain_id (ns_str ns)" "plain_id (blob_str b)"
    and g: "guard_authorize (gb_verifier gb) ms ck ns tok OpGet w = (Inr app, w1)"
    and gm: "ms_get_manifest ms ns b w1 = (Inr (Some m), w2)" and sup: "supported (mf_erasure m)"
    and rec: "records ec (cr_sha256_hex (gb_crypto gb)) d shs m"
    and hash: "no_second_preimage (cr_sha256_hex (gb_crypto gb)) shs" and len: "length d < 2 ^ 64"
    and k: "unat (ep_k (mf_erasure m)) \<le>
      length (filter (intact (readable w2) (aview w2) (cr_sha256_hex (gb_crypto gb)) ns b) (mf_shards m))"
  shows "\<exists>out w'. get_backup_restore gb ns tok b w = (Inr out, w') \<and> ro_ciphertext out = d"
proof -
  have us [simp]: "gb_metadata gb = ms" "gb_anchor gb = ba" "gb_clock gb = ck"
    using gb by (simp_all add: get_uses_def)
  obtain slots w3 where c: "collect_shards gb ns b (mf_shards m) w2 = (slots, w3)" by force
  have "unat (ep_k (mf_erasure m)) \<le> survivors slots" using collect_live [OF gb(1) plain c] k by simp
  moreover have "slots_of shs slots"
    using collect_slots [OF _ _ c] rec hash by (auto simp: records_def no_second_preimage_def)
  moreover have "unat (mf_ciphertext_len m) = length d" using rec len by (simp add: records_def unat_of_nat_small)
  ultimately have "ec_decode ec slots (mf_erasure m) (unat (mf_ciphertext_len m)) = Inr d"
    using decode_any_k [OF sup] rec by (simp add: records_def)
  with \<open>unat (ep_k (mf_erasure m)) \<le> survivors slots\<close> c g gm show ?thesis
    by (simp add: get_backup_restore_def Let_def io_simps gb(2) is_reconstructable_def)
qed

end

end
