(* ===== verification/Maintenance.thy ===== *)
theory Maintenance
  imports Data_Plane
begin

text \<open>
  The maintenance use-cases of \<^verbatim>\<open>crates/vault-app\<close>: self-healing repair (\<^verbatim>\<open>repair_shards.rs\<close>)
  and retention pruning (\<^verbatim>\<open>prune_versions.rs\<close>).  Indexing a vector out of bounds is \<open>Panic\<close>.
\<close>

section \<open>Repair (repair\_shards.rs)\<close>

record repair_report =
  rr_blob_id :: blob_id
  rr_checked :: nat
  rr_healthy :: nat
  rr_repaired :: nat
  rr_still_bad :: nat
  rr_unrepairable :: bool

record 'w repair_shards =
  rsh_metadata :: "'w metadata_store"
  rsh_anchor :: "'w blob_anchor"
  rsh_erasure :: erasure_coder
  rsh_crypto :: "'w cryptographer"
  rsh_transport :: "'w shard_transport option"

definition repair_shards_new ::
  "'w metadata_store \<Rightarrow> 'w blob_anchor \<Rightarrow> erasure_coder \<Rightarrow> 'w cryptographer \<Rightarrow> 'w repair_shards" where
  "repair_shards_new ms ba ec cr =
     \<lparr>rsh_metadata = ms, rsh_anchor = ba, rsh_erasure = ec, rsh_crypto = cr, rsh_transport = None\<rparr>"

definition repair_with_mesh :: "'w repair_shards \<Rightarrow> 'w shard_transport \<Rightarrow> 'w repair_shards" where
  "repair_with_mesh rs tr = rs\<lparr>rsh_transport := Some tr\<rparr>"

text \<open>
  The loop of \<^verbatim>\<open>backfill_from_peers\<close>; its inner loop over a shard's locations is the one of
  \<^verbatim>\<open>load_shard\<close>: the first peer copy whose hash matches.
\<close>

fun backfill_loop ::
  "'w shard_transport \<Rightarrow> (bytes \<Rightarrow> string) \<Rightarrow> namespace_id \<Rightarrow> blob_id \<Rightarrow> nat \<Rightarrow> u16 list \<Rightarrow> shard list
   \<Rightarrow> bytes option list \<Rightarrow> nat \<Rightarrow> nat \<Rightarrow> ('w, bytes option list \<times> nat) unsafe_io" where
  "backfill_loop tr hash ns blob k bad [] collected available filled = io_return (collected, filled)"
| "backfill_loop tr hash ns blob k bad (sh # shs) collected available filled =
     (if k \<le> available then io_return (collected, filled)
      else if sh_index sh \<notin> set bad then backfill_loop tr hash ns blob k bad shs collected available filled
      else io_bind (io_read (load_from_peers tr hash (shard_ref_new ns blob (sh_index sh)) (sh_sha256 sh)
                    (sh_locations sh))) (\<lambda>got.
        case got of
          None \<Rightarrow> backfill_loop tr hash ns blob k bad shs collected available filled
        | Some bs \<Rightarrow>
            if unat (sh_index sh) < length collected
            then backfill_loop tr hash ns blob k bad shs (collected[unat (sh_index sh) := Some bs])
                   (available + 1) (filled + 1)
            else io_throw Panic))"

definition backfill_from_peers ::
  "'w repair_shards \<Rightarrow> namespace_id \<Rightarrow> blob_id \<Rightarrow> manifest \<Rightarrow> bytes option list \<Rightarrow> u16 list
   \<Rightarrow> ('w, bytes option list \<times> nat) unsafe_io" where
  "backfill_from_peers rs ns blob m collected bad =
     (let k = unat (ep_k (mf_erasure m)); available = survivors collected in
      case rsh_transport rs of
        None \<Rightarrow> io_return (collected, 0)
      | Some tr \<Rightarrow> backfill_loop tr (cr_sha256_hex (rsh_crypto rs)) ns blob k bad (mf_shards m) collected available 0)"

fun classify_shards ::
  "'w repair_shards \<Rightarrow> namespace_id \<Rightarrow> blob_id \<Rightarrow> shard list \<Rightarrow> ('w, bytes option list \<times> u16 list) io" where
  "classify_shards rs ns blob [] = io_return ([], [])"
| "classify_shards rs ns blob (sh # shs) =
     io_bind (io_attempt (ba_get_shard (rsh_anchor rs) (shard_ref_new ns blob (sh_index sh)))) (\<lambda>r.
     case r of
       Inr bs \<Rightarrow>
         if cr_sha256_hex (rsh_crypto rs) bs = sh_sha256 sh
         then io_bind (classify_shards rs ns blob shs) (\<lambda>(collected, bad). io_return (Some bs # collected, bad))
         else io_bind (classify_shards rs ns blob shs) (\<lambda>(collected, bad). io_return (None # collected, sh_index sh # bad))
     | Inl NotFound \<Rightarrow>
         io_bind (classify_shards rs ns blob shs) (\<lambda>(collected, bad). io_return (None # collected, sh_index sh # bad))
     | Inl other \<Rightarrow> io_throw other)"

fun re_replicate_loop ::
  "'w shard_transport \<Rightarrow> shard_ref \<Rightarrow> bytes \<Rightarrow> shard_location list \<Rightarrow> 'w \<Rightarrow> unit \<times> 'w" where
  "re_replicate_loop tr at bs [] w = ((), w)"
| "re_replicate_loop tr at bs (Anchor # ls) w = re_replicate_loop tr at bs ls w"
| "re_replicate_loop tr at bs (Peer peer # ls) w =
     (case st_send_shard tr peer at bs w of (_, w') \<Rightarrow> re_replicate_loop tr at bs ls w')"

definition re_replicate :: "'w repair_shards \<Rightarrow> shard_ref \<Rightarrow> bytes \<Rightarrow> shard \<Rightarrow> 'w \<Rightarrow> unit \<times> 'w" where
  "re_replicate rs at bs sh w =
     (case rsh_transport rs of None \<Rightarrow> ((), w) | Some tr \<Rightarrow> re_replicate_loop tr at bs (sh_locations sh) w)"

fun rewrite_bad ::
  "'w repair_shards \<Rightarrow> namespace_id \<Rightarrow> blob_id \<Rightarrow> u16 list \<Rightarrow> bytes list \<Rightarrow> shard list \<Rightarrow> nat
   \<Rightarrow> ('w, nat) unsafe_io" where
  "rewrite_bad rs ns blob bad fresh [] repaired = io_return repaired"
| "rewrite_bad rs ns blob bad fresh (sh # shs) repaired =
     (if sh_index sh \<notin> set bad then rewrite_bad rs ns blob bad fresh shs repaired
      else if unat (sh_index sh) < length fresh
      then (let bs = fresh ! unat (sh_index sh); at = shard_ref_new ns blob (sh_index sh) in
            io_bind (io_map_err Fail (ba_put_shard (rsh_anchor rs) at bs)) (\<lambda>_.
            io_bind (io_read (re_replicate rs at bs sh)) (\<lambda>_.
            rewrite_bad rs ns blob bad fresh shs (repaired + 1))))
      else io_throw Panic)"

definition repair_shards_execute ::
  "'w repair_shards \<Rightarrow> namespace_id \<Rightarrow> blob_id \<Rightarrow> ('w, repair_report) unsafe_io" where
  "repair_shards_execute rs ns blob =
     io_bind (io_map_err Fail (ms_get_manifest (rsh_metadata rs) ns blob)) (\<lambda>found.
     io_bind (io_lift (ok_or (Fail NotFound) found)) (\<lambda>m.
     io_bind (io_map_err Fail (classify_shards rs ns blob (mf_shards m))) (\<lambda>(collected, bad).
     (let checked = length (mf_shards m); healthy = checked - length bad in
      if bad = []
      then io_return \<lparr>rr_blob_id = blob, rr_checked = checked, rr_healthy = healthy, rr_repaired = 0,
             rr_still_bad = 0, rr_unrepairable = False\<rparr>
      else
        io_bind (if \<not> is_reconstructable m healthy then backfill_from_peers rs ns blob m collected bad
                 else io_return (collected, 0)) (\<lambda>(collected, filled).
        if \<not> is_reconstructable m (survivors collected)
        then io_return \<lparr>rr_blob_id = blob, rr_checked = checked, rr_healthy = healthy, rr_repaired = 0,
               rr_still_bad = length bad, rr_unrepairable = True\<rparr>
        else
          io_bind (io_lift (map_sum Fail id (ec_decode (rsh_erasure rs) collected (mf_erasure m)
                     (unat (mf_ciphertext_len m))))) (\<lambda>data.
          io_bind (io_lift (ec_encode (rsh_erasure rs) data (mf_erasure m))) (\<lambda>fresh.
          io_bind (rewrite_bad rs ns blob bad fresh (mf_shards m) 0) (\<lambda>repaired.
          io_return \<lparr>rr_blob_id = blob, rr_checked = checked, rr_healthy = healthy + repaired,
            rr_repaired = repaired, rr_still_bad = 0, rr_unrepairable = False\<rparr>))))))))"

section \<open>Pruning (prune\_versions.rs)\<close>

record prune_report =
  pr_object_id :: string
  pr_versions :: nat
  pr_kept :: nat
  pr_pruned :: nat
  pr_held :: nat

record 'w prune_versions =
  pv_metadata :: "'w metadata_store"
  pv_anchor :: "'w blob_anchor"
  pv_clock :: "'w clock"

fun collect_versions ::
  "'w metadata_store \<Rightarrow> namespace_id \<Rightarrow> string \<Rightarrow> blob_id list \<Rightarrow> ('w, manifest list) io" where
  "collect_versions ms ns object_id [] = io_return []"
| "collect_versions ms ns object_id (blob # blobs) =
     io_bind (ms_get_manifest ms ns blob) (\<lambda>found.
     io_bind (collect_versions ms ns object_id blobs) (\<lambda>versions.
     case found of
       Some m \<Rightarrow> io_return (if mf_object_id m = Some object_id then m # versions else versions)
     | None \<Rightarrow> io_return versions))"

text \<open>\<^verbatim>\<open>sort_by\<close> is stable; the comparison is the reversed one on creation times.\<close>

definition newest_first :: "manifest list \<Rightarrow> manifest list" where
  "newest_first = sort_key (\<lambda>m. - int (unat (as_millis (mf_created_at m))))"

fun prune_loop ::
  "'w prune_versions \<Rightarrow> retention_policy \<Rightarrow> namespace_id \<Rightarrow> timestamp \<Rightarrow> nat \<Rightarrow> nat \<Rightarrow> manifest list
   \<Rightarrow> nat \<times> nat \<times> nat \<Rightarrow> ('w, nat \<times> nat \<times> nat) io" where
  "prune_loop pv ret ns now keep i [] counts = io_return counts"
| "prune_loop pv ret ns now keep i (m # ms) (kept, pruned, held) =
     (if i < keep then prune_loop pv ret ns now keep (Suc i) ms (kept + 1, pruned, held)
      else if hold_elapsed ret (mf_created_at m) now
      then io_bind (ba_delete_blob (pv_anchor pv) ns (mf_blob_id m)) (\<lambda>_.
           io_bind (ms_delete_manifest (pv_metadata pv) ns (mf_blob_id m)) (\<lambda>_.
           prune_loop pv ret ns now keep (Suc i) ms (kept, pruned + 1, held)))
      else prune_loop pv ret ns now keep (Suc i) ms (kept, pruned, held + 1))"

definition prune_versions_execute ::
  "'w prune_versions \<Rightarrow> namespace_id \<Rightarrow> string \<Rightarrow> ('w, prune_report) io" where
  "prune_versions_execute pv ns object_id =
     io_bind (ms_get_namespace (pv_metadata pv) ns) (\<lambda>found.
     io_bind (io_lift (ok_or NotFound found)) (\<lambda>n.
     io_bind (ms_get_contract (pv_metadata pv) (nsp_app_id n)) (\<lambda>found.
     io_bind (io_lift (ok_or NotFound found)) (\<lambda>contract.
     (let keep = unat (rp_keep_versions (ac_retention contract)) in
      io_bind (ms_list_blobs (pv_metadata pv) ns) (\<lambda>blobs.
      io_bind (collect_versions (pv_metadata pv) ns object_id blobs) (\<lambda>versions.
      (let total = length versions in
       if keep = 0
       then io_return \<lparr>pr_object_id = object_id, pr_versions = total, pr_kept = total, pr_pruned = 0, pr_held = 0\<rparr>
       else
         io_bind (io_read (ck_now (pv_clock pv))) (\<lambda>now.
         io_bind (prune_loop pv (ac_retention contract) ns now keep 0 (newest_first versions) (0, 0, 0))
           (\<lambda>(kept, pruned, held).
         io_return \<lparr>pr_object_id = object_id, pr_versions = total, pr_kept = kept, pr_pruned = pruned,
           pr_held = held\<rparr>))))))))))"

section \<open>Repair restores every shard\<close>

definition repair_uses ::
  "'w metadata_store \<Rightarrow> 'w blob_anchor \<Rightarrow> erasure_coder \<Rightarrow> 'w shard_transport \<Rightarrow> 'w repair_shards \<Rightarrow> bool" where
  "repair_uses ms ba ec tr rs \<longleftrightarrow> rsh_metadata rs = ms \<and> rsh_anchor rs = ba \<and> rsh_erasure rs = ec \<and>
     (\<forall>t. rsh_transport rs = Some t \<longrightarrow> t = tr)"

lemma re_replicate_loop_keeps:
  assumes "\<And>p at x. keeps v (st_send_shard tr p at x)"
  shows "keeps v (re_replicate_loop tr at bs ls)"
proof (rule keepsI)
  fix w r w'
  assume "re_replicate_loop tr at bs ls w = (r, w')"
  then show "v w' = v w"
  proof (induction ls arbitrary: w)
    case (Cons l ls)
    show ?case
    proof (cases l)
      case (Peer peer)
      obtain x w1 where s: "st_send_shard tr peer at bs w = (x, w1)" by force
      have "v w1 = v w" by (rule keepsD [OF assms s])
      with s Peer Cons show ?thesis by simp
    qed (use Cons in simp)
  qed simp
qed

lemma re_replicate_keeps:
  assumes "repair_uses ms ba ec tr rs" and "\<And>p at x. keeps v (st_send_shard tr p at x)"
  shows "keeps v (re_replicate rs at bs sh)"
proof (rule keepsI)
  fix w r w'
  assume "re_replicate rs at bs sh w = (r, w')"
  then show "v w' = v w"
    using assms(1) keepsD [OF re_replicate_loop_keeps [OF assms(2)]]
    by (auto simp: re_replicate_def repair_uses_def split: option.splits)
qed

text \<open>What a repair leaves behind, by its report.\<close>

definition repair_post ::
  "namespace_id \<Rightarrow> blob_id \<Rightarrow> bytes list \<Rightarrow> (shard_ref \<rightharpoonup> bytes) \<Rightarrow> (shard_ref \<rightharpoonup> bytes) \<Rightarrow> repair_report \<Rightarrow> bool" where
  "repair_post ns b shs a a' rep \<longleftrightarrow>
     rr_blob_id rep = b \<and> rr_checked rep = length shs \<and>
     (if rr_unrepairable rep
      then a' = a \<and> rr_repaired rep = 0 \<and> 0 < rr_still_bad rep \<and> rr_healthy rep + rr_still_bad rep = length shs
      else (\<forall>j<length shs. a' (shard_ref_new ns b (word_of_nat j)) = Some (shs ! j)) \<and>
           rr_still_bad rep = 0 \<and> rr_healthy rep = length shs \<and> rr_repaired rep \<le> length shs)"

text \<open>Every shard record points into the shard list and has that shard's hash.\<close>

definition points_into :: "(bytes \<Rightarrow> string) \<Rightarrow> bytes list \<Rightarrow> shard list \<Rightarrow> bool" where
  "points_into hash shs metas \<longleftrightarrow> (\<forall>sh\<in>set metas.
     unat (sh_index sh) < length shs \<and> sh_sha256 sh = hash (shs ! unat (sh_index sh)))"

lemma points_into_simps [simp]:
  "points_into hash shs []"
  "points_into hash shs (sh # metas) \<longleftrightarrow> unat (sh_index sh) < length shs \<and>
     sh_sha256 sh = hash (shs ! unat (sh_index sh)) \<and> points_into hash shs metas"
  by (auto simp: points_into_def)

lemma describes_index:
  assumes "describes hash 0 shs metas" and "length shs \<le> 2 ^ 16" and "j < length shs"
  shows "unat (sh_index (metas ! j)) = j"
  using describes_nth [OF assms(1,3)] assms(2,3) by (simp add: unat_of_nat_small)

lemma describes_points_into:
  assumes "describes hash 0 shs metas" and "length shs \<le> 2 ^ 16"
  shows "points_into hash shs metas"
  unfolding points_into_def
proof
  fix sh assume "sh \<in> set metas"
  then obtain j where "j < length shs" "sh = metas ! j"
    using describes_length [OF assms(1)] by (metis in_set_conv_nth)
  then show "unat (sh_index sh) < length shs \<and> sh_sha256 sh = hash (shs ! unat (sh_index sh))"
    using describes_index [OF assms] describes_nth [OF assms(1)] by simp
qed

lemma filter_zip_fst:
  "length xs = length ys \<Longrightarrow> filter P xs = map fst (filter (\<lambda>p. P (fst p)) (zip xs ys))"
  by (induction xs ys rule: list_induct2) auto

lemma filter_zip_snd:
  "length xs = length ys \<Longrightarrow> filter P ys = map snd (filter (\<lambda>p. P (snd p)) (zip xs ys))"
  by (induction xs ys rule: list_induct2) auto

lemma slots_of_update:
  "slots_of shs slots \<Longrightarrow> j < length shs \<Longrightarrow> slots_of shs (slots[j := Some (shs ! j)])"
  by (auto simp: slots_of_nth nth_list_update)

lemma backfill_loop_slots:
  assumes "points_into hash shs metas" and "no_second_preimage hash shs" and "slots_of shs slots"
  shows "\<exists>slots' n w'. backfill_loop tr hash ns b k bad metas slots av filled w = (Inr (slots', n), w') \<and>
    slots_of shs slots'"
  using assms
proof (induction metas arbitrary: slots av filled w)
  case (Cons sh metas)
  let ?at = "shard_ref_new ns b (sh_index sh)"
  note IH = Cons.IH [OF _ Cons.prems(2)]
  have into: "points_into hash shs metas" using Cons.prems(1) by simp
  obtain got w1 where l: "load_from_peers tr hash ?at (sh_sha256 sh) (sh_locations sh) w = (got, w1)" by force
  show ?case
  proof (cases "k \<le> av \<or> sh_index sh \<notin> set bad")
    case True
    then show ?thesis using IH [OF into Cons.prems(3)] Cons.prems(3) by (auto simp: io_return_def)
  next
    case busy: False
    show ?thesis
    proof (cases got)
      case None
      with busy l show ?thesis using IH [OF into Cons.prems(3)] by (simp add: io_simps)
    next
      case (Some x)
      then have "x = shs ! unat (sh_index sh)"
        using load_from_peers_sound l Cons.prems(1,2) by (fastforce simp: no_second_preimage_def)
      moreover have "unat (sh_index sh) < length slots"
        using Cons.prems(1,3) by (simp add: slots_of_length)
      moreover have "slots_of shs (slots[unat (sh_index sh) := Some (shs ! unat (sh_index sh))])"
        using Cons.prems(1,3) by (simp add: slots_of_update)
      ultimately show ?thesis
        using busy l Some IH [OF into] by (simp add: io_simps)
    qed
  qed
qed (simp add: io_return_def)

lemma backfill_loop_keeps:
  assumes "\<And>p at. keeps v (st_fetch_shard tr p at)"
  shows "keeps v (backfill_loop tr hash ns b k bad metas slots av filled)"
proof (induction metas arbitrary: slots av filled)
  case (Cons sh metas)
  have "keeps v (case got of None \<Rightarrow> backfill_loop tr hash ns b k bad metas slots av filled
        | Some bs \<Rightarrow> if unat (sh_index sh) < length slots
            then backfill_loop tr hash ns b k bad metas (slots[unat (sh_index sh) := Some bs]) (av + 1) (filled + 1)
            else io_throw Panic)" for got
    using Cons by (cases got) simp_all
  then show ?case
    using Cons by (auto intro!: frame_rules load_from_peers_keeps assms)
qed simp

context coded_vault
begin

lemma backfill_ok:
  assumes "repair_uses ms ba ec tr rs" and "points_into (cr_sha256_hex (rsh_crypto rs)) shs (mf_shards m)"
    and "no_second_preimage (cr_sha256_hex (rsh_crypto rs)) shs" and "slots_of shs slots"
  obtains slots' n w' where "backfill_from_peers rs ns b m slots bad w = (Inr (slots', n), w')"
    and "slots_of shs slots'" and "mview w' = mview w" and "aview w' = aview w"
proof (cases "rsh_transport rs")
  case None
  then show ?thesis
    using that [of slots 0 w] assms(4) by (simp add: backfill_from_peers_def io_return_def)
next
  case (Some t)
  then have t: "t = tr" using assms(1) by (simp add: repair_uses_def)
  note keep = keepsD [OF backfill_loop_keeps [of mview tr, OF peers_keep(3)]]
    keepsD [OF backfill_loop_keeps [of aview tr, OF peers_keep(4)]]
  show ?thesis
    using backfill_loop_slots [OF assms(2-4), of tr ns b "unat (ep_k (mf_erasure m))" bad "survivors slots" 0 w]
      Some t that keep by (auto simp: backfill_from_peers_def Let_def)
qed

lemma classify_Cons_Inr:
  assumes "classify_shards rs ns b (sh # shs) w = (Inr (slots, bad), w')"
  obtains (Valid) x w1 slots' where "ba_get_shard (rsh_anchor rs) (shard_ref_new ns b (sh_index sh)) w = (Inr x, w1)"
    and "cr_sha256_hex (rsh_crypto rs) x = sh_sha256 sh" and "slots = Some x # slots'"
    and "classify_shards rs ns b shs w1 = (Inr (slots', bad), w')"
  | (Bad) r w1 slots' bad' where "ba_get_shard (rsh_anchor rs) (shard_ref_new ns b (sh_index sh)) w = (r, w1)"
    and "slots = None # slots'" and "bad = sh_index sh # bad'"
    and "classify_shards rs ns b shs w1 = (Inr (slots', bad'), w')"
    and "(\<exists>x. r = Inr x \<and> cr_sha256_hex (rsh_crypto rs) x \<noteq> sh_sha256 sh) \<or> r = Inl NotFound"
proof -
  let ?at = "shard_ref_new ns b (sh_index sh)"
  obtain r w1 where get: "ba_get_shard (rsh_anchor rs) ?at w = (r, w1)" by force
  consider (Good) x where "r = Inr x" "cr_sha256_hex (rsh_crypto rs) x = sh_sha256 sh"
    | (Corrupt) "(\<exists>x. r = Inr x \<and> cr_sha256_hex (rsh_crypto rs) x \<noteq> sh_sha256 sh) \<or> r = Inl NotFound"
    | (Error) e where "r = Inl e" "e \<noteq> NotFound"
    by (cases r) auto
  then show thesis
  proof cases
    case Good
    then show ?thesis using assms get Valid by (auto simp: io_simps io_bind_Inr io_return_iff)
  next
    case Corrupt
    then show ?thesis using assms get Bad by (auto simp: io_simps io_bind_Inr io_return_iff)
  next
    case Error
    then show ?thesis using assms get by (cases e) (auto simp: io_simps)
  qed
qed

lemma classify_ok:
  assumes rs: "repair_uses ms ba ec tr rs" and plain: "plain_id (ns_str ns)" "plain_id (blob_str b)"
    and "points_into (cr_sha256_hex (rsh_crypto rs)) shs metas"
    and hash: "no_second_preimage (cr_sha256_hex (rsh_crypto rs)) shs"
    and "classify_shards rs ns b metas w = (Inr (slots, bad), w')"
  shows "list_all2 (\<lambda>sh x. x = (if aview w (shard_ref_new ns b (sh_index sh)) = Some (shs ! unat (sh_index sh))
       then Some (shs ! unat (sh_index sh)) else None)) metas slots \<and>
    bad = map (sh_index \<circ> fst) (filter (\<lambda>p. snd p = None) (zip metas slots)) \<and>
    mview w' = mview w \<and> aview w' = aview w"
  using assms(4,6)
proof (induction metas arbitrary: w slots bad)
  case (Cons sh metas)
  let ?at = "shard_ref_new ns b (sh_index sh)"
  have plain_at: "plain_ref ?at" using plain by (simp add: plain_ref_def shard_ref_new_def)
  have anchor: "rsh_anchor rs = ba" using rs by (simp add: repair_uses_def)
  from Cons.prems(2) show ?case
  proof (cases rule: classify_Cons_Inr)
    case (Valid x w1 slots')
    have "aview w ?at = Some x" using get_found [OF plain_at] Valid(1) anchor by simp
    moreover have "x = shs ! unat (sh_index sh)"
      using Valid(2) Cons.prems(1) hash by (fastforce simp: no_second_preimage_def)
    moreover have "mview w1 = mview w" "aview w1 = aview w"
      using keepsD [OF anchor_keeps_meta(2)] keepsD [OF get_keeps] Valid(1) anchor by simp_all
    ultimately show ?thesis using Cons.IH [OF _ Valid(4)] Valid(3) Cons.prems(1) by simp
  next
    case (Bad r w1 slots' bad')
    have "mview w1 = mview w" "aview w1 = aview w"
      using keepsD [OF anchor_keeps_meta(2)] keepsD [OF get_keeps] Bad(1) anchor by simp_all
    moreover have "aview w ?at \<noteq> Some (shs ! unat (sh_index sh))"
      using Bad(5) get_found [OF plain_at] get_missing [OF plain_at] Bad(1) anchor Cons.prems(1) by fastforce
    ultimately show ?thesis using Cons.IH [OF _ Bad(4)] Bad(2,3) Cons.prems(1) by simp
  qed
qed (simp add: io_return_def)

lemma rewrite_Cons:
  assumes "repair_uses ms ba ec tr rs" and "rewrite_bad rs ns b bad fresh (sh # shs) n w = (r, w')"
    and "unat (sh_index sh) < length fresh"
  obtains (Skip) "sh_index sh \<notin> set bad" and "rewrite_bad rs ns b bad fresh shs n w = (r, w')"
  | (Failed) e where "sh_index sh \<in> set bad" and "r = Inl (Fail e)"
    and "ba_put_shard ba (shard_ref_new ns b (sh_index sh)) (fresh ! unat (sh_index sh)) w = (Inl e, w')"
  | (Stored) w1 w2 where "sh_index sh \<in> set bad"
    and "ba_put_shard ba (shard_ref_new ns b (sh_index sh)) (fresh ! unat (sh_index sh)) w = (Inr (), w1)"
    and "aview w2 = aview w1" and "mview w2 = mview w1"
    and "rewrite_bad rs ns b bad fresh shs (n + 1) w2 = (r, w')"
proof (cases "sh_index sh \<in> set bad")
  case True
  let ?at = "shard_ref_new ns b (sh_index sh)"
  have anchor: "rsh_anchor rs = ba" using assms(1) by (simp add: repair_uses_def)
  obtain x w1 where put: "ba_put_shard ba ?at (fresh ! unat (sh_index sh)) w = (x, w1)" by force
  obtain w2 where rep: "re_replicate rs ?at (fresh ! unat (sh_index sh)) sh w1 = ((), w2)"
    by (metis (full_types) old.unit.exhaust surj_pair)
  have "aview w2 = aview w1" "mview w2 = mview w1"
    using keepsD [OF re_replicate_keeps [OF assms(1) peers_keep(2)] rep]
      keepsD [OF re_replicate_keeps [OF assms(1) peers_keep(1)] rep] by simp_all
  with True put rep assms(2,3) anchor show thesis
    by (cases x) (auto simp: Let_def io_inv io_simps io_map_err_def intro: Failed Stored)
qed (use assms(2) Skip in simp)

lemma rewrite_keeps_meta:
  assumes "repair_uses ms ba ec tr rs" and "points_into hash fresh metas"
    and "rewrite_bad rs ns b bad fresh metas n w = (r, w')"
  shows "mview w' = mview w"
  using assms(2,3)
proof (induction metas arbitrary: n w)
  case (Cons sh metas)
  then have into: "unat (sh_index sh) < length fresh" "points_into hash fresh metas" by simp_all
  from assms(1) Cons.prems(2) into(1) show ?case
    by (cases rule: rewrite_Cons) (use Cons.IH [OF into(2)] keepsD [OF anchor_keeps_meta(1)] in metis)+
qed (simp add: io_return_def)

lemma rewrite_kept:
  assumes "repair_uses ms ba ec tr rs" and plain: "plain_id (ns_str ns)" "plain_id (blob_str b)"
    and "points_into hash fresh metas" and "rewrite_bad rs ns b bad fresh metas n w = (r, w')"
    and other: "\<forall>sh\<in>set metas. sh_index sh \<in> set bad \<longrightarrow> q \<noteq> shard_ref_new ns b (sh_index sh)"
  shows "aview w' q = aview w q"
  using assms(4,5,6)
proof (induction metas arbitrary: n w)
  case (Cons sh metas)
  let ?at = "shard_ref_new ns b (sh_index sh)"
  have plain_at: "plain_ref ?at" using plain by (simp add: plain_ref_def shard_ref_new_def)
  have into: "unat (sh_index sh) < length fresh" "points_into hash fresh metas"
    and q: "sh_index sh \<in> set bad \<longrightarrow> q \<noteq> ?at"
      "\<forall>sh\<in>set metas. sh_index sh \<in> set bad \<longrightarrow> q \<noteq> shard_ref_new ns b (sh_index sh)"
    using Cons.prems by simp_all
  from assms(1) Cons.prems(2) into(1) show ?case
  proof (cases rule: rewrite_Cons)
    case Skip
    then show ?thesis using Cons.IH [OF into(2) _ q(2)] by simp
  next
    case (Failed e)
    then show ?thesis using put_failed [OF plain_at Failed(3)] q(1) by simp
  next
    case (Stored w1 w2)
    then show ?thesis
      using Cons.IH [OF into(2) Stored(5) q(2)] put_stored [OF plain_at Stored(2)] Stored(3) q(1) by simp
  qed
qed (simp add: io_return_def)

lemma rewrite_stored:
  assumes "repair_uses ms ba ec tr rs" and plain: "plain_id (ns_str ns)" "plain_id (blob_str b)"
    and "points_into hash fresh metas" and "rewrite_bad rs ns b bad fresh metas n w = (Inr k, w')"
  shows "k = n + length (filter (\<lambda>sh. sh_index sh \<in> set bad) metas) \<and>
    (\<forall>sh\<in>set metas. sh_index sh \<in> set bad \<longrightarrow>
       aview w' (shard_ref_new ns b (sh_index sh)) = Some (fresh ! unat (sh_index sh)))"
  using assms(4,5)
proof (induction metas arbitrary: n w)
  case (Cons sh metas)
  let ?at = "shard_ref_new ns b (sh_index sh)"
  have plain_at: "plain_ref ?at" using plain by (simp add: plain_ref_def shard_ref_new_def)
  have into: "unat (sh_index sh) < length fresh" "points_into hash fresh metas" using Cons.prems by simp_all
  from assms(1) Cons.prems(2) into(1) show ?case
  proof (cases rule: rewrite_Cons)
    case Skip
    then show ?thesis using Cons.IH [OF into(2)] by auto
  next
    case (Stored w1 w2)
    have "aview w' ?at = Some (fresh ! unat (sh_index sh))"
    proof (cases "\<exists>sh'\<in>set metas. sh_index sh' = sh_index sh")
      case True
      then show ?thesis using Cons.IH [OF into(2) Stored(5)] Stored(1) by force
    next
      case False
      then have "\<forall>sh'\<in>set metas. ?at \<noteq> shard_ref_new ns b (sh_index sh')" by (auto simp: shard_ref_new_def)
      then show ?thesis
        using rewrite_kept [OF assms(1) plain into(2) Stored(5)] put_stored [OF plain_at Stored(2)] Stored(3) by simp
    qed
    then show ?thesis using Cons.IH [OF into(2) Stored(5)] Stored(1) by auto
  qed simp
qed (simp add: io_return_def)

lemma classified:
  assumes rs: "repair_uses ms ba ec tr rs" and plain: "plain_id (ns_str ns)" "plain_id (blob_str b)"
    and desc: "describes (cr_sha256_hex (rsh_crypto rs)) 0 shs metas" and len: "length shs \<le> 2 ^ 16"
    and hash: "no_second_preimage (cr_sha256_hex (rsh_crypto rs)) shs"
    and run: "classify_shards rs ns b metas w = (Inr (slots, bad), w')"
  shows "slots_of shs slots" "length bad = length (filter (\<lambda>sh. sh_index sh \<in> set bad) metas)"
    "length bad = length shs - survivors slots"
    "j < length shs \<Longrightarrow> word_of_nat j \<notin> set bad \<Longrightarrow> aview w (shard_ref_new ns b (word_of_nat j)) = Some (shs ! j)"
    "mview w' = mview w" "aview w' = aview w"
    "survivors slots = card {i. i < length shs \<and> aview w (shard_ref_new ns b (word_of_nat i)) = Some (shs ! i)}"
proof -
  note c = classify_ok [OF rs plain describes_points_into [OF desc len] hash run]
  have n: "length metas = length shs" "length slots = length shs"
    using describes_length [OF desc] c list_all2_lengthD by fastforce+
  have at: "sh_index (metas ! i) = word_of_nat i" "unat (sh_index (metas ! i)) = i" if "i < length shs" for i
    using that describes_nth [OF desc that] describes_index [OF desc len that] by simp_all
  have nth: "slots ! i = (if aview w (shard_ref_new ns b (word_of_nat i)) = Some (shs ! i) then Some (shs ! i) else None)"
    if "i < length shs" for i
    using c that n at [OF that] by (auto simp: list_all2_conv_all_nth)
  show "survivors slots = card {i. i < length shs \<and> aview w (shard_ref_new ns b (word_of_nat i)) = Some (shs ! i)}"
    unfolding survivors_def length_filter_conv_card using nth n(2)
    by (intro arg_cong [where f = card]) (auto split: if_splits)
  show "slots_of shs slots" using nth n by (auto simp: slots_of_nth)
  have inj: "i = i'" if "i < length shs" "i' < length shs" "sh_index (metas ! i) = sh_index (metas ! i')" for i i'
    using at(2) that by metis
  have bad: "sh_index (fst p) \<in> set bad \<longleftrightarrow> snd p = None" if p: "p \<in> set (zip metas slots)" for p
  proof -
    obtain i where i: "i < length shs" "p = (metas ! i, slots ! i)" using p n by (auto simp: set_zip)
    show ?thesis
    proof
      assume "sh_index (fst p) \<in> set bad"
      then obtain p' where p': "p' \<in> set (zip metas slots)" "snd p' = None" "sh_index (fst p') = sh_index (fst p)"
        using c by auto
      then obtain i' where "i' < length shs" "p' = (metas ! i', slots ! i')" using n by (auto simp: set_zip)
      then show "snd p = None" using inj i p' by auto
    qed (use c p in force)
  qed
  have "filter (\<lambda>sh. sh_index sh \<in> set bad) metas =
      map fst (filter (\<lambda>p. sh_index (fst p) \<in> set bad) (zip metas slots))"
    using n by (simp add: filter_zip_fst [of metas slots])
  also have "\<dots> = map fst (filter (\<lambda>p. snd p = None) (zip metas slots))"
    using bad by (simp cong: filter_cong)
  finally show "length bad = length (filter (\<lambda>sh. sh_index sh \<in> set bad) metas)" using c by simp
  have "length (filter (\<lambda>p. snd p = None) (zip metas slots)) = length (filter (\<lambda>x. x = None) slots)"
    using n by (simp add: filter_zip_snd [of metas slots])
  then show "length bad = length shs - survivors slots"
    using c n sum_length_filter_compl [of "\<lambda>x. x \<noteq> None" slots] by (simp add: survivors_def)
  show "aview w (shard_ref_new ns b (word_of_nat j)) = Some (shs ! j)"
    if "j < length shs" "word_of_nat j \<notin> set bad"
  proof -
    have "(metas ! j, slots ! j) \<in> set (zip metas slots)" using that n by (auto simp: set_zip)
    then show ?thesis using bad [of "(metas ! j, slots ! j)"] nth [OF that(1)] at [OF that(1)] that
      by (auto split: if_splits)
  qed
  show "mview w' = mview w" "aview w' = aview w" using c by simp_all
qed

lemma classify_keeps:
  assumes "repair_uses ms ba ec tr rs" and "\<And>at. keeps v (ba_get_shard ba at)"
  shows "keeps v (classify_shards rs ns b metas)"
proof (induction metas)
  case (Cons sh metas)
  have anchor: "rsh_anchor rs = ba" using assms(1) by (simp add: repair_uses_def)
  have push: "keeps v (case r of Inl NotFound \<Rightarrow> io_bind (classify_shards rs ns b metas)
        (\<lambda>(collected, bad). io_return (None # collected, sh_index sh # bad))
      | Inl other \<Rightarrow> io_throw other
      | Inr bs \<Rightarrow> if cr_sha256_hex (rsh_crypto rs) bs = sh_sha256 sh
          then io_bind (classify_shards rs ns b metas) (\<lambda>(collected, bad). io_return (Some bs # collected, bad))
          else io_bind (classify_shards rs ns b metas)
            (\<lambda>(collected, bad). io_return (None # collected, sh_index sh # bad)))" for r
    using Cons by (cases r) (auto intro!: frame_rules split: port_error.splits)
  then show ?case
    by (auto simp: anchor intro!: frame_rules assms(2) push)
qed simp

lemma rewrite_no_panic:
  assumes "repair_uses ms ba ec tr rs" and "points_into hash fresh metas"
  shows "rewrite_bad rs ns b bad fresh metas n w \<noteq> (Inl Panic, w')"
proof
  assume "rewrite_bad rs ns b bad fresh metas n w = (Inl Panic, w')"
  with assms(2) show False
  proof (induction metas arbitrary: n w)
    case (Cons sh metas)
    then have into: "unat (sh_index sh) < length fresh" "points_into hash fresh metas" by simp_all
    from assms(1) Cons.prems(2) into(1) show ?case
      by (cases rule: rewrite_Cons) (use Cons.IH [OF into(2)] in auto)
  qed (simp add: io_return_def)
qed

lemma backfill_step:
  assumes "repair_uses ms ba ec tr rs" and "points_into (cr_sha256_hex (rsh_crypto rs)) shs (mf_shards m)"
    and "no_second_preimage (cr_sha256_hex (rsh_crypto rs)) shs" and "slots_of shs slots"
  obtains slots' n w' where
    "(if \<not> is_reconstructable m h then backfill_from_peers rs ns b m slots bad else io_return (slots, 0)) w
       = (Inr (slots', n), w')"
    and "slots_of shs slots'" and "mview w' = mview w" and "aview w' = aview w"
proof (cases "is_reconstructable m h")
  case True
  then show ?thesis using that [of slots 0 w] assms(4) by (simp add: io_return_def)
next
  case False
  obtain slots' n w' where "backfill_from_peers rs ns b m slots bad w = (Inr (slots', n), w')"
      "slots_of shs slots'" "mview w' = mview w" "aview w' = aview w"
    by (rule backfill_ok [OF assms])
  with False show ?thesis using that [of slots' n w'] by simp
qed

lemma repair_cases:
  assumes rs: "repair_uses ms ba ec tr rs" and plain: "plain_id (ns_str ns)" "plain_id (blob_str b)"
    and m: "mv_manifests (mview w) (ns, b) = Some m" and sup: "supported (mf_erasure m)"
    and rec: "records ec (cr_sha256_hex (rsh_crypto rs)) d shs m"
    and hash: "no_second_preimage (cr_sha256_hex (rsh_crypto rs)) shs" and len: "length d < 2 ^ 64"
    and run: "repair_shards_execute rs ns b w = (r, w')"
  obtains (Stopped) e where "r = Inl (Fail e)" and "mview w' = mview w" and "aview w' = aview w"
  | (Intact) w1 slots where "classify_shards rs ns b (mf_shards m) w1 = (Inr (slots, []), w')"
    and "aview w1 = aview w" and "mview w' = mview w" and "aview w' = aview w"
    and "r = Inr \<lparr>rr_blob_id = b, rr_checked = length (mf_shards m), rr_healthy = length (mf_shards m),
           rr_repaired = 0, rr_still_bad = 0, rr_unrepairable = False\<rparr>"
  | (Lost) w1 slots bad w2 where "classify_shards rs ns b (mf_shards m) w1 = (Inr (slots, bad), w2)"
    and "bad \<noteq> []" and "mview w' = mview w" and "aview w' = aview w"
    and "r = Inr \<lparr>rr_blob_id = b, rr_checked = length (mf_shards m),
           rr_healthy = length (mf_shards m) - length bad, rr_repaired = 0, rr_still_bad = length bad,
           rr_unrepairable = True\<rparr>"
  | (Rewrite) w1 slots bad w2 w3 z where "classify_shards rs ns b (mf_shards m) w1 = (Inr (slots, bad), w2)"
    and "aview w1 = aview w" and "mview w3 = mview w" and "aview w3 = aview w"
    and "rewrite_bad rs ns b bad shs (mf_shards m) 0 w3 = (z, w')"
    and "r = map_sum id (\<lambda>repaired. \<lparr>rr_blob_id = b, rr_checked = length (mf_shards m),
           rr_healthy = length (mf_shards m) - length bad + repaired, rr_repaired = repaired,
           rr_still_bad = 0, rr_unrepairable = False\<rparr>) z"
proof -
  have us [simp]: "rsh_metadata rs = ms" "rsh_erasure rs = ec" using rs by (simp_all add: repair_uses_def)
  let ?n = "length (mf_shards m)"
  have enc: "ec_encode ec d (mf_erasure m) = Inr shs" and desc: "describes (cr_sha256_hex (rsh_crypto rs)) 0 shs (mf_shards m)"
    and dlen: "unat (mf_ciphertext_len m) = length d"
    using rec len by (simp_all add: records_def unat_of_nat_small)
  have n16: "length shs \<le> 2 ^ 16" using encode_bound [OF sup enc] by simp
  obtain x w1 where gm: "ms_get_manifest ms ns b w = (x, w1)" by force
  note v1 = view_steps(4) [OF gm]
  show thesis
  proof (cases x)
    case (Inl e)
    then show ?thesis using run gm v1 Stopped [of e] by (simp add: repair_shards_execute_def io_bind_def io_map_err_def)
  next
    case (Inr found)
    then have found: "found = Some m" using get_manifest gm m by metis
    obtain y w2 where cl: "classify_shards rs ns b (mf_shards m) w1 = (y, w2)" by force
    have v2: "mview w2 = mview w1" "aview w2 = aview w1"
      using keepsD [OF classify_keeps [OF rs anchor_keeps_meta(2)] cl] keepsD [OF classify_keeps [OF rs get_keeps] cl] .
    show ?thesis
    proof (cases y)
      case (Inl e)
      then show ?thesis using run gm cl v1 v2 Inr found Stopped [of e]
        by (simp add: repair_shards_execute_def io_bind_def io_map_err_def io_lift_def)
    next
      case (Inr p)
      then obtain slots bad where p: "y = Inr (slots, bad)" by (cases p) auto
      note C = classified [OF rs plain desc n16 hash cl [unfolded p]]
      obtain slots' k w3 where bf: "(if \<not> is_reconstructable m (?n - length bad)
            then backfill_from_peers rs ns b m slots bad else io_return (slots, 0)) w2 = (Inr (slots', k), w3)"
          and s': "slots_of shs slots'" and v3: "mview w3 = mview w2" "aview w3 = aview w2"
        by (rule backfill_step [OF rs describes_points_into [OF desc n16] hash C(1)])
      obtain z w4 where rw: "rewrite_bad rs ns b bad shs (mf_shards m) 0 w3 = (z, w4)" by force
      note ev = run [unfolded repair_shards_execute_def] gm cl [unfolded p] \<open>x = Inr found\<close> found
      show ?thesis
      proof (cases "bad = []")
        case True
        then show ?thesis using ev v1 v2 Intact [of w1 slots] p cl
          by (simp add: io_bind_def io_map_err_def io_lift_def io_return_def Let_def)
      next
        case bad: False
        show ?thesis
        proof (cases "is_reconstructable m (survivors slots')")
          case False
          then show ?thesis using ev bf bad v1 v2 v3 Lost [of w1 slots bad w2] p cl
            by (simp add: io_bind_def io_map_err_def io_lift_def io_return_def Let_def)
        next
          case True
          then have "ec_decode ec slots' (mf_erasure m) (length d) = Inr d"
            using decode_any_k [OF sup enc s'] by (simp add: is_reconstructable_def)
          then show ?thesis using ev bf bad True v1 v2 v3 rw enc dlen p cl Rewrite [of w1 slots bad w2 w3 z]
            by (cases z) (simp_all add: io_bind_def io_map_err_def io_lift_def io_return_def Let_def)
        qed
      qed
    qed
  qed
qed

lemma repair_run:
  assumes rs: "repair_uses ms ba ec tr rs" and plain: "plain_id (ns_str ns)" "plain_id (blob_str b)"
    and m: "mv_manifests (mview w) (ns, b) = Some m" and sup: "supported (mf_erasure m)"
    and rec: "records ec (cr_sha256_hex (rsh_crypto rs)) d shs m"
    and hash: "no_second_preimage (cr_sha256_hex (rsh_crypto rs)) shs" and len: "length d < 2 ^ 64"
    and run: "repair_shards_execute rs ns b w = (r, w')"
  shows "mview w' = mview w \<and> r \<noteq> Inl Panic \<and>
    (\<forall>q. sr_namespace q \<noteq> ns \<or> sr_blob_id q \<noteq> b \<longrightarrow> aview w' q = aview w q) \<and>
    (\<forall>rep. r = Inr rep \<longrightarrow> repair_post ns b shs (aview w) (aview w') rep)"
proof -
  have enc: "ec_encode ec d (mf_erasure m) = Inr shs" and desc: "describes (cr_sha256_hex (rsh_crypto rs)) 0 shs (mf_shards m)"
    using rec by (simp_all add: records_def)
  have n16: "length shs \<le> 2 ^ 16" using encode_bound [OF sup enc] by simp
  note into = describes_points_into [OF desc n16] and n = describes_length [OF desc]
  note cl = classified [OF rs plain desc n16 hash]
  from assms show ?thesis
  proof (cases rule: repair_cases)
    case Stopped
    then show ?thesis by simp
  next
    case Intact
    then show ?thesis using cl(4) [OF Intact(1)] n by (simp add: repair_post_def)
  next
    case (Lost w1 slots bad w2)
    have "length bad \<le> length shs" "bad \<noteq> []" using cl(3) [OF Lost(1)] Lost(2) by simp_all
    then show ?thesis using Lost n by (simp add: repair_post_def)
  next
    case (Rewrite w1 slots bad w2 w3 z)
    have others: "aview w' q = aview w q" if "sr_namespace q \<noteq> ns \<or> sr_blob_id q \<noteq> b" for q
    proof -
      have "\<forall>sh :: shard. q \<noteq> shard_ref_new ns b (sh_index sh)" using that by (auto simp: shard_ref_new_def)
      then show ?thesis using rewrite_kept [OF rs plain into Rewrite(5), of q] Rewrite(4) by simp
    qed
    show ?thesis
    proof (cases z)
      case (Inl f)
      then show ?thesis
        using rewrite_no_panic [OF rs into] rewrite_keeps_meta [OF rs into Rewrite(5)] Rewrite others by auto
    next
      case (Inr k)
      note st = rewrite_stored [OF rs plain into Rewrite(5) [unfolded Inr]]
      have at: "sh_index (mf_shards m ! j) = word_of_nat j" "mf_shards m ! j \<in> set (mf_shards m)" 
        if "j < length shs" for j using describes_nth [OF desc that] that n by simp_all
      have k: "k = length bad" "length bad \<le> length shs"
        using st cl(2,3) [OF Rewrite(1)] by simp_all
      have "aview w' (shard_ref_new ns b (word_of_nat j)) = Some (shs ! j)" if j: "j < length shs" for j
      proof (cases "word_of_nat j \<in> set bad")
        case True
        then show ?thesis using st at [OF j] describes_index [OF desc n16 j] by force
      next
        case False
        then have "\<forall>sh\<in>set (mf_shards m). sh_index sh \<in> set bad \<longrightarrow>
            shard_ref_new ns b (word_of_nat j) \<noteq> shard_ref_new ns b (sh_index sh)"
          by (auto simp: shard_ref_new_def)
        then show ?thesis
          using rewrite_kept [OF rs plain into Rewrite(5)] cl(4) [OF Rewrite(1) j False] Rewrite(2,4) by simp
      qed
      then show ?thesis
        using rewrite_keeps_meta [OF rs into Rewrite(5)] Rewrite others k n Inr by (simp add: repair_post_def)
    qed
  qed
qed

end

section \<open>Repair makes progress\<close>

context coded_vault
begin

text \<open>
  \<open>good\<close> is a condition of the world under which the anchor answers every read with the shard or
  \<open>NotFound\<close> and accepts every write, preserved by both and by peer traffic.
\<close>

lemma classify_runs:
  assumes rs: "repair_uses ms ba ec tr rs" and plain: "plain_id (ns_str ns)" "plain_id (blob_str b)"
    and reads: "\<And>at w. good w \<Longrightarrow> plain_ref at \<Longrightarrow>
      \<exists>r w'. ba_get_shard ba at w = (r, w') \<and> good w' \<and> ((\<exists>x. r = Inr x) \<or> r = Inl NotFound)"
    and "good w"
  shows "\<exists>slots bad w'. classify_shards rs ns b metas w = (Inr (slots, bad), w') \<and> good w'"
  using assms(5)
proof (induction metas arbitrary: w)
  case (Cons sh metas)
  have anchor: "rsh_anchor rs = ba" using rs by (simp add: repair_uses_def)
  have "plain_ref (shard_ref_new ns b (sh_index sh))" using plain by (simp add: plain_ref_def shard_ref_new_def)
  then obtain r w1 where get: "ba_get_shard ba (shard_ref_new ns b (sh_index sh)) w = (r, w1)" "good w1"
      "(\<exists>x. r = Inr x) \<or> r = Inl NotFound"
    using reads [OF Cons.prems] by blast
  obtain slots bad w2 where "classify_shards rs ns b metas w1 = (Inr (slots, bad), w2)" "good w2"
    using Cons.IH [OF get(2)] by blast
  with get anchor show ?case by (auto simp: io_simps)
qed (simp add: io_return_def)

lemma rewrite_runs:
  assumes rs: "repair_uses ms ba ec tr rs" and plain: "plain_id (ns_str ns)" "plain_id (blob_str b)"
    and into: "points_into hash fresh metas"
    and store: "\<And>at x w. good w \<Longrightarrow> plain_ref at \<Longrightarrow> \<exists>w'. ba_put_shard ba at x w = (Inr (), w') \<and> good w'"
    and peers: "\<And>at x sh w u w'. good w \<Longrightarrow> re_replicate rs at x sh w = (u, w') \<Longrightarrow> good w'"
    and "good w"
  shows "\<exists>k w'. rewrite_bad rs ns b bad fresh metas n w = (Inr k, w') \<and> good w'"
  using into assms(7)
proof (induction metas arbitrary: n w)
  case (Cons sh metas)
  let ?at = "shard_ref_new ns b (sh_index sh)" and ?x = "fresh ! unat (sh_index sh)"
  have anchor: "rsh_anchor rs = ba" using rs by (simp add: repair_uses_def)
  have "plain_ref ?at" using plain by (simp add: plain_ref_def shard_ref_new_def)
  then obtain w1 where put: "ba_put_shard ba ?at ?x w = (Inr (), w1)" "good w1" using store Cons.prems(2) by blast
  obtain w2 where rep: "re_replicate rs ?at ?x sh w1 = ((), w2)" by (metis (full_types) old.unit.exhaust surj_pair)
  have "good w2" using peers [OF put(2) rep] .
  then show ?case
    using Cons put(1) rep anchor by (simp add: Let_def io_bind_def io_map_err_def io_read_def)
qed (simp add: io_return_def)

lemma repair_heals:
  assumes rs: "repair_uses ms ba ec tr rs" and plain: "plain_id (ns_str ns)" "plain_id (blob_str b)"
    and gm: "ms_get_manifest ms ns b w = (Inr (Some m), w1)" and sup: "supported (mf_erasure m)"
    and rec: "records ec (cr_sha256_hex (rsh_crypto rs)) d shs m"
    and hash: "no_second_preimage (cr_sha256_hex (rsh_crypto rs)) shs" and len: "length d < 2 ^ 64"
    and k: "unat (ep_k (mf_erasure m)) \<le> card {i. i < length shs \<and> aview w (shard_ref_new ns b (word_of_nat i)) = Some (shs ! i)}"
    and reads: "\<And>at w. good w \<Longrightarrow> plain_ref at \<Longrightarrow>
      \<exists>r w'. ba_get_shard ba at w = (r, w') \<and> good w' \<and> ((\<exists>x. r = Inr x) \<or> r = Inl NotFound)"
    and store: "\<And>at x w. good w \<Longrightarrow> plain_ref at \<Longrightarrow> \<exists>w'. ba_put_shard ba at x w = (Inr (), w') \<and> good w'"
    and peers: "\<And>at x sh w u w'. good w \<Longrightarrow> re_replicate rs at x sh w = (u, w') \<Longrightarrow> good w'"
    and "good w1"
  shows "\<exists>rep w'. repair_shards_execute rs ns b w = (Inr rep, w') \<and> \<not> rr_unrepairable rep \<and> good w'"
proof -
  have us [simp]: "rsh_metadata rs = ms" "rsh_erasure rs = ec" using rs by (simp_all add: repair_uses_def)
  have enc: "ec_encode ec d (mf_erasure m) = Inr shs" and desc: "describes (cr_sha256_hex (rsh_crypto rs)) 0 shs (mf_shards m)"
    and dlen: "unat (mf_ciphertext_len m) = length d"
    using rec len by (simp_all add: records_def unat_of_nat_small)
  have n16: "length shs \<le> 2 ^ 16" using encode_bound [OF sup enc] by simp
  note into = describes_points_into [OF desc n16] and n = describes_length [OF desc]
  obtain slots bad w2 where cl: "classify_shards rs ns b (mf_shards m) w1 = (Inr (slots, bad), w2)" "good w2"
  proof -
    have "\<exists>slots bad w'. classify_shards rs ns b (mf_shards m) w1 = (Inr (slots, bad), w') \<and> good w'"
      by (rule classify_runs [OF rs plain, where good = good]) (fact reads \<open>good w1\<close>)+
    then show thesis using that by blast
  qed
  note C = classified [OF rs plain desc n16 hash cl(1)]
  have surv: "unat (ep_k (mf_erasure m)) \<le> survivors slots"
    using k C(7) view_steps(4) [OF gm] by simp
  moreover have "survivors slots \<le> length shs" using survivors_le slots_of_length [OF C(1)] by metis
  ultimately have recon: "is_reconstructable m (length (mf_shards m) - length bad)" "is_reconstructable m (survivors slots)"
    using C(3) n by (simp_all add: is_reconstructable_def)
  have dec: "ec_decode ec slots (mf_erasure m) (length d) = Inr d" using decode_any_k [OF sup enc C(1) surv] .
  have "\<exists>z w3. rewrite_bad rs ns b bad shs (mf_shards m) 0 w2 = (Inr z, w3) \<and> good w3"
    by (rule rewrite_runs [OF rs plain into, where good = good]) (fact store peers cl(2))+
  then obtain z w3 where rw: "rewrite_bad rs ns b bad shs (mf_shards m) 0 w2 = (Inr z, w3)" "good w3" by blast
  show ?thesis
    using gm cl recon dec enc rw dlen
    by (simp add: repair_shards_execute_def io_bind_def io_map_err_def io_lift_def io_return_def Let_def)
qed

end

section \<open>Pruning keeps the newest versions and every held one\<close>

text \<open>Manifests are stored under their own namespace and blob id.\<close>

definition keyed :: "meta_view \<Rightarrow> bool" where
  "keyed v \<longleftrightarrow> (\<forall>ns b m. mv_manifests v (ns, b) = Some m \<longrightarrow> mf_namespace m = ns \<and> mf_blob_id m = b)"

lemma keyed_updates [simp]:
  "keyed v \<Longrightarrow> keyed (add_manifest m v)" "keyed v \<Longrightarrow> keyed (drop_manifest ns b v)"
  "keyed (add_contract c v) \<longleftrightarrow> keyed v" "keyed (add_namespace n v) \<longleftrightarrow> keyed v"
  by (auto simp: keyed_def meta_view_updates)

definition versions_of :: "meta_view \<Rightarrow> namespace_id \<Rightarrow> string \<Rightarrow> manifest set" where
  "versions_of v ns object_id = {m. \<exists>b. mv_manifests v (ns, b) = Some m \<and> mf_object_id m = Some object_id}"

definition drop_manifests :: "namespace_id \<Rightarrow> blob_id set \<Rightarrow> meta_view \<Rightarrow> meta_view" where
  "drop_manifests ns bs v = v\<lparr>mv_manifests := (\<lambda>(n, b). if n = ns \<and> b \<in> bs then None else mv_manifests v (n, b))\<rparr>"

definition drop_blobs :: "namespace_id \<Rightarrow> blob_id set \<Rightarrow> (shard_ref \<rightharpoonup> bytes) \<Rightarrow> (shard_ref \<rightharpoonup> bytes)" where
  "drop_blobs ns bs a = (\<lambda>r. if sr_namespace r = ns \<and> sr_blob_id r \<in> bs then None else a r)"

lemma drop_manifests_simps [simp]:
  "drop_manifests ns {} v = v"
  "drop_manifests ns bs (drop_manifest ns b v) = drop_manifests ns (insert b bs) v"
  by (auto simp: drop_manifests_def drop_manifest_def fun_eq_iff intro!: meta_view.equality)

lemma drop_blobs_simps [simp]:
  "drop_blobs ns {} a = a"
  "drop_blobs ns bs (drop_blob ns b a) = drop_blobs ns (insert b bs) a"
  by (auto simp: drop_blobs_def drop_blob_def fun_eq_iff)

text \<open>The versions a run may delete: older than the newest \<open>keep\<close> and out of their hold.\<close>

definition prunable :: "retention_policy \<Rightarrow> timestamp \<Rightarrow> nat \<Rightarrow> manifest list \<Rightarrow> manifest list" where
  "prunable ret now keep vs = filter (\<lambda>m. hold_elapsed ret (mf_created_at m) now) (drop keep vs)"

definition prune_uses :: "'w metadata_store \<Rightarrow> 'w blob_anchor \<Rightarrow> 'w clock \<Rightarrow> 'w prune_versions \<Rightarrow> bool" where
  "prune_uses ms ba ck pv \<longleftrightarrow> pv_metadata pv = ms \<and> pv_anchor pv = ba \<and> pv_clock pv = ck"

lemma newest_first_props:
  "set (newest_first vs) = set vs" "length (newest_first vs) = length vs"
  "distinct (newest_first vs) = distinct vs"
  "sorted_wrt (\<lambda>a b. mf_created_at b \<le> mf_created_at a) (newest_first vs)"
proof -
  have "sorted (map (\<lambda>m. - int (unat (as_millis (mf_created_at m)))) (newest_first vs))"
    by (simp add: newest_first_def)
  then show "sorted_wrt (\<lambda>a b. mf_created_at b \<le> mf_created_at a) (newest_first vs)"
    by (simp add: sorted_wrt_map less_eq_timestamp_def word_le_def)
qed (simp_all add: newest_first_def)

context vault_laws
begin

lemma collect_versions_spec:
  assumes "collect_versions ms ns oid bs w = (Inr vs, w')"
  shows "vs = filter (\<lambda>m. mf_object_id m = Some oid) (List.map_filter (\<lambda>b. mv_manifests (mview w) (ns, b)) bs) \<and>
    mview w' = mview w \<and> aview w' = aview w"
  using assms
proof (induction bs arbitrary: w vs)
  case (Cons b bs)
  from Cons.prems obtain found w1 vs' w2 where p: "ms_get_manifest ms ns b w = (Inr found, w1)"
      "collect_versions ms ns oid bs w1 = (Inr vs', w2)"
    and f: "(case found of Some m \<Rightarrow> io_return (if mf_object_id m = Some oid then m # vs' else vs')
      | None \<Rightarrow> io_return vs') w2 = (Inr vs :: port_error + manifest list, w')"
    unfolding collect_versions.simps io_bind_Inr by blast
  from f have p3: "vs = (case found of None \<Rightarrow> vs' | Some m \<Rightarrow> if mf_object_id m = Some oid then m # vs' else vs')"
    and "w2 = w'" by (cases found; simp add: io_return_def)+
  show ?case
    using Cons.IH [of w1 vs'] p(2) p3 \<open>w2 = w'\<close> view_steps(4) [OF p(1)] get_manifest [OF p(1)]
    by (auto simp: map_filter_simps split: option.splits)
qed (simp add: io_return_def map_filter_simps)

lemma collected_versions:
  assumes "collect_versions ms ns oid bs w = (Inr vs, w')" and "ms_list_blobs ms ns w0 = (Inr bs, w)"
    and "keyed (mview w0)"
  shows "set vs = versions_of (mview w0) ns oid" "distinct vs" "mview w' = mview w0" "aview w' = aview w0"
proof -
  note c = collect_versions_spec [OF assms(1)] and l = list_blobs [OF assms(2)] view_steps(5) [OF assms(2)]
  show "mview w' = mview w0" "aview w' = aview w0" using c l by simp_all
  show "set vs = versions_of (mview w0) ns oid"
    using c l by (auto simp: versions_of_def map_filter_def blobs_of_def domI image_def)
  have "x = y" if "mv_manifests (mview w0) (ns, x) = Some m" "mv_manifests (mview w0) (ns, y) = Some m" for x y m
    using that assms(3) unfolding keyed_def by metis
  then have "distinct (List.map_filter (\<lambda>b. mv_manifests (mview w0) (ns, b)) bs)"
    using l(1) by (auto simp: map_filter_def distinct_map inj_on_def)
  then show "distinct vs" using c l by simp
qed

lemma prune_loop_ok:
  assumes "prune_uses ms ba ck pv" and "plain_id (ns_str ns)" and "\<forall>m\<in>set vs. plain_id (blob_str (mf_blob_id m))"
    and "prune_loop pv ret ns now keep i vs (k, p, h) w = (Inr (k', p', h'), w')"
  shows "k' = k + min (keep - i) (length vs) \<and> p' = p + length (prunable ret now (keep - i) vs) \<and>
    k' + p' + h' = k + p + h + length vs \<and>
    mview w' = drop_manifests ns (mf_blob_id ` set (prunable ret now (keep - i) vs)) (mview w) \<and>
    aview w' = drop_blobs ns (mf_blob_id ` set (prunable ret now (keep - i) vs)) (aview w)"
  using assms(3,4)
proof (induction vs arbitrary: i k p h w)
  case (Cons m vs)
  have us: "pv_metadata pv = ms" "pv_anchor pv = ba" using assms(1) by (simp_all add: prune_uses_def)
  note IH = Cons.IH [where i = "Suc i"]
  have plain: "\<forall>m\<in>set vs. plain_id (blob_str (mf_blob_id m))" "plain_id (blob_str (mf_blob_id m))"
    using Cons.prems(1) by simp_all
  consider (Keep) "i < keep" | (Hold) "keep \<le> i" "\<not> hold_elapsed ret (mf_created_at m) now"
    | (Prune) "keep \<le> i" "hold_elapsed ret (mf_created_at m) now" by linarith
  then show ?case
  proof cases
    case Keep
    then have "keep - i = Suc (keep - Suc i)" by simp
    with Keep IH [OF plain(1)] Cons.prems(2) show ?thesis by (fastforce simp: prunable_def)
  next
    case Hold
    then show ?thesis using IH [OF plain(1)] Cons.prems(2) by (fastforce simp: prunable_def)
  next
    case Prune
    then obtain w1 w2 where d: "ba_delete_blob ba ns (mf_blob_id m) w = (Inr (), w1)"
        "ms_delete_manifest ms ns (mf_blob_id m) w1 = (Inr (), w2)"
        "prune_loop pv ret ns now keep (Suc i) vs (k, p + 1, h) w2 = (Inr (k', p', h'), w')"
      using Cons.prems(2) us by (auto simp: io_inv)
    have "mview w2 = drop_manifest ns (mf_blob_id m) (mview w)"
      using delete_manifest [OF d(2)] keepsD [OF anchor_keeps_meta(3) d(1)] by simp
    moreover have "aview w2 = drop_blob ns (mf_blob_id m) (aview w)"
      using keepsD [OF meta_keeps_anchor(8) d(2)] delete_done [OF assms(2) plain(2) d(1)] by simp
    ultimately show ?thesis using IH [OF plain(1) d(3)] Prune by (simp add: prunable_def)
  qed
qed (simp add: io_return_def prunable_def)

lemma collect_versions_keeps:
  "(\<And>b. keeps env (ms_get_manifest ms ns b)) \<Longrightarrow> keeps env (collect_versions ms ns oid bs)"
proof (induction bs)
  case (Cons b bs)
  then have "keeps env (collect_versions ms ns oid bs)" by blast
  with Cons.prems show ?case by (auto intro!: frame_rules split: option.splits)
qed (simp add: frame_rules)

text \<open>The clock is read in a world that agrees with the first on \<open>env\<close>, a part that metadata reads keep.\<close>

lemma prune_ok:
  assumes pv: "prune_uses ms ba ck pv"
    and env: "\<And>n. keeps env (ms_get_namespace ms n)" "\<And>a. keeps env (ms_get_contract ms a)"
      "\<And>n. keeps env (ms_list_blobs ms n)" "\<And>n b. keeps env (ms_get_manifest ms n b)"
    and "plain_id (ns_str ns)" and keyed: "keyed (mview w)"
    and plain: "\<forall>b\<in>blobs_of (mview w) ns. plain_id (blob_str b)"
    and run: "prune_versions_execute pv ns oid w = (Inr rep, w')"
  obtains n c vs now keep gone where "mv_namespaces (mview w) ns = Some n"
    and "mv_contracts (mview w) (nsp_app_id n) = Some c" and "keep = unat (rp_keep_versions (ac_retention c))"
    and "set vs = versions_of (mview w) ns oid" and "distinct vs"
    and "sorted_wrt (\<lambda>a b. mf_created_at b \<le> mf_created_at a) vs"
    and "\<exists>w1. env w1 = env w \<and> now = fst (ck_now ck w1)"
    and "gone = (if keep = 0 then {} else set (prunable (ac_retention c) now keep vs))"
    and "mview w' = drop_manifests ns (mf_blob_id ` gone) (mview w)"
    and "aview w' = drop_blobs ns (mf_blob_id ` gone) (aview w)"
    and "pr_versions rep = length vs" and "pr_pruned rep = card gone"
    and "pr_kept rep = (if keep = 0 then length vs else min keep (length vs))"
    and "pr_kept rep + pr_pruned rep + pr_held rep = pr_versions rep"
proof -
  have us: "pv_metadata pv = ms" "pv_anchor pv = ba" "pv_clock pv = ck" using pv by (simp_all add: prune_uses_def)
  from run obtain n w1 c w2 bs w3 vs w4 where p: "ms_get_namespace ms ns w = (Inr (Some n), w1)"
      "ms_get_contract ms (nsp_app_id n) w1 = (Inr (Some c), w2)" "ms_list_blobs ms ns w2 = (Inr bs, w3)"
      "collect_versions ms ns oid bs w3 = (Inr vs, w4)"
    and rest: "(if unat (rp_keep_versions (ac_retention c)) = 0
       then io_return \<lparr>pr_object_id = oid, pr_versions = length vs, pr_kept = length vs, pr_pruned = 0, pr_held = 0\<rparr>
       else io_bind (io_read (ck_now ck)) (\<lambda>now.
         io_bind (prune_loop pv (ac_retention c) ns now (unat (rp_keep_versions (ac_retention c))) 0 (newest_first vs) (0, 0, 0))
           (\<lambda>(kept, pruned, held).
         io_return \<lparr>pr_object_id = oid, pr_versions = length vs, pr_kept = kept, pr_pruned = pruned, pr_held = held\<rparr>))) w4
       = (Inr rep, w')"
    unfolding prune_versions_execute_def Let_def us by (auto simp: io_bind_Inr io_lift_iff)
  let ?keep = "unat (rp_keep_versions (ac_retention c))"
  have v: "mview w1 = mview w" "aview w1 = aview w" "mview w2 = mview w" "aview w2 = aview w"
    using keepsD [OF read_keeps(2) p(1)] keepsD [OF meta_keeps_anchor(2) p(1)] view_steps(2) [OF p(2)] by simp_all
  note cv = collected_versions [OF p(4,3)]
  have base: "mv_namespaces (mview w) ns = Some n" "mv_contracts (mview w) (nsp_app_id n) = Some c"
      "set (newest_first vs) = versions_of (mview w) ns oid" "distinct (newest_first vs)"
      "mview w4 = mview w" "aview w4 = aview w"
    using get_namespace [OF p(1)] get_contract [OF p(2)] cv keyed v by (simp_all add: newest_first_props)
  show thesis
  proof (cases "?keep = 0")
    case True
    then show ?thesis using rest base
      by (intro that [of n c ?keep "newest_first vs" "fst (ck_now ck w)" "{}"]) (auto simp: io_return_def newest_first_props)
  next
    case False
    then obtain now w5 k q h where l: "ck_now ck w4 = (now, w5)"
        "prune_loop pv (ac_retention c) ns now ?keep 0 (newest_first vs) (0, 0, 0) w5 = (Inr (k, q, h), w')"
        "rep = \<lparr>pr_object_id = oid, pr_versions = length vs, pr_kept = k, pr_pruned = q, pr_held = h\<rparr>"
      using rest by (auto simp: io_bind_Inr io_read_iff io_return_iff)
    have pl: "\<forall>m\<in>set (newest_first vs). plain_id (blob_str (mf_blob_id m))"
      using base(3) plain keyed by (fastforce simp: versions_of_def blobs_of_def keyed_def)
    note loop = prune_loop_ok [OF pv assms(6) pl l(2)]
    have "env w4 = env w"
      using keepsD [OF env(1) p(1)] keepsD [OF env(2) p(2)] keepsD [OF env(3) p(3)]
        keepsD [OF collect_versions_keeps [of env, OF env(4)] p(4)] by simp
    then have "\<exists>w1. env w1 = env w \<and> now = fst (ck_now ck w1)" using l(1) by force
    have "card (set (prunable (ac_retention c) now ?keep (newest_first vs))) =
        length (prunable (ac_retention c) now ?keep (newest_first vs))"
      unfolding prunable_def by (rule distinct_card) (use base(4) in simp)
    then show ?thesis using False loop base l(3) view_steps(6) [OF l(1)] \<open>\<exists>w1. env w1 = env w \<and> now = fst (ck_now ck w1)\<close>
      by (intro that [of n c ?keep "newest_first vs" now "set (prunable (ac_retention c) now ?keep (newest_first vs))"])
        (simp_all add: newest_first_props)
  qed
qed

end

end
