(* ===== verification/Memstore.thy ===== *)
theory Memstore
  imports Ports
begin

text \<open>
  The in-memory metadata store, \<^verbatim>\<open>crates/adapter-memstore\<close>.  A \<^verbatim>\<open>HashMap\<close> is an association
  list with distinct keys (\<^typ>\<open>('k, 'v) alist\<close>); its order stands for one iteration order of
  the hash map, and no law of \<open>meta_laws\<close> depends on it.  The \<^verbatim>\<open>RwLock\<close> makes every operation
  atomic, so each is one function on the state.
\<close>

record memstore =
  inner_contracts :: "(app_id, app_contract) alist"
  inner_namespaces :: "(namespace_id, namespace) alist"
  inner_manifests :: "(namespace_id \<times> blob_id, manifest) alist"

definition memstore_new :: memstore where
  "memstore_new = \<lparr>inner_contracts = DAList.empty, inner_namespaces = DAList.empty,
     inner_manifests = DAList.empty\<rparr>"

definition mem_register_app :: "app_contract \<Rightarrow> (memstore, unit) io" where
  "mem_register_app c s =
     (Inr (), s\<lparr>inner_contracts := DAList.update (ac_app_id c) c (inner_contracts s)\<rparr>)"

definition mem_get_contract :: "app_id \<Rightarrow> (memstore, app_contract option) io" where
  "mem_get_contract app s = (Inr (DAList.lookup (inner_contracts s) app), s)"

definition mem_create_namespace :: "namespace \<Rightarrow> (memstore, unit) io" where
  "mem_create_namespace n s =
     (Inr (), s\<lparr>inner_namespaces := DAList.update (nsp_id n) n (inner_namespaces s)\<rparr>)"

definition mem_get_namespace :: "namespace_id \<Rightarrow> (memstore, namespace option) io" where
  "mem_get_namespace ns s = (Inr (DAList.lookup (inner_namespaces s) ns), s)"

definition mem_list_namespaces :: "(memstore, namespace_id list) io" where
  "mem_list_namespaces s = (Inr (map fst (DAList.impl_of (inner_namespaces s))), s)"

fun usage_loop ::
  "namespace_id \<Rightarrow> ((namespace_id \<times> blob_id) \<times> manifest) list \<Rightarrow> namespace_usage \<Rightarrow> namespace_usage" where
  "usage_loop ns [] usage = usage"
| "usage_loop ns (((k, _), m) # es) usage =
     usage_loop ns es
       (if k = ns
        then usage\<lparr>nu_objects := nu_objects usage + 1, nu_bytes := nu_bytes usage + mf_ciphertext_len m\<rparr>
        else usage)"

definition mem_namespace_usage :: "namespace_id \<Rightarrow> (memstore, namespace_usage) io" where
  "mem_namespace_usage ns s =
     (Inr (usage_loop ns (DAList.impl_of (inner_manifests s)) \<lparr>nu_bytes = 0, nu_objects = 0\<rparr>), s)"

definition mem_put_manifest :: "manifest \<Rightarrow> (memstore, unit) io" where
  "mem_put_manifest m s =
     (Inr (), s\<lparr>inner_manifests :=
        DAList.update (mf_namespace m, mf_blob_id m) m (inner_manifests s)\<rparr>)"

definition mem_get_manifest :: "namespace_id \<Rightarrow> blob_id \<Rightarrow> (memstore, manifest option) io" where
  "mem_get_manifest ns b s = (Inr (DAList.lookup (inner_manifests s) (ns, b)), s)"

definition mem_list_blobs :: "namespace_id \<Rightarrow> (memstore, blob_id list) io" where
  "mem_list_blobs ns s =
     (Inr (map snd (filter (\<lambda>(k, _). k = ns) (map fst (DAList.impl_of (inner_manifests s))))), s)"

definition mem_delete_manifest :: "namespace_id \<Rightarrow> blob_id \<Rightarrow> (memstore, unit) io" where
  "mem_delete_manifest ns b s =
     (Inr (), s\<lparr>inner_manifests := DAList.delete (ns, b) (inner_manifests s)\<rparr>)"

definition memory_metadata_store :: "memstore metadata_store" where
  "memory_metadata_store =
     \<lparr>ms_register_app = mem_register_app, ms_get_contract = mem_get_contract,
      ms_create_namespace = mem_create_namespace, ms_get_namespace = mem_get_namespace,
      ms_namespace_usage = mem_namespace_usage, ms_list_namespaces = mem_list_namespaces,
      ms_put_manifest = mem_put_manifest, ms_get_manifest = mem_get_manifest,
      ms_list_blobs = mem_list_blobs, ms_delete_manifest = mem_delete_manifest\<rparr>"

lemmas mem_defs = mem_register_app_def mem_get_contract_def mem_create_namespace_def
  mem_get_namespace_def mem_list_namespaces_def mem_put_manifest_def mem_get_manifest_def
  mem_delete_manifest_def

section \<open>The abstract contents, and the store's contract\<close>

definition mem_view :: "memstore \<Rightarrow> meta_view" where
  "mem_view s = \<lparr>mv_contracts = DAList.lookup (inner_contracts s),
     mv_namespaces = DAList.lookup (inner_namespaces s),
     mv_manifests = DAList.lookup (inner_manifests s)\<rparr>"

lemma finite_blobs_mem [simp]: "finite (blobs_of (mem_view s) ns)"
proof -
  have "blobs_of (mem_view s) ns \<subseteq> snd ` dom (DAList.lookup (inner_manifests s))"
    by (force simp: blobs_of_def mem_view_def)
  then show ?thesis
    by (rule finite_subset) (simp add: dom_lookup_alist)
qed

lemma usage_loop_eq:
  assumes "distinct (map fst es)"
  shows "usage_loop ns es u =
    \<lparr>nu_bytes = nu_bytes u + (\<Sum>b | (ns, b) \<in> fst ` set es. mf_ciphertext_len (the (map_of es (ns, b)))),
     nu_objects = nu_objects u + word_of_nat (card {b. (ns, b) \<in> fst ` set es})\<rparr>"
  using assms
proof (induction es arbitrary: u)
  case (Cons e es)
  obtain k b m where e: "e = ((k, b), m)" by (metis prod.collapse)
  let ?B = "{b. (ns, b) \<in> fst ` set es}"
  have fin: "finite ?B"
    by (rule finite_subset [of _ "snd ` fst ` set es"]) force+
  show ?case
  proof (cases "k = ns")
    case True
    have new: "b \<notin> ?B" using Cons.prems e True by simp
    have set_eq: "{b'. (ns, b') \<in> fst ` set (e # es)} = insert b ?B"
      using e True by auto
    have sum_eq: "(\<Sum>b'\<in>?B. mf_ciphertext_len (the (map_of (e # es) (ns, b'))))
        = (\<Sum>b'\<in>?B. mf_ciphertext_len (the (map_of es (ns, b'))))"
      using new e True by (intro sum.cong) auto
    show ?thesis
      unfolding set_eq
      using Cons new fin sum_eq e True by (simp add: algebra_simps)
  next
    case False
    then have "{b'. (ns, b') \<in> fst ` set (e # es)} = ?B" using e by auto
    with Cons e False show ?thesis by simp
  qed
qed simp

lemma mem_usage_of: "mem_namespace_usage ns s = (Inr (usage_of (mem_view s) ns), s)"
  by (simp add: mem_namespace_usage_def usage_loop_eq usage_of_def blobs_of_def mem_view_def
      dom_map_of_conv_image_fst DAList.lookup.rep_eq)

lemma mem_list_blobs_set:
  "set (map snd (filter (\<lambda>(k, _). k = ns) (map fst (DAList.impl_of (inner_manifests s)))))
     = blobs_of (mem_view s) ns"
  by (force simp: blobs_of_def mem_view_def dom_lookup_alist)

lemma distinct_map_snd_filter:
  "distinct ps \<Longrightarrow> distinct (map snd (filter (\<lambda>(k, _). k = ns) ps))"
  by (induction ps) auto

lemma mem_view_writes [store_simps]:
  "mem_view (s\<lparr>inner_contracts := DAList.update a c (inner_contracts s)\<rparr>)
     = (mem_view s)\<lparr>mv_contracts := (mv_contracts (mem_view s))(a \<mapsto> c)\<rparr>"
  "mem_view (s\<lparr>inner_namespaces := DAList.update i n (inner_namespaces s)\<rparr>)
     = (mem_view s)\<lparr>mv_namespaces := (mv_namespaces (mem_view s))(i \<mapsto> n)\<rparr>"
  "mem_view (s\<lparr>inner_manifests := DAList.update k m (inner_manifests s)\<rparr>)
     = (mem_view s)\<lparr>mv_manifests := (mv_manifests (mem_view s))(k \<mapsto> m)\<rparr>"
  "mem_view (s\<lparr>inner_manifests := DAList.delete k (inner_manifests s)\<rparr>)
     = (mem_view s)\<lparr>mv_manifests := (mv_manifests (mem_view s))(k := None)\<rparr>"
  by (simp_all add: mem_view_def)

lemma mem_view_reads [store_simps]:
  "DAList.lookup (inner_contracts s) = mv_contracts (mem_view s)"
  "DAList.lookup (inner_namespaces s) = mv_namespaces (mem_view s)"
  "DAList.lookup (inner_manifests s) = mv_manifests (mem_view s)"
  by (simp_all add: mem_view_def)

lemma mem_list_namespaces_set:
  "set (map fst (DAList.impl_of (inner_namespaces s))) = dom (mv_namespaces (mem_view s))"
  by (simp add: mem_view_def dom_lookup_alist)

interpretation mem: reliable_meta memory_metadata_store mem_view
  by unfold_locales
    (auto simp: memory_metadata_store_def mem_defs mem_list_blobs_def keeps_def store_simps
      meta_view_updates mem_usage_of mem_list_blobs_set mem_list_namespaces_set
      intro: distinct_map_snd_filter simp del: set_map)

end
