(* ===== verification/Blob_Fs.thy ===== *)
theory Blob_Fs
  imports Ports "HOL-Library.Sublist"
begin

text \<open>
  The filesystem anchor, \<^verbatim>\<open>crates/adapter-blob-fs\<close>, over a model of the file system calls it
  makes.  Paths are lists of resolved components; directories exist where a file lies below them.
  \<open>fs_deny\<close> is the operating system's say: a call on a denied path fails with that error text.
\<close>

section \<open>Paths\<close>

type_synonym path = "string list"

definition path_components :: "string \<Rightarrow> string list" where
  "path_components s = filter (\<lambda>c. c \<noteq> [] \<and> c \<noteq> ''.'') (split_on (CHR ''/'') s)"

fun resolve :: "path \<Rightarrow> string list \<Rightarrow> path" where
  "resolve base [] = base"
| "resolve base (c # cs) = resolve (if c = ''..'' then butlast base else base @ [c]) cs"

text \<open>\<^verbatim>\<open>Path::join\<close>: an absolute second path replaces the first.\<close>

definition path_join :: "path \<Rightarrow> string \<Rightarrow> path" where
  "path_join root s =
     resolve (case s of c # _ \<Rightarrow> if c = CHR ''/'' then [] else root | [] \<Rightarrow> root) (path_components s)"

text \<open>\<^verbatim>\<open>Path::with_extension\<close>: the text after the last dot of the file name is replaced.\<close>

definition file_stem :: "string \<Rightarrow> string" where
  "file_stem s = (case dropWhile (\<lambda>c. c \<noteq> CHR ''.'') (rev s) of
     [] \<Rightarrow> s | _ # pre \<Rightarrow> if pre = [] then s else rev pre)"

definition with_extension :: "path \<Rightarrow> string \<Rightarrow> path" where
  "with_extension p ext = (if p = [] then [] else butlast p @ [file_stem (last p) @ ''.'' @ ext])"

section \<open>File system calls\<close>

datatype io_error = IoNotFound | IoOther string

fun show_io_error :: "io_error \<Rightarrow> string" where
  "show_io_error IoNotFound = ''No such file or directory (os error 2)''"
| "show_io_error (IoOther msg) = msg"

record fs =
  fs_files :: "(path, bytes) alist"
  fs_deny :: "path \<Rightarrow> string option"

definition fs_file :: "fs \<Rightarrow> path \<Rightarrow> bytes option" where
  "fs_file f p = DAList.lookup (fs_files f) p"

definition fs_paths :: "fs \<Rightarrow> path list" where
  "fs_paths f = map fst (DAList.impl_of (fs_files f))"

definition fs_is_dir :: "fs \<Rightarrow> path \<Rightarrow> bool" where
  "fs_is_dir f p \<longleftrightarrow> list_ex (\<lambda>q. strict_prefix p q) (fs_paths f)"

definition fs_below_file :: "fs \<Rightarrow> path \<Rightarrow> bool" where
  "fs_below_file f p \<longleftrightarrow> list_ex (\<lambda>q. strict_prefix q p) (fs_paths f)"

definition fs_create_dir_all :: "path \<Rightarrow> (io_error, fs, unit) act" where
  "fs_create_dir_all p f =
     (case fs_deny f p of Some msg \<Rightarrow> (Inl (IoOther msg), f)
      | None \<Rightarrow> if fs_file f p \<noteq> None \<or> fs_below_file f p
                then (Inl (IoOther ''Not a directory (os error 20)''), f) else (Inr (), f))"

definition fs_write :: "path \<Rightarrow> bytes \<Rightarrow> (io_error, fs, unit) act" where
  "fs_write p bs f =
     (case fs_deny f p of Some msg \<Rightarrow> (Inl (IoOther msg), f)
      | None \<Rightarrow> if fs_is_dir f p then (Inl (IoOther ''Is a directory (os error 21)''), f)
                else if fs_below_file f p then (Inl (IoOther ''Not a directory (os error 20)''), f)
                else (Inr (), f\<lparr>fs_files := DAList.update p bs (fs_files f)\<rparr>))"

definition fs_rename :: "path \<Rightarrow> path \<Rightarrow> (io_error, fs, unit) act" where
  "fs_rename src dst f =
     (case fs_deny f dst of Some msg \<Rightarrow> (Inl (IoOther msg), f)
      | None \<Rightarrow> (case fs_file f src of
          None \<Rightarrow> (Inl IoNotFound, f)
        | Some bs \<Rightarrow> if fs_is_dir f dst then (Inl (IoOther ''Is a directory (os error 21)''), f)
            else (Inr (), f\<lparr>fs_files := DAList.update dst bs (DAList.delete src (fs_files f))\<rparr>)))"

definition fs_read :: "path \<Rightarrow> (io_error, fs, bytes) act" where
  "fs_read p f =
     (case fs_deny f p of Some msg \<Rightarrow> (Inl (IoOther msg), f)
      | None \<Rightarrow> (case fs_file f p of Some bs \<Rightarrow> (Inr bs, f)
        | None \<Rightarrow> if fs_is_dir f p then (Inl (IoOther ''Is a directory (os error 21)''), f)
            else if fs_below_file f p then (Inl (IoOther ''Not a directory (os error 20)''), f)
            else (Inl IoNotFound, f)))"

text \<open>\<^verbatim>\<open>remove_dir_all\<close> unlinks entry by entry and stops at the first one it may not remove.\<close>

fun remove_entries :: "path list \<Rightarrow> (io_error, fs, unit) act" where
  "remove_entries [] f = (Inr (), f)"
| "remove_entries (p # ps) f =
     (case fs_deny f p of Some msg \<Rightarrow> (Inl (IoOther msg), f)
      | None \<Rightarrow> remove_entries ps (f\<lparr>fs_files := DAList.delete p (fs_files f)\<rparr>))"

definition fs_remove_dir_all :: "path \<Rightarrow> (io_error, fs, unit) act" where
  "fs_remove_dir_all p f =
     (case fs_deny f p of Some msg \<Rightarrow> (Inl (IoOther msg), f)
      | None \<Rightarrow> if fs_file f p \<noteq> None \<or> fs_below_file f p
                then (Inl (IoOther ''Not a directory (os error 20)''), f)
                else if \<not> fs_is_dir f p then (Inl IoNotFound, f)
                else remove_entries (filter (strict_prefix p) (fs_paths f)) f)"

section \<open>The anchor (adapter-blob-fs)\<close>

definition shard_path :: "path \<Rightarrow> shard_ref \<Rightarrow> path" where
  "shard_path root at = path_join root (object_key at)"

definition blob_dir :: "path \<Rightarrow> namespace_id \<Rightarrow> blob_id \<Rightarrow> path" where
  "blob_dir root ns b = path_join (path_join root (ns_str ns)) (blob_str b)"

definition fs_backend :: "io_error \<Rightarrow> port_error" where
  "fs_backend e = Backend (''blob-fs io: '' @ show_io_error e)"

definition fs_put_shard :: "path \<Rightarrow> shard_ref \<Rightarrow> bytes \<Rightarrow> (fs, unit) io" where
  "fs_put_shard root at bs =
     (let p = shard_path root at; tmp = with_extension p ''shard.tmp'' in
      io_bind (if p = [] then io_return () else io_map_err fs_backend (fs_create_dir_all (butlast p))) (\<lambda>_.
      io_bind (io_map_err fs_backend (fs_write tmp bs)) (\<lambda>_.
      io_map_err fs_backend (fs_rename tmp p))))"

definition fs_get_shard :: "path \<Rightarrow> shard_ref \<Rightarrow> (fs, bytes) io" where
  "fs_get_shard root at f =
     (case fs_read (shard_path root at) f of
        (Inr bs, f') \<Rightarrow> (Inr bs, f')
      | (Inl IoNotFound, f') \<Rightarrow> (Inl NotFound, f')
      | (Inl e, f') \<Rightarrow> (Inl (fs_backend e), f'))"

definition fs_delete_blob :: "path \<Rightarrow> namespace_id \<Rightarrow> blob_id \<Rightarrow> (fs, unit) io" where
  "fs_delete_blob root ns b f =
     (case fs_remove_dir_all (blob_dir root ns b) f of
        (Inr _, f') \<Rightarrow> (Inr (), f')
      | (Inl IoNotFound, f') \<Rightarrow> (Inr (), f')
      | (Inl e, f') \<Rightarrow> (Inl (fs_backend e), f'))"

definition fs_blob_anchor :: "path \<Rightarrow> fs blob_anchor" where
  "fs_blob_anchor root = \<lparr>ba_put_shard = fs_put_shard root, ba_get_shard = fs_get_shard root,
     ba_delete_blob = fs_delete_blob root\<rparr>"

section \<open>Where the shards of plain ids lie\<close>

lemma resolve_plain: "''..'' \<notin> set cs \<Longrightarrow> resolve base cs = base @ cs"
  by (induction cs arbitrary: base) auto

definition shard_file :: "shard_ref \<Rightarrow> string" where
  "shard_file at = show_pad5 (unat (sr_index at)) @ ''.shard''"

lemma shard_file_plain [simp]:
  "shard_file at \<noteq> []" "shard_file at \<noteq> ''.''" "shard_file at \<noteq> ''..''"
  by (auto simp: shard_file_def append_eq_Cons_conv)

lemma shard_file_inject [simp]: "shard_file a = shard_file b \<longleftrightarrow> sr_index a = sr_index b"
  by (simp add: shard_file_def word_unat_eq_iff)

lemma shard_path_plain:
  assumes "plain_ref at"
  shows "shard_path root at =
    root @ [ns_str (sr_namespace at), blob_str (sr_blob_id at), shard_file at]"
proof -
  have comps: "path_components (object_key at) =
      [ns_str (sr_namespace at), blob_str (sr_blob_id at), shard_file at]"
    using assms split_object_key [OF assms]
    by (simp add: path_components_def plain_ref_def plain_id_def flip: shard_file_def)
  have "(case object_key at of c # _ \<Rightarrow> if c = CHR ''/'' then [] else root | [] \<Rightarrow> root) = root"
    using assms
    by (cases "ns_str (sr_namespace at)") (auto simp: object_key_def plain_ref_def plain_id_def)
  then show ?thesis
    using assms comps
    by (simp add: shard_path_def path_join_def resolve_plain plain_ref_def plain_id_def)
qed

lemma path_join_plain: "plain_id s \<Longrightarrow> path_join root s = root @ [s]"
  by (cases s) (auto simp: path_join_def path_components_def plain_id_def split_on_none)

lemma blob_dir_plain:
  "plain_id (ns_str ns) \<Longrightarrow> plain_id (blob_str b) \<Longrightarrow> blob_dir root ns b = root @ [ns_str ns, blob_str b]"
  by (simp add: blob_dir_def path_join_plain)

lemma file_stem_shard: "file_stem (shard_file at) = show_pad5 (unat (sr_index at))"
  by (simp add: file_stem_def shard_file_def)

lemma tmp_path_plain:
  assumes "plain_ref at"
  shows "with_extension (shard_path root at) ''shard.tmp'' =
    root @ [ns_str (sr_namespace at), blob_str (sr_blob_id at), shard_file at @ ''.tmp'']"
proof -
  have "show_pad5 (unat (sr_index at)) @ ''.'' @ ''shard.tmp'' = shard_file at @ ''.tmp''"
    by (simp add: shard_file_def)
  with assms show ?thesis
    by (simp add: shard_path_plain with_extension_def butlast_append file_stem_shard)
qed

lemma shard_path_inject:
  "plain_ref a \<Longrightarrow> plain_ref b \<Longrightarrow> shard_path root a = shard_path root b \<longleftrightarrow> a = b"
  by (auto simp: shard_path_plain intro!: shard_ref.equality namespace_id.expand blob_id.expand)

lemma tmp_not_shard: "shard_file a @ ''.tmp'' \<noteq> shard_file b"
proof
  assume "shard_file a @ ''.tmp'' = shard_file b"
  then have "last (shard_file a @ ''.tmp'') = last (shard_file b)" by simp
  then show False by (simp add: shard_file_def)
qed

section \<open>The contract of the filesystem anchor\<close>

definition fs_view :: "path \<Rightarrow> fs \<Rightarrow> shard_ref \<rightharpoonup> bytes" where
  "fs_view root f at = (if plain_ref at then fs_file f (shard_path root at) else None)"

lemma mem_fs_paths: "p \<in> set (fs_paths f) \<longleftrightarrow> fs_file f p \<noteq> None"
  by (simp only: fs_paths_def mem_keys_alist fs_file_def)

lemma fs_file_update [simp]: "fs_file (f\<lparr>fs_files := m\<rparr>) q = DAList.lookup m q"
  by (simp add: fs_file_def)

lemma fs_lookup [simp]: "DAList.lookup (fs_files f) q = fs_file f q"
  by (simp add: fs_file_def)

lemma fs_put_shard_file:
  assumes "plain_ref at" and "fs_put_shard root at x f = (r, f')"
  shows "q \<noteq> shard_path root at \<Longrightarrow> q \<noteq> with_extension (shard_path root at) ''shard.tmp'' \<Longrightarrow>
      fs_file f' q = fs_file f q"
    and "r = Inr () \<Longrightarrow> fs_file f' (shard_path root at) = Some x"
  using assms
  by (auto simp: fs_put_shard_def Let_def fs_create_dir_all_def fs_write_def fs_rename_def
      io_bind_def io_map_err_def io_return_def split: option.splits if_splits)

lemma remove_entries_other:
  "remove_entries ps f = (r, f') \<Longrightarrow> q \<notin> set ps \<Longrightarrow> fs_file f' q = fs_file f q"
proof (induction ps arbitrary: f)
  case (Cons p ps)
  then show ?case by (cases "fs_deny f p") (auto dest!: Cons.IH)
qed simp

lemma remove_entries_gone:
  "remove_entries ps f = (Inr (), f') \<Longrightarrow> q \<in> set ps \<Longrightarrow> fs_file f' q = None"
proof (induction ps arbitrary: f)
  case (Cons p ps)
  then have run: "remove_entries ps (f\<lparr>fs_files := DAList.delete p (fs_files f)\<rparr>) = (Inr (), f')"
    by (cases "fs_deny f p") auto
  show ?case
  proof (cases "q \<in> set ps")
    case True
    then show ?thesis using Cons.IH [OF run] by simp
  next
    case False
    then show ?thesis using remove_entries_other [OF run False] Cons.prems(2) by simp
  qed
qed simp

lemma remove_entries_error: "remove_entries ps f = (Inl e, f') \<Longrightarrow> e \<noteq> IoNotFound"
proof (induction ps arbitrary: f)
  case (Cons p ps)
  then show ?case by (cases "fs_deny f p") (auto dest!: Cons.IH)
qed simp

lemma fs_remove_dir_all_other:
  assumes "fs_remove_dir_all p f = (r, f')" and "\<not> strict_prefix p q"
  shows "fs_file f' q = fs_file f q"
  using assms
  by (auto simp: fs_remove_dir_all_def dest: remove_entries_other split: option.splits if_splits)

lemma fs_remove_dir_all_gone:
  assumes "fs_remove_dir_all p f = (r, f')" and "r \<in> {Inr (), Inl IoNotFound}" and "strict_prefix p q"
  shows "fs_file f' q = None"
proof (cases "fs_is_dir f p")
  case True
  then have run: "remove_entries (filter (strict_prefix p) (fs_paths f)) f = (Inr (), f')"
    using assms(1,2)
    by (auto simp: fs_remove_dir_all_def dest: remove_entries_error split: option.splits if_splits)
  show ?thesis
  proof (cases "fs_file f q = None")
    case True
    then show ?thesis
      using remove_entries_other [OF run, of q] by (simp add: mem_fs_paths)
  next
    case False
    then show ?thesis
      using remove_entries_gone [OF run, of q] assms(3) by (simp add: mem_fs_paths)
  qed
next
  case False
  then have "f' = f"
    using assms(1) by (auto simp: fs_remove_dir_all_def split: option.splits if_splits)
  with False assms(3) show ?thesis
    by (auto simp: fs_is_dir_def list_ex_iff mem_fs_paths)
qed

lemma strict_prefix_blob_dir:
  assumes "plain_id (ns_str ns)" and "plain_id (blob_str b)" and "plain_ref r"
  shows "strict_prefix (blob_dir root ns b) (shard_path root r) \<longleftrightarrow>
    sr_namespace r = ns \<and> sr_blob_id r = b"
  using assms
  by (auto simp: blob_dir_plain shard_path_plain strict_prefix_def
      intro: namespace_id.expand blob_id.expand)

lemma fs_put_view:
  assumes "plain_ref at" and "fs_put_shard root at x f = (r, f')"
  shows "s \<noteq> at \<Longrightarrow> fs_view root f' s = fs_view root f s"
    and "r = Inr () \<Longrightarrow> fs_view root f' at = Some x"
proof -
  assume s: "s \<noteq> at"
  show "fs_view root f' s = fs_view root f s"
  proof (cases "plain_ref s")
    case True
    then have "shard_path root s \<noteq> shard_path root at"
      using assms(1) s by (simp add: shard_path_inject)
    moreover have "shard_path root s \<noteq> with_extension (shard_path root at) ''shard.tmp''"
      using assms(1) True tmp_not_shard [of at s] by (simp add: tmp_path_plain shard_path_plain [OF True])
    ultimately show ?thesis
      using fs_put_shard_file(1) [OF assms] by (simp add: fs_view_def)
  qed (simp add: fs_view_def)
next
  assume "r = Inr ()"
  then show "fs_view root f' at = Some x"
    using fs_put_shard_file(2) [OF assms] assms(1) by (simp add: fs_view_def)
qed

lemma fs_delete_view:
  assumes "plain_id (ns_str ns)" and "plain_id (blob_str b)" and "fs_delete_blob root ns b f = (r, f')"
  shows "sr_namespace s \<noteq> ns \<or> sr_blob_id s \<noteq> b \<Longrightarrow> fs_view root f' s = fs_view root f s"
    and "r = Inr () \<Longrightarrow> fs_view root f' = drop_blob ns b (fs_view root f)"
proof -
  obtain q where q: "fs_remove_dir_all (blob_dir root ns b) f = (q, f')"
    and ok: "r = Inr () \<Longrightarrow> q \<in> {Inr (), Inl IoNotFound}"
    using assms(3)
    by (auto simp: fs_delete_blob_def split: prod.splits sum.splits io_error.splits)
  note look = fs_remove_dir_all_other [OF q] fs_remove_dir_all_gone [OF q] and pre = strict_prefix_blob_dir [OF assms(1,2)]
  have other: "sr_namespace s \<noteq> ns \<or> sr_blob_id s \<noteq> b \<Longrightarrow> fs_view root f' s = fs_view root f s" for s
    using look(1) pre by (auto simp: fs_view_def)
  then show "sr_namespace s \<noteq> ns \<or> sr_blob_id s \<noteq> b \<Longrightarrow> fs_view root f' s = fs_view root f s" .
  assume "r = Inr ()"
  then have "fs_view root f' s = None" if "sr_namespace s = ns" "sr_blob_id s = b" for s
    using that ok look(2) pre by (simp add: fs_view_def)
  with other show "fs_view root f' = drop_blob ns b (fs_view root f)"
    by (auto simp: drop_blob_def fun_eq_iff)
qed

lemma fs_get_view:
  assumes "fs_get_shard root at f = (r, f')"
  shows "f' = f" and "plain_ref at \<Longrightarrow> r = Inr x \<Longrightarrow> fs_view root f at = Some x"
    and "plain_ref at \<Longrightarrow> r = Inl NotFound \<Longrightarrow> fs_view root f at = None"
  using assms
  by (auto simp: fs_get_shard_def fs_read_def fs_view_def fs_backend_def
      split: prod.splits sum.splits io_error.splits option.splits if_splits)

interpretation fsa: anchor_laws "fs_blob_anchor root" "fs_view root" for root :: path
proof (unfold_locales, goal_cases)
  case (1 at)
  show ?case by (rule keepsI) (metis fs_get_view(1) fs_blob_anchor_def blob_anchor.select_convs(2))
next
  case (4 at x w w')
  then show ?case
    by (auto simp: fs_blob_anchor_def fun_eq_iff dest: fs_put_view)
qed (auto simp: fs_blob_anchor_def dest: fs_get_view fs_put_view fs_delete_view)

section \<open>A disk that holds only shards accepts every put\<close>

definition shard_disk :: "path \<Rightarrow> fs \<Rightarrow> bool" where
  "shard_disk root f \<longleftrightarrow> (\<forall>p. fs_file f p \<noteq> None \<longrightarrow> length p = length root + 3) \<and> (\<forall>p. fs_deny f p = None)"

lemma shard_disk_calls:
  assumes "shard_disk root f"
  shows "length p = length root + 3 \<Longrightarrow> \<not> fs_is_dir f p" "length p \<le> length root + 3 \<Longrightarrow> \<not> fs_below_file f p"
    "length p < length root + 3 \<Longrightarrow> fs_file f p = None"
  using assms
  by (auto simp: fs_is_dir_def fs_below_file_def list_ex_iff mem_fs_paths shard_disk_def
      dest!: prefix_length_less)

lemma fs_put_succeeds:
  assumes disk: "shard_disk root f" and at: "plain_ref at"
  shows "\<exists>f'. fs_put_shard root at x f = (Inr (), f') \<and> shard_disk root f'"
proof -
  let ?p = "shard_path root at" and ?t = "with_extension (shard_path root at) ''shard.tmp''"
  have p: "length ?p = length root + 3" "length ?t = length root + 3" "?p \<noteq> []" "length (butlast ?p) = length root + 2"
    using at by (simp_all add: tmp_path_plain, simp_all add: shard_path_plain)
  let ?f1 = "f\<lparr>fs_files := DAList.update ?t x (fs_files f)\<rparr>"
  have disk1: "shard_disk root ?f1" using disk p by (auto simp: shard_disk_def)
  have "fs_create_dir_all (butlast ?p) f = (Inr (), f)"
    using disk p shard_disk_calls [OF disk, of "butlast ?p"] by (simp add: fs_create_dir_all_def shard_disk_def)
  moreover have "fs_write ?t x f = (Inr (), ?f1)"
    using disk p shard_disk_calls [OF disk, of ?t] by (simp add: fs_write_def shard_disk_def)
  moreover have "fs_rename ?t ?p ?f1 = (Inr (), ?f1\<lparr>fs_files := DAList.update ?p x (DAList.delete ?t (fs_files ?f1))\<rparr>)"
    using disk1 p shard_disk_calls(1) [OF disk1, of ?p] by (simp add: fs_rename_def shard_disk_def)
  ultimately have "fs_put_shard root at x f = (Inr (), ?f1\<lparr>fs_files := DAList.update ?p x (DAList.delete ?t (fs_files ?f1))\<rparr>)"
    using p(3) by (simp add: fs_put_shard_def Let_def io_bind_def io_map_err_def)
  moreover have "shard_disk root (?f1\<lparr>fs_files := DAList.update ?p x (DAList.delete ?t (fs_files ?f1))\<rparr>)"
    using disk p by (auto simp: shard_disk_def)
  ultimately show ?thesis by blast
qed

section \<open>Containment\<close>

text \<open>
  The shards of plain ids stay below the anchor's root: a put changes no file outside the
  directory \<^verbatim>\<open>root/namespace/blob\<close>, whether it succeeds or fails.
\<close>

theorem fs_put_contained:
  assumes "plain_ref at" and "fs_put_shard root at x f = (r, f')"
    and "\<not> strict_prefix (root @ [ns_str (sr_namespace at), blob_str (sr_blob_id at)]) q"
  shows "fs_file f' q = fs_file f q"
proof (rule fs_put_shard_file(1) [OF assms(1,2)])
  show "q \<noteq> shard_path root at" using assms(1,3) by (auto simp: shard_path_plain strict_prefix_def)
  show "q \<noteq> with_extension (shard_path root at) ''shard.tmp''"
    using assms(1,3) by (auto simp: tmp_path_plain strict_prefix_def)
qed

theorem fs_put_contained_witness:
  "(let f = \<lparr>fs_files = DAList.update [''etc'', ''passwd''] [1] DAList.empty, fs_deny = (\<lambda>_. None)\<rparr>;
        at = \<lparr>sr_namespace = NamespaceId ''n'', sr_blob_id = BlobId ''b'', sr_index = 0\<rparr>
    in plain_ref at \<and> fs_file (snd (fs_put_shard [''data''] at [9] f)) [''etc'', ''passwd''] = fs_file f [''etc'', ''passwd''])"
proof -
  let ?f = "\<lparr>fs_files = DAList.update [''etc'', ''passwd''] [1] DAList.empty, fs_deny = (\<lambda>_. None)\<rparr> :: fs"
  let ?at = "\<lparr>sr_namespace = NamespaceId ''n'', sr_blob_id = BlobId ''b'', sr_index = 0\<rparr>"
  have "plain_ref ?at" by (simp add: plain_ref_def plain_id_def)
  moreover obtain r f' where "fs_put_shard [''data''] ?at [9] ?f = (r, f')" by force
  ultimately show ?thesis
    using fs_put_contained [of ?at "[''data'']" "[9]" ?f r f' "[''etc'', ''passwd'']"]
    by (simp add: strict_prefix_def)
qed


end
