(* ===== verification/Std_Net.thy ===== *)
theory Std_Net
  imports Prelude
begin

text \<open>
  What the program uses of Rust's standard library on text and addresses: \<^verbatim>\<open>str::parse::<u64>\<close>,
  \<^verbatim>\<open>str::eq_ignore_ascii_case\<close>, and the parser behind \<^verbatim>\<open>parse::<IpAddr>\<close> and \<^verbatim>\<open>parse::<SocketAddr>\<close>
  (\<^verbatim>\<open>core::net::parser\<close>).  A reader takes a text to the value it begins with and the rest, or to
  \<^term>\<open>None\<close> with nothing consumed.
\<close>

section \<open>Numbers and case\<close>

definition parse_u64 :: "string \<Rightarrow> u64 option" where
  "parse_u64 s =
     (let digits = (case s of c # cs \<Rightarrow> if c = CHR ''+'' then cs else s | [] \<Rightarrow> []) in
      if digits = [] then None
      else case read_digits 0 digits of None \<Rightarrow> None
        | Some v \<Rightarrow> if v < 2 ^ 64 then Some (word_of_nat v) else None)"

definition ascii_lower :: "char \<Rightarrow> char" where
  "ascii_lower c = (let n = (of_char c :: nat) in if 65 \<le> n \<and> n \<le> 90 then char_of (n + 32) else c)"

definition eq_ignore_ascii_case :: "string \<Rightarrow> string \<Rightarrow> bool" where
  "eq_ignore_ascii_case s t \<longleftrightarrow> map ascii_lower s = map ascii_lower t"

section \<open>Addresses\<close>

type_synonym ipv4 = "u8 \<times> u8 \<times> u8 \<times> u8"
type_synonym ipv6 = "u16 list"

datatype ip_addr = V4 ipv4 | V6 ipv6

text \<open>An IPv4 address with a port; an IPv6 address with a scope id and a port.\<close>

datatype socket_addr = SocketV4 ipv4 u16 | SocketV6 ipv6 u32 u16

type_synonym 'a reader = "string \<Rightarrow> ('a \<times> string) option"

text \<open>\<^verbatim>\<open>char::to_digit(radix)\<close>.\<close>

definition to_digit :: "nat \<Rightarrow> char \<Rightarrow> nat option" where
  "to_digit radix c =
     (let n = (of_char (ascii_lower c) :: nat);
          d = (if 48 \<le> n \<and> n \<le> 57 then n - 48 else if 97 \<le> n \<and> n \<le> 122 then n - 87 else radix)
      in if d < radix then Some d else None)"

definition digits_value :: "nat \<Rightarrow> string \<Rightarrow> int" where
  "digits_value radix ds = foldl (\<lambda>v c. v * int radix + (case to_digit radix c of Some d \<Rightarrow> int d | None \<Rightarrow> 0)) 0 ds"

text \<open>
  \<^verbatim>\<open>read_number\<close>: all digits that follow; too many of them, none, a forbidden leading zero or a value
  outside the type's range is no number.
\<close>

definition read_number :: "nat \<Rightarrow> nat option \<Rightarrow> bool \<Rightarrow> int \<Rightarrow> int reader" where
  "read_number radix max_digits zero_prefix bound s =
     (let ds = takeWhile (\<lambda>c. to_digit radix c \<noteq> None) s; rest = dropWhile (\<lambda>c. to_digit radix c \<noteq> None) s in
      if (case max_digits of Some m \<Rightarrow> m < length ds | None \<Rightarrow> False) \<or> ds = [] \<or>
         (\<not> zero_prefix \<and> hd ds = CHR ''0'' \<and> 1 < length ds) \<or> bound \<le> digits_value radix ds
      then None else Some (digits_value radix ds, rest))"

fun read_char :: "char \<Rightarrow> unit reader" where
  "read_char c (x # xs) = (if x = c then Some ((), xs) else None)"
| "read_char c [] = None"

definition then_read :: "'a reader \<Rightarrow> ('a \<Rightarrow> 'b reader) \<Rightarrow> 'b reader" where
  "then_read p f s = (case p s of None \<Rightarrow> None | Some (a, rest) \<Rightarrow> f a rest)"

definition read_octet :: "int reader" where
  "read_octet = read_number 10 (Some 3) False (2 ^ 8)"

definition read_ipv4_addr :: "ipv4 reader" where
  "read_ipv4_addr =
     then_read read_octet (\<lambda>a. then_read (read_char CHR ''.'') (\<lambda>_.
     then_read read_octet (\<lambda>b. then_read (read_char CHR ''.'') (\<lambda>_.
     then_read read_octet (\<lambda>c. then_read (read_char CHR ''.'') (\<lambda>_.
     then_read read_octet (\<lambda>d s. Some ((word_of_int a, word_of_int b, word_of_int c, word_of_int d), s))))))))"

definition read_separator :: "char \<Rightarrow> bool \<Rightarrow> 'a reader \<Rightarrow> 'a reader" where
  "read_separator sep first p = (if first then p else then_read (read_char sep) (\<lambda>_. p))"

definition be_u16 :: "u8 \<Rightarrow> u8 \<Rightarrow> u16" where
  "be_u16 hi lo = push_bit 8 (ucast hi) + ucast lo"

text \<open>
  \<^verbatim>\<open>read_groups\<close>: at most \<open>n\<close> groups of an IPv6 address, the last two possibly written as an IPv4
  address; the flag tells whether they were.
\<close>

fun read_groups :: "nat \<Rightarrow> bool \<Rightarrow> string \<Rightarrow> u16 list \<times> bool \<times> string" where
  "read_groups 0 first s = ([], False, s)"
| "read_groups (Suc n) first s =
     (case (if n = 0 then None else read_separator CHR '':'' first read_ipv4_addr s) of
        Some ((a, b, c, d), rest) \<Rightarrow> ([be_u16 a b, be_u16 c d], True, rest)
      | None \<Rightarrow> (case read_separator CHR '':'' first (read_number 16 (Some 4) True (2 ^ 16)) s of
            None \<Rightarrow> ([], False, s)
          | Some (g, rest) \<Rightarrow> (case read_groups n False rest of (gs, v4, rest') \<Rightarrow> (word_of_int g # gs, v4, rest'))))"

definition read_ipv6_addr :: "ipv6 reader" where
  "read_ipv6_addr s =
     (case read_groups 8 True s of (hd_groups, hd_ipv4, rest) \<Rightarrow>
        if length hd_groups = 8 then Some (hd_groups, rest)
        else if hd_ipv4 then None
        else then_read (read_char CHR '':'') (\<lambda>_. then_read (read_char CHR '':'') (\<lambda>_ s'.
          case read_groups (8 - (length hd_groups + 1)) True s' of (tl_groups, _, rest') \<Rightarrow>
            Some (hd_groups @ replicate (8 - length tl_groups - length hd_groups) 0 @ tl_groups, rest'))) rest)"

definition read_ip_addr :: "ip_addr reader" where
  "read_ip_addr s =
     (case read_ipv4_addr s of Some (a, rest) \<Rightarrow> Some (V4 a, rest)
      | None \<Rightarrow> map_option (map_prod V6 id) (read_ipv6_addr s))"

definition read_port :: "u16 reader" where
  "read_port = then_read (read_char CHR '':'') (\<lambda>_. then_read (read_number 10 None True (2 ^ 16)) (\<lambda>n s. Some (word_of_int n, s)))"

definition read_scope_id :: "u32 reader" where
  "read_scope_id = then_read (read_char CHR ''%'') (\<lambda>_. then_read (read_number 10 None True (2 ^ 32)) (\<lambda>n s. Some (word_of_int n, s)))"

definition read_socket_addr_v4 :: "socket_addr reader" where
  "read_socket_addr_v4 = then_read read_ipv4_addr (\<lambda>ip. then_read read_port (\<lambda>port s. Some (SocketV4 ip port, s)))"

definition read_socket_addr_v6 :: "socket_addr reader" where
  "read_socket_addr_v6 =
     then_read (read_char CHR ''['') (\<lambda>_. then_read read_ipv6_addr (\<lambda>ip s.
     case (case read_scope_id s of Some (n, rest) \<Rightarrow> (n, rest) | None \<Rightarrow> (0, s)) of (scope, rest) \<Rightarrow>
       then_read (read_char CHR '']'') (\<lambda>_. then_read read_port (\<lambda>port s. Some (SocketV6 ip scope port, s))) rest))"

definition read_socket_addr :: "socket_addr reader" where
  "read_socket_addr s = (case read_socket_addr_v4 s of Some x \<Rightarrow> Some x | None \<Rightarrow> read_socket_addr_v6 s)"

text \<open>The whole text must be consumed.\<close>

definition parse_with :: "'a reader \<Rightarrow> string \<Rightarrow> 'a option" where
  "parse_with p s = (case p s of Some (a, []) \<Rightarrow> Some a | _ \<Rightarrow> None)"

definition parse_ip_addr :: "string \<Rightarrow> ip_addr option" where
  "parse_ip_addr = parse_with read_ip_addr"

definition parse_socket_addr :: "string \<Rightarrow> socket_addr option" where
  "parse_socket_addr = parse_with read_socket_addr"

section \<open>What it accepts\<close>

text \<open>The text of an IPv4 socket address, as \<^verbatim>\<open>Display\<close> writes it, is read back.\<close>

definition show_ipv4 :: "ipv4 \<Rightarrow> string" where
  "show_ipv4 ip = (case ip of (a, b, c, d) \<Rightarrow>
     show_nat (unat a) @ ''.'' @ show_nat (unat b) @ ''.'' @ show_nat (unat c) @ ''.'' @ show_nat (unat d))"

lemma decimal_digit: "is_digit c \<Longrightarrow> to_digit 10 c = Some (digit_val c)"
  by (auto simp: is_digit_def to_digit_def ascii_lower_def digit_val_def Let_def)

lemma not_decimal: "\<not> is_digit c \<Longrightarrow> to_digit 10 c = None"
  by (auto simp: is_digit_def to_digit_def ascii_lower_def Let_def)

lemma read_digits_value:
  "\<forall>c\<in>set ds. is_digit c \<Longrightarrow> \<exists>v. read_digits acc ds = Some v \<and>
     int v = foldl (\<lambda>v c. v * 10 + (case to_digit 10 c of Some d \<Rightarrow> int d | None \<Rightarrow> 0)) (int acc) ds"
proof (induction ds arbitrary: acc)
  case (Cons c ds)
  with Cons.IH [of "10 * acc + digit_val c"] show ?case by (simp add: decimal_digit mult.commute)
qed simp

lemma value_show: "digits_value 10 (show_nat n) = int n"
  using read_digits_value [of "show_nat n" 0] show_nat_digits by (auto simp: digits_value_def)

lemma show_nat_length: "length (show_nat n) \<le> k \<longleftrightarrow> n < 10 ^ k" if "0 < k"
  using that
proof (induction n arbitrary: k rule: show_nat.induct)
  case (1 n)
  show ?case
  proof (cases "n < 10")
    case True
    moreover have "10 ^ 1 \<le> (10 :: nat) ^ k" using 1(2) by (intro power_increasing) simp_all
    ultimately show ?thesis using 1(2) by (subst show_nat.simps) simp
  next
    case False
    then obtain j where k: "k = Suc j" using 1(2) by (cases k) simp_all
    have len: "length (show_nat n) = Suc (length (show_nat (n div 10)))" using False by (subst show_nat.simps) simp
    show ?thesis
    proof (cases "j = 0")
      case True
      with False len k show ?thesis by simp
    next
      case j: False
      with 1(1) [OF False, of j] show ?thesis by (simp add: len k less_mult_imp_div_less div_less_iff_less_mult mult.commute)
    qed
  qed
qed

lemma show_nat_leading: "hd (show_nat n) = CHR ''0'' \<Longrightarrow> length (show_nat n) = 1"
proof (induction n rule: show_nat.induct)
  case (1 n)
  show ?case
  proof (cases "n < 10")
    case False
    then have s: "show_nat n = show_nat (n div 10) @ [digit_char (n mod 10)]" by (subst show_nat.simps) simp
    then have "hd (show_nat (n div 10)) = CHR ''0''" using 1(2) by simp
    then have one: "show_nat (n div 10) = [CHR ''0'']" using 1(1) [OF False] by (cases "show_nat (n div 10)") auto
    then have "n div 10 = 0" using value_show [of "n div 10"] by (simp add: digits_value_def to_digit_def ascii_lower_def)
    with False show ?thesis by simp
  qed (subst show_nat.simps, simp)
qed

lemma read_decimal:
  assumes "case rest of [] \<Rightarrow> True | c # _ \<Rightarrow> \<not> is_digit c" and "int n < bound" and "case m of None \<Rightarrow> True | Some k \<Rightarrow> 0 < k \<and> n < 10 ^ k"
  shows "read_number 10 m z bound (show_nat n @ rest) = Some (int n, rest)"
proof -
  let ?P = "\<lambda>c. to_digit 10 c \<noteq> None"
  have all: "\<forall>c\<in>set (show_nat n). ?P c" using show_nat_digits decimal_digit by fastforce
  have "takeWhile ?P rest = [] \<and> dropWhile ?P rest = rest" using assms(1) not_decimal by (cases rest) auto
  then have "takeWhile ?P (show_nat n @ rest) = show_nat n" "dropWhile ?P (show_nat n @ rest) = rest"
    using all by (simp_all add: takeWhile_append2 dropWhile_append2)
  moreover have "hd (show_nat n) = CHR ''0'' \<Longrightarrow> n < 10"
    using show_nat_leading [of n] show_nat_length [of 1 n] by simp
  ultimately show ?thesis
    using assms by (cases m) (auto simp: read_number_def Let_def value_show show_nat_length not_less)
qed

lemma read_octet_show: "read_octet (show_nat (unat (x :: u8)) @ CHR ''.'' # rest) = Some (uint x, CHR ''.'' # rest)"
  "case rest of [] \<Rightarrow> True | c # _ \<Rightarrow> \<not> is_digit c \<Longrightarrow> read_octet (show_nat (unat x) @ rest) = Some (uint x, rest)"
proof -
  have x: "unat x < 2 ^ 8" "uint x < 2 ^ 8" using unsigned_less [of x, where ?'a = nat] unsigned_less [of x, where ?'a = int] by simp_all
  show "read_octet (show_nat (unat x) @ CHR ''.'' # rest) = Some (uint x, CHR ''.'' # rest)"
    using read_decimal [of "CHR ''.'' # rest" "unat x" "2 ^ 8" "Some 3" False] x by (simp add: read_octet_def is_digit_def)
  show "read_octet (show_nat (unat x) @ rest) = Some (uint x, rest)" if "case rest of [] \<Rightarrow> True | c # _ \<Rightarrow> \<not> is_digit c"
    using read_decimal [OF that, of "unat x" "2 ^ 8" "Some 3" False] x by (simp add: read_octet_def)
qed

lemma read_ipv4_show:
  assumes "case rest of [] \<Rightarrow> True | c # _ \<Rightarrow> \<not> is_digit c"
  shows "read_ipv4_addr (show_ipv4 ip @ rest) = Some (ip, rest)"
proof -
  obtain a b c d where ip: "ip = (a, b, c, d)" by (cases ip)
  show ?thesis
    by (simp add: ip show_ipv4_def read_ipv4_addr_def then_read_def read_octet_show(1) read_octet_show(2) [OF assms])
qed

lemma parse_socket_show: "parse_socket_addr (show_ipv4 ip @ CHR '':'' # show_nat (unat port)) = Some (SocketV4 ip port)"
proof -
  have "read_number 10 None True (2 ^ 16) (show_nat (unat port) @ []) = Some (uint port, [])"
    using read_decimal [of "[]" "unat port" "2 ^ 16" None True] unsigned_less [of port, where ?'a = int] by simp
  then have "read_port (CHR '':'' # show_nat (unat port)) = Some (port, [])" by (simp add: read_port_def then_read_def)
  moreover have "read_ipv4_addr (show_ipv4 ip @ CHR '':'' # show_nat (unat port)) = Some (ip, CHR '':'' # show_nat (unat port))"
    by (rule read_ipv4_show) (simp add: is_digit_def)
  ultimately show ?thesis
    by (simp add: parse_socket_addr_def parse_with_def read_socket_addr_def read_socket_addr_v4_def then_read_def)
qed

lemma parse_ip_show: "parse_ip_addr (show_ipv4 ip) = Some (V4 ip)"
  using read_ipv4_show [of "[]" ip] by (simp add: parse_ip_addr_def parse_with_def read_ip_addr_def)

text \<open>A text that begins with neither a digit nor a bracket, such as a host name or a URL, is no socket address.\<close>

lemma parse_socket_host:
  assumes "\<not> is_digit (hd s)" and "hd s \<noteq> CHR ''[''"
  shows "parse_socket_addr s = None"
proof -
  have "takeWhile (\<lambda>c. to_digit 10 c \<noteq> None) s = []" using assms(1) not_decimal by (cases s) auto
  then have "read_ipv4_addr s = None" by (simp add: read_ipv4_addr_def then_read_def read_octet_def read_number_def)
  moreover have "read_socket_addr_v6 s = None" using assms(2) by (cases s) (simp_all add: read_socket_addr_v6_def then_read_def)
  ultimately show ?thesis
    by (simp add: parse_socket_addr_def parse_with_def read_socket_addr_def read_socket_addr_v4_def then_read_def)
qed

end
