(* ===== verification/Quic_Wire.thy ===== *)
theory Quic_Wire
  imports Ports Std_Net
begin

text \<open>
  The QUIC peer transport, \<^verbatim>\<open>crates/adapter-quic\<close>: request and response framing (\<^verbatim>\<open>wire.rs\<close>),
  the server side that serves a local anchor (\<^verbatim>\<open>server.rs\<close>) and the client side that implements
  the \<^verbatim>\<open>ShardTransport\<close> port (\<^verbatim>\<open>transport.rs\<close>).  The QUIC library itself (\<^verbatim>\<open>quinn\<close>) is the argument
  \<open>dial\<close>: it carries one request to an address and brings back the answer, or fails with a text.
\<close>

section \<open>UTF-8 (String::from\_utf8)\<close>

definition utf8_cont :: "byte \<Rightarrow> bool" where
  "utf8_cont b \<longleftrightarrow> 0x80 \<le> unat b \<and> unat b \<le> 0xBF"

definition utf8_second3 :: "nat \<Rightarrow> byte \<Rightarrow> bool" where
  "utf8_second3 n b \<longleftrightarrow> utf8_cont b \<and> (n = 0xE0 \<longrightarrow> 0xA0 \<le> unat b) \<and> (n = 0xED \<longrightarrow> unat b \<le> 0x9F)"

definition utf8_second4 :: "nat \<Rightarrow> byte \<Rightarrow> bool" where
  "utf8_second4 n b \<longleftrightarrow> utf8_cont b \<and> (n = 0xF0 \<longrightarrow> 0x90 \<le> unat b) \<and> (n = 0xF4 \<longrightarrow> unat b \<le> 0x8F)"

fun utf8_valid :: "bytes \<Rightarrow> bool" where
  "utf8_valid [] \<longleftrightarrow> True"
| "utf8_valid (b # bs) \<longleftrightarrow>
     (let n = unat b in
      if n < 0x80 then utf8_valid bs
      else if 0xC2 \<le> n \<and> n \<le> 0xDF
      then (case bs of b2 # rest \<Rightarrow> utf8_cont b2 \<and> utf8_valid rest | _ \<Rightarrow> False)
      else if 0xE0 \<le> n \<and> n \<le> 0xEF
      then (case bs of b2 # b3 # rest \<Rightarrow> utf8_second3 n b2 \<and> utf8_cont b3 \<and> utf8_valid rest | _ \<Rightarrow> False)
      else if 0xF0 \<le> n \<and> n \<le> 0xF4
      then (case bs of b2 # b3 # b4 # rest \<Rightarrow>
              utf8_second4 n b2 \<and> utf8_cont b3 \<and> utf8_cont b4 \<and> utf8_valid rest | _ \<Rightarrow> False)
      else False)"

definition from_utf8 :: "bytes \<Rightarrow> string option" where
  "from_utf8 bs = (if utf8_valid bs then Some (of_bytes bs) else None)"

section \<open>Framing (wire.rs)\<close>

definition MAX_FRAME :: nat where
  "MAX_FRAME = 16 * 1024 * 1024"

definition OP_GET :: u8 where "OP_GET = 0"
definition OP_PUT :: u8 where "OP_PUT = 1"
definition ST_OK :: u8 where "ST_OK = 0"
definition ST_NOT_FOUND :: u8 where "ST_NOT_FOUND = 1"
definition ST_ERR :: u8 where "ST_ERR = 2"

definition shard_key :: "shard_ref \<Rightarrow> string" where
  "shard_key at = ns_str (sr_namespace at) @ ''/'' @ blob_str (sr_blob_id at) @ ''/'' @ show_nat (unat (sr_index at))"

text \<open>\<^verbatim>\<open>str::parse::<u16>\<close>: an optional plus sign, at least one digit, no overflow.\<close>

definition parse_u16 :: "string \<Rightarrow> u16 option" where
  "parse_u16 s =
     (let digits = (case s of c # cs \<Rightarrow> if c = CHR ''+'' then cs else s | [] \<Rightarrow> []) in
      if digits = [] then None
      else case read_digits 0 digits of None \<Rightarrow> None
        | Some v \<Rightarrow> if v < 2 ^ 16 then Some (word_of_nat v) else None)"

definition parse_key :: "string \<Rightarrow> shard_ref option" where
  "parse_key key =
     (case split_on (CHR ''/'') key of
        [ns, blob, idx] \<Rightarrow> map_option (shard_ref_new (NamespaceId ns) (BlobId blob)) (parse_u16 idx)
      | _ \<Rightarrow> None)"

definition encode_request :: "u8 \<Rightarrow> string \<Rightarrow> bytes \<Rightarrow> bytes" where
  "encode_request oper key payload =
     (let kb = as_bytes key in [oper] @ be_bytes 2 (word_of_nat (length kb) :: u16) @ kb @ payload)"

definition u16_from_be :: "byte \<Rightarrow> byte \<Rightarrow> u16" where
  "u16_from_be hi lo = push_bit 8 (ucast hi) + ucast lo"

definition parse_request :: "bytes \<Rightarrow> (u8 \<times> string \<times> bytes) option" where
  "parse_request buf =
     (if length buf < 3 then None
      else let oper = buf ! 0; klen = unat (u16_from_be (buf ! 1) (buf ! 2)) in
        if length buf < 3 + klen then None
        else case from_utf8 (take klen (drop 3 buf)) of
            None \<Rightarrow> None
          | Some key \<Rightarrow> Some (oper, key, drop (3 + klen) buf))"

definition encode_response :: "u8 \<Rightarrow> bytes \<Rightarrow> bytes" where
  "encode_response status payload = status # payload"

section \<open>The server (server.rs)\<close>

definition serve :: "'w blob_anchor \<Rightarrow> bytes \<Rightarrow> 'w \<Rightarrow> bytes \<times> 'w" where
  "serve anchor buf w =
     (case parse_request buf of
        None \<Rightarrow> (encode_response ST_ERR [], w)
      | Some (oper, key, payload) \<Rightarrow>
          (case parse_key key of
             None \<Rightarrow> (encode_response ST_ERR [], w)
           | Some at \<Rightarrow>
               if oper = OP_GET
               then (case ba_get_shard anchor at w of
                       (Inr bs, w') \<Rightarrow> (encode_response ST_OK bs, w')
                     | (Inl NotFound, w') \<Rightarrow> (encode_response ST_NOT_FOUND [], w')
                     | (Inl _, w') \<Rightarrow> (encode_response ST_ERR [], w'))
               else if oper = OP_PUT
               then (case ba_put_shard anchor at payload w of
                       (Inr _, w') \<Rightarrow> (encode_response ST_OK [], w')
                     | (Inl _, w') \<Rightarrow> (encode_response ST_ERR [], w'))
               else (encode_response ST_ERR [], w)))"

text \<open>\<^verbatim>\<open>read_to_end(MAX_FRAME)\<close> fails on a longer stream.\<close>

definition handle_stream :: "'w blob_anchor \<Rightarrow> bytes \<Rightarrow> 'w \<Rightarrow> bytes \<times> 'w" where
  "handle_stream anchor buf w =
     (if length buf \<le> MAX_FRAME then serve anchor buf w else (encode_response ST_ERR [], w))"

section \<open>The client (transport.rs)\<close>

type_synonym 'w dial = "socket_addr \<Rightarrow> bytes \<Rightarrow> (string, 'w, bytes) act"

definition quic_backend :: "string \<Rightarrow> port_error" where
  "quic_backend e = Unavailable (''quic: '' @ e)"

definition round_trip :: "'w dial \<Rightarrow> string \<Rightarrow> bytes \<Rightarrow> ('w, bytes) io" where
  "round_trip dial peer request =
     io_bind (io_lift (ok_or (Backend (''bad peer address: '' @ peer)) (parse_socket_addr peer))) (\<lambda>addr.
     io_bind (io_map_err quic_backend (dial addr request)) (\<lambda>resp.
     if length resp \<le> MAX_FRAME then io_return resp else io_throw (quic_backend ''stream too long'')))"

definition quic_send_shard :: "'w dial \<Rightarrow> string \<Rightarrow> shard_ref \<Rightarrow> bytes \<Rightarrow> ('w, unit) io" where
  "quic_send_shard dial peer at bs =
     io_bind (round_trip dial peer (encode_request OP_PUT (shard_key at) bs)) (\<lambda>resp.
     case resp of
       status # _ \<Rightarrow> if status = ST_OK then io_return ()
                     else io_throw (Backend (''peer '' @ peer @ '' rejected put''))
     | [] \<Rightarrow> io_throw (Backend (''peer '' @ peer @ '' rejected put'')))"

definition quic_fetch_shard :: "'w dial \<Rightarrow> string \<Rightarrow> shard_ref \<Rightarrow> ('w, bytes) io" where
  "quic_fetch_shard dial peer at =
     io_bind (round_trip dial peer (encode_request OP_GET (shard_key at) [])) (\<lambda>resp.
     case resp of
       status # payload \<Rightarrow>
         if status = ST_OK then io_return payload
         else if status = ST_NOT_FOUND then io_throw NotFound
         else io_throw (Backend (''peer '' @ peer @ '' error''))
     | [] \<Rightarrow> io_throw (Backend (''peer '' @ peer @ '' error'')))"

definition quic_shard_transport :: "'w dial \<Rightarrow> 'w shard_transport" where
  "quic_shard_transport dial = \<lparr>st_send_shard = quic_send_shard dial, st_fetch_shard = quic_fetch_shard dial\<rparr>"

section \<open>Round trips\<close>

lemma utf8_ascii: "\<forall>c\<in>set s. (of_char c :: nat) < 128 \<Longrightarrow> utf8_valid (as_bytes s)"
  by (induction s) (auto simp: as_bytes_def)

lemma u16_be_bytes: "\<exists>hi lo. be_bytes 2 (x :: u16) = [hi, lo] \<and> u16_from_be hi lo = x"
proof -
  let ?hi = "ucast (drop_bit 8 x) :: byte" and ?lo = "ucast x :: byte"
  have "be_bytes 2 x = [?hi, ?lo]" by (simp add: be_bytes_def upt_conv_Cons numeral_2_eq_2)
  moreover have "u16_from_be ?hi ?lo = x"
  proof -
    have "push_bit 8 (ucast ?hi :: u16) = push_bit 8 (drop_bit 8 x)"
      by (rule bit_word_eqI) (auto simp: bit_simps)
    moreover have "(ucast ?lo :: u16) = take_bit 8 x"
      by (rule bit_word_eqI) (auto simp: bit_simps)
    ultimately show ?thesis by (simp add: u16_from_be_def bits_ident)
  qed
  ultimately show ?thesis by blast
qed

lemma parse_encode_request:
  assumes "length key < 2 ^ 16" and "utf8_valid (as_bytes key)"
  shows "parse_request (encode_request oper key payload) = Some (oper, key, payload)"
proof -
  obtain hi lo where be: "be_bytes 2 (word_of_nat (length key) :: u16) = [hi, lo]"
      "u16_from_be hi lo = word_of_nat (length key)"
    using u16_be_bytes by blast
  have "unat (word_of_nat (length key) :: u16) = length key" using assms(1) by (simp add: unat_of_nat_small)
  moreover have "drop (3 + length key) (oper # hi # lo # as_bytes key @ payload) = payload"
    by (simp add: numeral_3_eq_3)
  ultimately show ?thesis
    using assms(2) be by (simp add: parse_request_def encode_request_def Let_def from_utf8_def)
qed

lemma parse_u16_digits:
  "s \<noteq> [] \<Longrightarrow> hd s \<noteq> CHR ''+'' \<Longrightarrow> parse_u16 s =
     (case read_digits 0 s of None \<Rightarrow> None | Some v \<Rightarrow> if v < 2 ^ 16 then Some (word_of_nat v) else None)"
  by (cases s) (simp_all add: parse_u16_def Let_def del: read_digits.simps)

lemma parse_u16_show: "parse_u16 (show_nat (unat (i :: u16))) = Some i"
proof -
  have "hd (show_nat (unat i)) \<in> set (show_nat (unat i))" by (rule hd_in_set) simp
  then have "is_digit (hd (show_nat (unat i)))" by (rule show_nat_digits)
  then have "hd (show_nat (unat i)) \<noteq> CHR ''+''" by (auto simp: is_digit_def)
  moreover have "unat i < 2 ^ 16" using unsigned_less [of i, where ?'a = nat] by simp
  ultimately show ?thesis by (simp add: parse_u16_digits)
qed

lemma slash_not_in_show_nat [simp]: "CHR ''/'' \<notin> set (show_nat n)"
  using show_nat_digits [of "CHR ''/''" n] by (auto simp: is_digit_def)

lemma parse_shard_key:
  assumes "CHR ''/'' \<notin> set (ns_str (sr_namespace at))" and "CHR ''/'' \<notin> set (blob_str (sr_blob_id at))"
  shows "parse_key (shard_key at) = Some at"
  using assms
  by (simp add: parse_key_def shard_key_def split_on_append split_on_none parse_u16_show shard_ref_new_def)

text \<open>Shard addresses that fit a request: slash-free UTF-8 ids and a short key.\<close>

definition wire_ref :: "shard_ref \<Rightarrow> bool" where
  "wire_ref at \<longleftrightarrow> CHR ''/'' \<notin> set (ns_str (sr_namespace at)) \<and> CHR ''/'' \<notin> set (blob_str (sr_blob_id at)) \<and>
     length (shard_key at) < 2 ^ 16 \<and> utf8_valid (as_bytes (shard_key at))"

text \<open>
  The request frame round-trips: what a client encodes for a shard address is what the server
  decodes, operation, address and payload alike.
\<close>

theorem quic_request_roundtrip:
  assumes "wire_ref at"
  shows "(case parse_request (encode_request oper (shard_key at) payload) of
      Some (oper', key, payload') \<Rightarrow> oper' = oper \<and> parse_key key = Some at \<and> payload' = payload
    | None \<Rightarrow> False)"
  using assms by (simp add: wire_ref_def parse_encode_request parse_shard_key)

theorem quic_request_roundtrip_witness:
  "(let at = \<lparr>sr_namespace = NamespaceId ''ns-1'', sr_blob_id = BlobId ''b-1'', sr_index = 7\<rparr>
    in wire_ref at \<and> (case parse_request (encode_request OP_PUT (shard_key at) [1, 2]) of
      Some (oper', key, payload') \<Rightarrow> oper' = OP_PUT \<and> parse_key key = Some at \<and> payload' = [1, 2]
    | None \<Rightarrow> False))"
proof -
  let ?at = "\<lparr>sr_namespace = NamespaceId ''ns-1'', sr_blob_id = BlobId ''b-1'', sr_index = 7\<rparr>"
  have "shard_key ?at = ''ns-1/b-1/7''" by code_simp
  moreover have "utf8_valid (as_bytes ''ns-1/b-1/7'')" by (rule utf8_ascii) simp
  ultimately have "wire_ref ?at" by (simp add: wire_ref_def)
  then show ?thesis using quic_request_roundtrip [of ?at OP_PUT "[1, 2]"] by (simp only: Let_def simp_thms)
qed

section \<open>A peer served over QUIC is its anchor\<close>

lemma serve_put:
  assumes "wire_ref at"
  shows "serve ba (encode_request OP_PUT (shard_key at) bs) w =
    (case ba_put_shard ba at bs w of (Inr _, w') \<Rightarrow> ([ST_OK], w') | (Inl _, w') \<Rightarrow> ([ST_ERR], w'))"
  using assms
  by (simp add: serve_def wire_ref_def parse_encode_request parse_shard_key encode_response_def OP_PUT_def OP_GET_def
      split: prod.split sum.split)

lemma serve_get:
  assumes "wire_ref at"
  shows "serve ba (encode_request OP_GET (shard_key at) []) w =
    (case ba_get_shard ba at w of (Inr bs, w') \<Rightarrow> (ST_OK # bs, w')
     | (Inl NotFound, w') \<Rightarrow> ([ST_NOT_FOUND], w') | (Inl _, w') \<Rightarrow> ([ST_ERR], w'))"
  using assms
  by (simp add: serve_def wire_ref_def parse_encode_request parse_shard_key encode_response_def
      split: prod.split sum.split port_error.split)

definition frame_fits :: "shard_ref \<Rightarrow> bytes \<Rightarrow> bool" where
  "frame_fits at bs \<longleftrightarrow> 3 + length (shard_key at) + length bs \<le> MAX_FRAME"

lemma length_encode_request: "length (encode_request oper key bs) = 3 + length key + length bs"
  by (simp add: encode_request_def Let_def)

text \<open>A peer whose address does not parse is never dialled.\<close>

lemma bad_peer:
  assumes "parse_socket_addr peer = None"
  shows "quic_send_shard dial peer at bs w = (Inl (Backend (''bad peer address: '' @ peer)), w)"
    and "quic_fetch_shard dial peer at w = (Inl (Backend (''bad peer address: '' @ peer)), w)"
  using assms by (simp_all add: quic_send_shard_def quic_fetch_shard_def round_trip_def io_bind_def io_lift_def)

end
