(* ===== verification/Token_Crypto.thy ===== *)
theory Token_Crypto
  imports Ports
begin

text \<open>
  The crypto adapters, \<^verbatim>\<open>crates/adapter-crypto\<close>, and the client's content cipher,
  \<^verbatim>\<open>crates/vault-client/src/content.rs\<close>.  The algorithms of the third-party crates (ed25519,
  AES-GCM, HKDF, SHA-256, hex) are parameters; what the adapters add is modelled: which bytes are
  signed, the length checks, the wire layout \<open>nonce || ciphertext\<close> and the error branches.
\<close>

section \<open>Capability signatures (capability.rs)\<close>

record ed25519_crate =
  ed_sign :: "bytes \<Rightarrow> bytes \<Rightarrow> bytes"
  ed_verifying_key :: "bytes \<Rightarrow> bytes"
  ed_key_from_bytes :: "bytes \<Rightarrow> string + bytes"
  ed_verify :: "bytes \<Rightarrow> bytes \<Rightarrow> bytes \<Rightarrow> bool"

definition ed25519_sign :: "ed25519_crate \<Rightarrow> bytes \<Rightarrow> capability_claims \<Rightarrow> port_error + capability_token" where
  "ed25519_sign c key claims =
     Inr \<lparr>ct_claims = claims, ct_signature = ed_sign c key (canonical_bytes claims)\<rparr>"

definition ed25519_signer :: "ed25519_crate \<Rightarrow> bytes \<Rightarrow> capability_signer" where
  "ed25519_signer c key = \<lparr>cs_sign = ed25519_sign c key, cs_public_key = ed_verifying_key c key\<rparr>"

definition ed25519_verify_signature ::
  "ed25519_crate \<Rightarrow> bytes \<Rightarrow> capability_token \<Rightarrow> port_error + unit" where
  "ed25519_verify_signature c key tok =
     (if length (ct_signature tok) \<noteq> 64 then Inl (Crypto ''signature must be 64 bytes'')
      else if ed_verify c key (canonical_bytes (ct_claims tok)) (ct_signature tok) then Inr ()
      else Inl (Crypto ''capability signature invalid''))"

definition ed25519_verifier :: "ed25519_crate \<Rightarrow> bytes \<Rightarrow> auth_verifier" where
  "ed25519_verifier c key = \<lparr>av_verify_signature = ed25519_verify_signature c key\<rparr>"

definition verifier_from_public_key :: "ed25519_crate \<Rightarrow> bytes \<Rightarrow> port_error + auth_verifier" where
  "verifier_from_public_key c bs =
     (if length bs \<noteq> 32 then Inl (Crypto ''public key must be 32 bytes'')
      else case ed_key_from_bytes c bs of
        Inl e \<Rightarrow> Inl (Crypto (''bad public key: '' @ e))
      | Inr key \<Rightarrow> Inr (ed25519_verifier c key))"

section \<open>Content encryption (content.rs of adapter-crypto)\<close>

record content_crates =
  hkdf_expand :: "bytes \<Rightarrow> bytes \<Rightarrow> bytes"
  gcm_seal :: "bytes \<Rightarrow> bytes \<Rightarrow> bytes \<Rightarrow> string + bytes"
  gcm_open :: "bytes \<Rightarrow> bytes \<Rightarrow> bytes \<Rightarrow> string + bytes"
  sha256 :: "bytes \<Rightarrow> bytes"
  hex_encode :: "bytes \<Rightarrow> string"

definition NONCE_LEN :: nat where
  "NONCE_LEN = 12"

definition aes_encrypt ::
  "content_crates \<Rightarrow> ('w \<Rightarrow> bytes \<times> 'w) \<Rightarrow> bytes \<Rightarrow> bytes \<Rightarrow> ('w, bytes) io" where
  "aes_encrypt c os_rng key plaintext =
     io_bind (io_read os_rng) (\<lambda>nonce_bytes.
     io_lift (case gcm_seal c key nonce_bytes plaintext of
         Inl e \<Rightarrow> Inl (Crypto (''aes-gcm encrypt: '' @ e))
       | Inr ct \<Rightarrow> Inr (nonce_bytes @ ct)))"

definition aes_decrypt :: "content_crates \<Rightarrow> bytes \<Rightarrow> bytes \<Rightarrow> port_error + bytes" where
  "aes_decrypt c key blob =
     (if length blob < NONCE_LEN then Inl (Crypto ''ciphertext shorter than nonce'')
      else case gcm_open c key (take NONCE_LEN blob) (drop NONCE_LEN blob) of
        Inl e \<Rightarrow> Inl (Crypto (''aes-gcm decrypt: '' @ e))
      | Inr pt \<Rightarrow> Inr pt)"

definition aes_sha256_hex :: "content_crates \<Rightarrow> bytes \<Rightarrow> string" where
  "aes_sha256_hex c bs = hex_encode c (sha256 c bs)"

definition aes_gcm_cryptographer ::
  "content_crates \<Rightarrow> ('w \<Rightarrow> bytes \<times> 'w) \<Rightarrow> 'w cryptographer" where
  "aes_gcm_cryptographer c os_rng =
     \<lparr>cr_derive_key = hkdf_expand c, cr_encrypt = aes_encrypt c os_rng,
      cr_decrypt = aes_decrypt c, cr_sha256_hex = aes_sha256_hex c\<rparr>"

section \<open>The client's content cipher (vault-client content.rs)\<close>

datatype client_error =
    Transport string
  | Server u16 string
  | Encoding string
  | ClientCrypto string

record 'w content_cipher =
  cip_crypto :: "'w cryptographer"
  cip_key :: bytes

definition cipher_for_namespace :: "'w cryptographer \<Rightarrow> bytes \<Rightarrow> string \<Rightarrow> 'w content_cipher" where
  "cipher_for_namespace cr secret ns =
     \<lparr>cip_crypto = cr, cip_key = cr_derive_key cr secret (as_bytes ns)\<rparr>"

text \<open>\<^verbatim>\<open>e.to_string()\<close> of a crypto error; \<open>show_err\<close> is the \<^verbatim>\<open>Display\<close> of port errors.\<close>

definition cipher_encrypt ::
  "(port_error \<Rightarrow> string) \<Rightarrow> 'w content_cipher \<Rightarrow> bytes \<Rightarrow> (client_error, 'w, bytes) act" where
  "cipher_encrypt show_err ci plaintext =
     io_map_err (\<lambda>e. ClientCrypto (show_err e)) (cr_encrypt (cip_crypto ci) (cip_key ci) plaintext)"

definition cipher_decrypt ::
  "(port_error \<Rightarrow> string) \<Rightarrow> 'w content_cipher \<Rightarrow> bytes \<Rightarrow> client_error + bytes" where
  "cipher_decrypt show_err ci ciphertext =
     map_sum (\<lambda>e. ClientCrypto (show_err e)) id (cr_decrypt (cip_crypto ci) (cip_key ci) ciphertext)"

section \<open>Properties\<close>

text \<open>What the ed25519 crate promises for a key: signatures have 64 bytes and verify.\<close>

definition ed_correct :: "ed25519_crate \<Rightarrow> bytes \<Rightarrow> bool" where
  "ed_correct c key \<longleftrightarrow> (\<forall>msg. length (ed_sign c key msg) = 64 \<and>
     ed_verify c (ed_verifying_key c key) msg (ed_sign c key msg))"

lemma sign_then_verify:
  "ed_correct c key \<Longrightarrow> ed25519_sign c key claims = Inr tok \<Longrightarrow>
     ed25519_verify_signature c (ed_verifying_key c key) tok = Inr () \<and> ct_claims tok = claims"
  by (auto simp: ed_correct_def ed25519_sign_def ed25519_verify_signature_def)

text \<open>
  Unforgeability, for the set of messages the key holder has signed: nothing else verifies.
\<close>

definition ed_unforgeable :: "ed25519_crate \<Rightarrow> bytes \<Rightarrow> bytes set \<Rightarrow> bool" where
  "ed_unforgeable c pub msgs \<longleftrightarrow> (\<forall>msg sig. ed_verify c pub msg sig \<longrightarrow> msg \<in> msgs)"


definition demo_claims :: capability_claims where
  "demo_claims = \<lparr>cc_app_id = AppId ''app-a'', cc_namespace = NamespaceId ''ns-1'',
     cc_operation = OpPut, cc_nonce = Nonce ''n-1'', cc_expires_at = Timestamp 10000\<rparr>"

text \<open>A scheme whose only valid message is that of \<open>demo_claims\<close>, and one that is merely correct.\<close>

definition demo_ed :: ed25519_crate where
  "demo_ed = \<lparr>ed_sign = (\<lambda>key msg. replicate 64 0), ed_verifying_key = (\<lambda>key. key),
     ed_key_from_bytes = Inr, ed_verify = (\<lambda>pub msg sig. msg = canonical_bytes demo_claims)\<rparr>"

definition lenient_ed :: ed25519_crate where
  "lenient_ed = \<lparr>ed_sign = (\<lambda>key msg. replicate 64 0), ed_verifying_key = (\<lambda>key. key),
     ed_key_from_bytes = Inr, ed_verify = (\<lambda>pub msg sig. True)\<rparr>"

lemma lenient_ed_correct: "ed_correct lenient_ed key"
  by (simp add: ed_correct_def lenient_ed_def)


text \<open>What AES-GCM and the random source promise: opening what was sealed, and 12-byte nonces.\<close>

definition gcm_correct :: "content_crates \<Rightarrow> bool" where
  "gcm_correct c \<longleftrightarrow> (\<forall>key nonce pt ct. length nonce = NONCE_LEN \<longrightarrow>
     gcm_seal c key nonce pt = Inr ct \<longrightarrow> gcm_open c key nonce ct = Inr pt)"

text \<open>
  Client-side encryption round trip: what the content cipher of a namespace encrypts, it
  decrypts to the same payload, through the layout \<open>nonce || ciphertext\<close> with a fresh nonce.
\<close>

lemma content_cipher_roundtrip:
  fixes rng :: "'w \<Rightarrow> bytes \<times> 'w"
  assumes "gcm_correct c" and "\<forall>w. length (fst (rng w)) = NONCE_LEN"
    and "ci = cipher_for_namespace (aes_gcm_cryptographer c rng) secret ns"
    and "cipher_encrypt show_err ci payload w = (Inr blob, w')"
  shows "cipher_decrypt show_err ci blob = Inr payload"
proof -
  obtain nonce w1 where rng: "rng w = (nonce, w1)" by (cases "rng w")
  with assms(2) have len: "length nonce = NONCE_LEN" by (metis fst_conv)
  from assms(3,4) rng obtain ct where "gcm_seal c (cip_key ci) nonce payload = Inr ct"
    and "blob = nonce @ ct"
    by (auto simp: cipher_encrypt_def cipher_for_namespace_def aes_gcm_cryptographer_def
        aes_encrypt_def io_bind_Inr io_read_eq io_lift_def split: sum.splits)
  then show ?thesis
    using assms(1,3) len
    by (auto simp: cipher_decrypt_def cipher_for_namespace_def aes_gcm_cryptographer_def
        aes_decrypt_def gcm_correct_def)
qed

definition demo_content :: content_crates where
  "demo_content = \<lparr>hkdf_expand = (\<lambda>s x. replicate 32 0),
     gcm_seal = (\<lambda>key nonce pt. Inr (map (\<lambda>b. b + 1) pt)),
     gcm_open = (\<lambda>key nonce ct. Inr (map (\<lambda>b. b - 1) ct)),
     sha256 = (\<lambda>bs. bs), hex_encode = of_bytes\<rparr>"

end
