(* ===== verification/Deployment.thy ===== *)
theory Deployment
  imports Maintenance Memstore Blob_Fs Quic_Wire Token_Crypto
begin

text \<open>
  A running node: the use-cases wired to concrete adapters, as \<^verbatim>\<open>bins/node-agent/src/main.rs\<close> does
  with the filesystem anchor, the Reed-Solomon coder, the QUIC mesh, the system clock and random
  ids (\<^verbatim>\<open>adapter-crypto/src/runtime.rs\<close>).  The world holds the coordinator's metadata store, the
  node's disk, the peers' disks, and what the environment will answer: clock readings, random
  bits, the fate of each metadata call and of each dial.  All laws of the interface locales are
  discharged here for this wiring, and the properties of the data plane are stated over it.
\<close>

section \<open>The world\<close>

text \<open>A call to the coordinator arrives, or is lost on the way there or back with that error text.\<close>

datatype call_fate = Delivered | RequestLost string | ReplyLost string

record world =
  w_meta :: memstore
  w_fs :: fs
  w_peers :: "socket_addr \<Rightarrow> fs"
  w_calls :: "nat \<Rightarrow> call_fate"
  w_called :: nat
  w_link :: "nat \<Rightarrow> string option"
  w_dialled :: nat
  w_clock :: "nat \<Rightarrow> u64"
  w_ticks :: nat
  w_random :: "nat \<Rightarrow> 128 word"
  w_draws :: nat

text \<open>A metadata call: lost on the way, executed with the reply lost, or executed.\<close>

definition on_meta :: "(memstore, 'a) io \<Rightarrow> (world, 'a) io" where
  "on_meta m w =
     (let w' = w\<lparr>w_called := Suc (w_called w)\<rparr> in
      case w_calls w (w_called w) of
        RequestLost e \<Rightarrow> (Inl (Unavailable (''coordinator: '' @ e)), w')
      | ReplyLost e \<Rightarrow> (Inl (Unavailable (''coordinator: '' @ e)), w'\<lparr>w_meta := snd (m (w_meta w))\<rparr>)
      | Delivered \<Rightarrow> (fst (m (w_meta w)), w'\<lparr>w_meta := snd (m (w_meta w))\<rparr>))"

definition node_meta :: "world metadata_store" where
  "node_meta =
     \<lparr>ms_register_app = (\<lambda>c. on_meta (mem_register_app c)),
      ms_get_contract = (\<lambda>a. on_meta (mem_get_contract a)),
      ms_create_namespace = (\<lambda>n. on_meta (mem_create_namespace n)),
      ms_get_namespace = (\<lambda>ns. on_meta (mem_get_namespace ns)),
      ms_namespace_usage = (\<lambda>ns. on_meta (mem_namespace_usage ns)),
      ms_list_namespaces = on_meta mem_list_namespaces,
      ms_put_manifest = (\<lambda>m. on_meta (mem_put_manifest m)),
      ms_get_manifest = (\<lambda>ns b. on_meta (mem_get_manifest ns b)),
      ms_list_blobs = (\<lambda>ns. on_meta (mem_list_blobs ns)),
      ms_delete_manifest = (\<lambda>ns b. on_meta (mem_delete_manifest ns b))\<rparr>"

definition on_fs :: "(fs, 'a) io \<Rightarrow> (world, 'a) io" where
  "on_fs m w = (case m (w_fs w) of (r, f) \<Rightarrow> (r, w\<lparr>w_fs := f\<rparr>))"

definition node_anchor :: "path \<Rightarrow> world blob_anchor" where
  "node_anchor root =
     \<lparr>ba_put_shard = (\<lambda>at bs. on_fs (fs_put_shard root at bs)),
      ba_get_shard = (\<lambda>at. on_fs (fs_get_shard root at)),
      ba_delete_blob = (\<lambda>ns b. on_fs (fs_delete_blob root ns b))\<rparr>"

text \<open>Each peer serves its own disk, below its own root, to whoever dials it.\<close>

definition node_dial :: "(socket_addr \<Rightarrow> path) \<Rightarrow> world dial" where
  "node_dial roots peer request w =
     (let w' = w\<lparr>w_dialled := Suc (w_dialled w)\<rparr> in
      case w_link w (w_dialled w) of
        Some e \<Rightarrow> (Inl e, w')
      | None \<Rightarrow> (case handle_stream (fs_blob_anchor (roots peer)) request (w_peers w peer) of
          (resp, f) \<Rightarrow> (Inr resp, w'\<lparr>w_peers := (w_peers w)(peer := f)\<rparr>)))"

definition node_transport :: "(socket_addr \<Rightarrow> path) \<Rightarrow> world shard_transport" where
  "node_transport roots = quic_shard_transport (node_dial roots)"

section \<open>Clock and ids (adapter-crypto/src/runtime.rs)\<close>

definition system_clock :: "world clock" where
  "system_clock = \<lparr>ck_now = (\<lambda>w. (Timestamp (w_clock w (w_ticks w)), w\<lparr>w_ticks := Suc (w_ticks w)\<rparr>))\<rparr>"

definition hex_digit :: "nat \<Rightarrow> char" where
  "hex_digit d = (if d < 10 then char_of (48 + d) else char_of (87 + d))"

definition uuid_simple :: "128 word \<Rightarrow> string" where
  "uuid_simple u = map (\<lambda>i. hex_digit (unat (take_bit 4 (drop_bit (4 * i) u)))) (rev [0..<32])"

definition random_id_source :: "world id_source" where
  "random_id_source = \<lparr>is_new_id = (\<lambda>prefix w.
     (prefix @ ''-'' @ uuid_simple (w_random w (w_draws w)), w\<lparr>w_draws := Suc (w_draws w)\<rparr>))\<rparr>"

section \<open>The wiring satisfies the interface laws\<close>

abbreviation node_mview :: "world \<Rightarrow> meta_view" where
  "node_mview w \<equiv> mem_view (w_meta w)"

abbreviation node_aview :: "path \<Rightarrow> world \<Rightarrow> shard_ref \<rightharpoonup> bytes" where
  "node_aview root w \<equiv> fs_view root (w_fs w)"

abbreviation node_readable :: "path \<Rightarrow> world \<Rightarrow> shard_ref \<Rightarrow> bool" where
  "node_readable root w \<equiv> (\<lambda>at. fs_deny (w_fs w) (shard_path root at) = None)"

lemma on_meta_Inr:
  "on_meta m w = (Inr x, w') \<Longrightarrow> m (w_meta w) = (Inr x, w_meta w')"
  by (cases "m (w_meta w)") (auto simp: on_meta_def Let_def split: call_fate.splits)

lemma on_meta_cases:
  assumes "on_meta m w = (r, w')"
  shows "(\<exists>e. r = Inl e) \<and> w_meta w' = w_meta w \<or> w_meta w' = snd (m (w_meta w))"
  using assms by (auto simp: on_meta_def Let_def split: call_fate.splits)

lemma on_meta_frame:
  "w_fs (snd (on_meta m w)) = w_fs w" "w_peers (snd (on_meta m w)) = w_peers w"
  by (simp_all add: on_meta_def Let_def split: call_fate.splits)

lemma on_meta_keeps:
  "(\<And>s. mem_view (snd (m s)) = mem_view s) \<Longrightarrow> keeps node_mview (on_meta m)"
  "keeps (node_aview root) (on_meta m)" "keeps (node_readable root) (on_meta m)"
  by (simp_all add: keeps_def on_meta_frame) (simp add: on_meta_def Let_def split: call_fate.splits)

lemma on_fs_frame: "w_meta (snd (on_fs m w)) = w_meta w" "w_fs (snd (on_fs m w)) = snd (m (w_fs w))"
  by (simp_all add: on_fs_def split_beta)

lemma on_fs_iff: "on_fs m w = (r, w') \<longleftrightarrow> (\<exists>f. m (w_fs w) = (r, f) \<and> w' = w\<lparr>w_fs := f\<rparr>)"
  by (auto simp: on_fs_def split: prod.splits)

lemma dial_frame:
  "w_meta (snd (node_dial roots p req w)) = w_meta w" "w_fs (snd (node_dial roots p req w)) = w_fs w"
  by (simp_all add: node_dial_def Let_def split_beta split: option.splits)

lemma quic_keeps:
  assumes "\<And>p req. keeps v (dial p req)"
  shows "keeps v (quic_send_shard dial p at bs)" "keeps v (quic_fetch_shard dial p at)"
proof -
  have rt: "keeps v (round_trip dial p req)" for p req
    unfolding round_trip_def by (intro frame_rules assms)
  have "keeps v (case resp of status # _ \<Rightarrow> if status = ST_OK then io_return ()
        else io_throw (Backend (''peer '' @ p @ '' rejected put''))
      | [] \<Rightarrow> io_throw (Backend (''peer '' @ p @ '' rejected put'')))" for resp
    by (cases resp) simp_all
  then show "keeps v (quic_send_shard dial p at bs)"
    unfolding quic_send_shard_def by (intro frame_rules rt)
  have "keeps v (case resp of status # payload \<Rightarrow> if status = ST_OK then io_return payload
        else if status = ST_NOT_FOUND then io_throw NotFound else io_throw (Backend (''peer '' @ p @ '' error''))
      | [] \<Rightarrow> io_throw (Backend (''peer '' @ p @ '' error'')))" for resp
    by (cases resp) simp_all
  then show "keeps v (quic_fetch_shard dial p at)"
    unfolding quic_fetch_shard_def by (intro frame_rules rt)
qed

lemma node_peers_keep:
  "keeps node_mview (st_send_shard (node_transport roots) p at bs)"
  "keeps (node_aview root) (st_send_shard (node_transport roots) p at bs)"
  "keeps node_mview (st_fetch_shard (node_transport roots) p at)"
  "keeps (node_aview root) (st_fetch_shard (node_transport roots) p at)"
  "keeps (node_readable root) (st_send_shard (node_transport roots) p at bs)"
  "keeps (node_readable root) (st_fetch_shard (node_transport roots) p at)"
proof -
  have "keeps node_mview (node_dial roots p req)" "keeps (node_aview root) (node_dial roots p req)"
      "keeps (node_readable root) (node_dial roots p req)" for p req
    by (simp_all add: keeps_def dial_frame)
  note k = quic_keeps [OF this(1)] quic_keeps [OF this(2)] quic_keeps [OF this(3)]
  show "keeps node_mview (st_send_shard (node_transport roots) p at bs)"
    "keeps (node_aview root) (st_send_shard (node_transport roots) p at bs)"
    "keeps node_mview (st_fetch_shard (node_transport roots) p at)"
    "keeps (node_aview root) (st_fetch_shard (node_transport roots) p at)"
    "keeps (node_readable root) (st_send_shard (node_transport roots) p at bs)"
    "keeps (node_readable root) (st_fetch_shard (node_transport roots) p at)"
    unfolding node_transport_def quic_shard_transport_def by (simp_all add: k)
qed

lemma fs_ops_keep_deny:
  "fs_deny (snd (fs_put_shard root at x f)) = fs_deny f" "fs_deny (snd (fs_get_shard root at f)) = fs_deny f"
proof -
  show "fs_deny (snd (fs_put_shard root at x f)) = fs_deny f"
    by (simp add: fs_put_shard_def Let_def io_bind_def io_map_err_def io_return_def fs_create_dir_all_def
        fs_write_def fs_rename_def split: option.splits prod.splits sum.splits)
  show "fs_deny (snd (fs_get_shard root at f)) = fs_deny f"
    by (metis fs_get_view(1) prod.collapse)
qed

lemma uuid_plain: "CHR ''/'' \<notin> set (uuid_simple u)"
proof -
  have "hex_digit d \<noteq> CHR ''/''" if "d < 16" for d
  proof
    assume "hex_digit d = CHR ''/''"
    then have "(of_char (hex_digit d) :: nat) = 47" by simp
    then show False using that by (auto simp: hex_digit_def split: if_splits)
  qed
  moreover have "unat (take_bit 4 (x :: 128 word)) < 16" for x
    by (simp add: unsigned_take_bit_eq take_bit_nat_less_exp [of 4, simplified])
  ultimately have "CHR ''/'' \<noteq> hex_digit (unat (take_bit 4 (x :: 128 word)))" for x by metis
  then show ?thesis by (auto simp: uuid_simple_def)
qed

lemma plain_idI: "c \<in> set t \<Longrightarrow> c \<noteq> CHR ''.'' \<Longrightarrow> CHR ''/'' \<notin> set t \<Longrightarrow> plain_id t"
  by (auto simp: plain_id_def)

lemma new_id_plain: "plain_id s \<Longrightarrow> plain_id (fst (is_new_id random_id_source s w))"
proof -
  assume s: "plain_id s"
  let ?t = "s @ ''-'' @ uuid_simple (w_random w (w_draws w))"
  have "CHR ''-'' \<in> set ?t" "CHR ''/'' \<notin> set ?t" using s uuid_plain by (simp_all add: plain_id_def)
  then have "plain_id ?t" by (intro plain_idI [of "CHR ''-''"]) simp_all
  then show ?thesis by (simp add: random_id_source_def)
qed

lemma node_meta_sel:
  "ms_register_app node_meta c = on_meta (mem_register_app c)"
  "ms_get_contract node_meta a = on_meta (mem_get_contract a)"
  "ms_create_namespace node_meta n = on_meta (mem_create_namespace n)"
  "ms_get_namespace node_meta ns = on_meta (mem_get_namespace ns)"
  "ms_namespace_usage node_meta ns = on_meta (mem_namespace_usage ns)"
  "ms_list_namespaces node_meta = on_meta mem_list_namespaces"
  "ms_put_manifest node_meta m = on_meta (mem_put_manifest m)"
  "ms_get_manifest node_meta ns b = on_meta (mem_get_manifest ns b)"
  "ms_list_blobs node_meta ns = on_meta (mem_list_blobs ns)"
  "ms_delete_manifest node_meta ns b = on_meta (mem_delete_manifest ns b)"
  by (simp_all add: node_meta_def)

lemma mem_sel:
  "mem_get_contract = ms_get_contract memory_metadata_store"
  "mem_get_namespace = ms_get_namespace memory_metadata_store"
  "mem_namespace_usage = ms_namespace_usage memory_metadata_store"
  "mem_list_namespaces = ms_list_namespaces memory_metadata_store"
  "mem_get_manifest = ms_get_manifest memory_metadata_store"
  "mem_list_blobs = ms_list_blobs memory_metadata_store"
  by (simp_all add: memory_metadata_store_def)

lemma on_meta_view:
  assumes "on_meta m w = (r, w')"
  shows "(\<exists>e. r = Inl e) \<and> node_mview w' = node_mview w \<or> node_mview w' = mem_view (snd (m (w_meta w)))"
  using on_meta_cases [OF assms] by auto

interpretation nodem: meta_laws node_meta node_mview
proof (unfold_locales, goal_cases)
  case (7 a w x w')
  then show ?case using mem.get_contract on_meta_Inr by (fastforce simp: node_meta_sel mem_sel)
next
  case (8 ns w y w')
  then show ?case using mem.get_namespace on_meta_Inr by (fastforce simp: node_meta_sel mem_sel)
next
  case (9 ns b w z w')
  then show ?case using mem.get_manifest on_meta_Inr by (fastforce simp: node_meta_sel mem_sel)
next
  case (10 ns w u w')
  then show ?case using mem.namespace_usage on_meta_Inr by (fastforce simp: node_meta_sel mem_sel)
next
  case (11 w nss w')
  then show ?case using mem.list_namespaces on_meta_Inr by (fastforce simp: node_meta_sel mem_sel)
next
  case (12 ns w bs w')
  then show ?case using mem.list_blobs on_meta_Inr by (fastforce simp: node_meta_sel mem_sel)
qed (auto simp: node_meta_sel mem_defs mem_list_blobs_def mem_usage_of store_simps meta_view_updates
      intro!: on_meta_keeps(1) dest!: on_meta_view)

lemma node_anchor_sel:
  "ba_put_shard (node_anchor root) at x = on_fs (fs_put_shard root at x)"
  "ba_get_shard (node_anchor root) at = on_fs (fs_get_shard root at)"
  "ba_delete_blob (node_anchor root) ns b = on_fs (fs_delete_blob root ns b)"
  by (simp_all add: node_anchor_def)

lemma fs_get_same: "snd (fs_get_shard root at f) = f"
  by (metis fs_get_view(1) prod.collapse)

interpretation nodea: anchor_laws "node_anchor root" "node_aview root" for root
proof (unfold_locales, goal_cases)
  case (1 at)
  show ?case by (simp add: keeps_def node_anchor_sel on_fs_frame fs_get_same)
next
  case (4 at x w w')
  then show ?case using fs_put_view by (fastforce simp: node_anchor_sel on_fs_iff fun_eq_iff)
qed (auto simp: node_anchor_sel on_fs_iff dest: fs_get_view fs_put_view fs_delete_view)

interpretation node: coded_vault node_meta node_mview system_clock random_id_source "node_anchor root"
    "node_aview root" "node_transport roots" "node_readable root" "reed_solomon_coder c" "rs_supported c"
  for root roots c
proof (unfold_locales, goal_cases)
  case (20 s w)
  then show ?case by (rule new_id_plain)
next
  case (21 at w x)
  then show ?case
    by (auto simp: node_anchor_sel on_fs_def fs_get_shard_def fs_read_def fs_view_def)
qed (simp_all add: node_meta_sel node_anchor_sel on_meta_keeps node_peers_keep,
    simp_all add: keeps_def on_fs_frame system_clock_def random_id_source_def fs_ops_keep_deny)

section \<open>What the environment will answer stays fixed\<close>

definition node_env :: "world \<Rightarrow> (nat \<Rightarrow> call_fate) \<times> (nat \<Rightarrow> u64)" where
  "node_env w = (w_calls w, w_clock w)"

lemma on_meta_keeps_env: "keeps node_env (on_meta m)"
  by (simp add: keeps_def node_env_def on_meta_def Let_def split: call_fate.splits)

lemma on_fs_keeps_env: "keeps node_env (on_fs m)"
  by (simp add: keeps_def node_env_def on_fs_def split_beta)

lemma dial_keeps_env: "keeps node_env (node_dial roots p req)"
  by (simp add: keeps_def node_env_def node_dial_def Let_def split_beta split: option.splits)

lemma node_keeps_env:
  "keeps node_env (ms_get_contract node_meta a)" "keeps node_env (ms_get_namespace node_meta ns)"
  "keeps node_env (ms_namespace_usage node_meta ns)" "keeps node_env (ms_get_manifest node_meta ns b)"
  "keeps node_env (ms_put_manifest node_meta m)" "keeps node_env (ck_now system_clock)"
  "keeps node_env (is_new_id random_id_source s)" "keeps node_env (ba_put_shard (node_anchor root) at x)"
  "keeps node_env (st_send_shard (node_transport roots) p at x)"
  by (simp_all add: node_meta_sel node_anchor_sel on_meta_keeps_env on_fs_keeps_env node_transport_def
      quic_shard_transport_def quic_keeps dial_keeps_env)
    (simp_all add: keeps_def system_clock_def random_id_source_def node_env_def)

lemma guard_keeps_view:
  "keeps v (ck_now ck) \<Longrightarrow> keeps v (ms_get_namespace ms ns) \<Longrightarrow> keeps v (guard_authorize av ms ck ns tok oper)"
  unfolding guard_authorize_def Let_def by (intro frame_rules)

lemma node_guard_keeps_env: "keeps node_env (guard_authorize av node_meta system_clock ns tok oper)"
  by (intro guard_keeps_view node_keeps_env)

section \<open>A calm environment\<close>

text \<open>Every metadata call is delivered and the disk permits every access to a tree of shards.\<close>

definition calm :: "path \<Rightarrow> world \<Rightarrow> bool" where
  "calm root w \<longleftrightarrow> (\<forall>n. w_calls w n = Delivered) \<and> shard_disk root (w_fs w)"

lemma on_meta_calm:
  "calm root w \<Longrightarrow> on_meta m w =
     (fst (m (w_meta w)), w\<lparr>w_called := Suc (w_called w), w_meta := snd (m (w_meta w))\<rparr>)"
  by (simp add: calm_def on_meta_def Let_def)

lemma calm_updates [simp]:
  "calm root (w\<lparr>w_called := i\<rparr>) \<longleftrightarrow> calm root w" "calm root (w\<lparr>w_meta := s\<rparr>) \<longleftrightarrow> calm root w"
  "calm root (w\<lparr>w_ticks := i\<rparr>) \<longleftrightarrow> calm root w" "calm root (w\<lparr>w_draws := i\<rparr>) \<longleftrightarrow> calm root w"
  "calm root (w\<lparr>w_fs := f\<rparr>) \<longleftrightarrow> (\<forall>n. w_calls w n = Delivered) \<and> shard_disk root f"
  by (simp_all add: calm_def)

lemma system_clock_eq: "ck_now system_clock w = (Timestamp (w_clock w (w_ticks w)), w\<lparr>w_ticks := Suc (w_ticks w)\<rparr>)"
  by (simp add: system_clock_def)

text \<open>A token that passes the domain check for this namespace, operation and time opens the guard.\<close>

lemma node_guard_accepts:
  assumes "calm root w" and "av_verify_signature v tok = Inr ()"
    and "cc_namespace (ct_claims tok) = ns" and "cc_operation (ct_claims tok) = oper"
    and "Timestamp (w_clock w (w_ticks w)) < cc_expires_at (ct_claims tok)"
    and "mv_namespaces (node_mview w) ns = Some n" and "nsp_app_id n = cc_app_id (ct_claims tok)"
  shows "guard_authorize v node_meta system_clock ns tok oper w =
    (Inr (cc_app_id (ct_claims tok)), w\<lparr>w_ticks := Suc (w_ticks w), w_called := Suc (w_called w)\<rparr>)"
proof -
  have "\<not> is_expired tok (Timestamp (w_clock w (w_ticks w)))" using assms(5) by (simp add: is_expired_def not_le)
  then have ok: "token_authorize tok (cc_app_id (ct_claims tok)) ns oper (Timestamp (w_clock w (w_ticks w))) = Inr ()"
    using assms(3,4) by (simp add: token_authorize_def)
  have "DAList.lookup (inner_namespaces (w_meta w)) ns = Some n" using assms(6) by (simp add: mem_view_def)
  with ok assms(1,2,7) show ?thesis
    by (simp add: guard_authorize_def Let_def io_bind_def io_lift_def io_read_def io_return_def system_clock_eq
        node_meta_sel on_meta_calm [of root] mem_get_namespace_def owned_by_def)
qed

lemma calm_put:
  assumes "calm root w" and "plain_ref at"
  shows "\<exists>w'. ba_put_shard (node_anchor root) at x w = (Inr (), w') \<and> calm root w'"
  using fs_put_succeeds [of root "w_fs w" at x] assms by (auto simp: node_anchor_sel on_fs_def calm_def)

lemma calm_send: "calm root w \<Longrightarrow> st_send_shard (node_transport roots) p at x w = (r, w') \<Longrightarrow> calm root w'"
proof -
  assume c: "calm root w" and s: "st_send_shard (node_transport roots) p at x w = (r, w')"
  have "keeps w_fs (node_dial roots p req)" for p req by (simp add: keeps_def dial_frame)
  then have "w_fs w' = w_fs w"
    using s quic_keeps(1) [of w_fs "node_dial roots"] keepsD by (metis node_transport_def quic_shard_transport_def shard_transport.select_convs(1))
  moreover have "w_calls w' = w_calls w" using keepsD [OF node_keeps_env(9) s] by (simp add: node_env_def)
  ultimately show ?thesis using c by (simp add: calm_def)
qed

lemma calm_get:
  assumes "calm root w" and "plain_ref at"
  shows "\<exists>r w'. ba_get_shard (node_anchor root) at w = (r, w') \<and> calm root w' \<and> ((\<exists>x. r = Inr x) \<or> r = Inl NotFound)"
proof -
  have disk: "shard_disk root (w_fs w)" using assms(1) by (simp add: calm_def)
  have p: "length (shard_path root at) = length root + 3" using assms(2) by (simp add: shard_path_plain)
  obtain r where get: "fs_get_shard root at (w_fs w) = (r, w_fs w)" by (metis fs_get_same prod.collapse)
  have "(\<exists>x. r = Inr x) \<or> r = Inl NotFound"
    using get disk p shard_disk_calls [OF disk, of "shard_path root at"]
    by (auto simp: fs_get_shard_def fs_read_def shard_disk_def split: option.splits)
  with get assms(1) show ?thesis by (simp add: node_anchor_sel on_fs_def)
qed

lemma calm_re_replicate:
  assumes "repair_uses node_meta (node_anchor root) ec (node_transport roots) rs" and "calm root w"
    and "re_replicate rs at x sh w = (u, w')"
  shows "calm root w'"
proof -
  have loop: "calm root w2" if "calm root w1" "re_replicate_loop (node_transport roots) at x ls w1 = (u, w2)" for ls w1 w2
    using that
  proof (induction ls arbitrary: w1)
    case (Cons l ls)
    show ?case
    proof (cases l)
      case (Peer p)
      obtain r w3 where s: "st_send_shard (node_transport roots) p at x w1 = (r, w3)" by force
      then show ?thesis using Cons Peer calm_send [OF Cons.prems(1) s] by simp
    qed (use Cons in simp)
  qed simp
  show ?thesis
    using assms loop by (auto simp: re_replicate_def repair_uses_def split: option.splits)
qed

text \<open>An admitted put in a calm environment succeeds.\<close>

lemma node_put_coded:
  assumes uses: "put_uses node_meta (node_anchor root) random_id_source system_clock (node_transport roots) pb"
    and ec: "pb_erasure pb = reed_solomon_coder c" and calm: "calm root w" and ns: "plain_id (ns_str ns)"
    and tok: "av_verify_signature (pb_verifier pb) tok = Inr ()" "cc_namespace (ct_claims tok) = ns"
      "cc_operation (ct_claims tok) = OpPut" "Timestamp (w_clock w (w_ticks w)) < cc_expires_at (ct_claims tok)"
    and owner: "mv_namespaces (node_mview w) ns = Some n" "nsp_app_id n = cc_app_id (ct_claims tok)"
    and contract: "mv_contracts (node_mview w) (cc_app_id (ct_claims tok)) = Some ct"
    and enc: "rs_coder_encode c d (ac_erasure ct) = Inr shs"
    and quota: "admits (ac_quota ct) (nu_bytes (usage_of (node_mview w) ns)) (nu_objects (usage_of (node_mview w) ns))
      (word_of_nat (length d))"
  shows "\<exists>b w'. put_backup_execute pb ns tok d w = (Inr b, w') \<and> calm root w'"
proof -
  have us [simp]: "pb_metadata pb = node_meta" "pb_anchor pb = node_anchor root" "pb_ids pb = random_id_source"
      "pb_clock pb = system_clock" using uses by (simp_all add: put_uses_def)
  let ?w1 = "w\<lparr>w_ticks := Suc (w_ticks w), w_called := Suc (w_called w)\<rparr>"
  let ?w3 = "?w1\<lparr>w_called := Suc (Suc (Suc (w_called w)))\<rparr>"
  obtain s w4 where id: "is_new_id random_id_source ''blob'' ?w3 = (s, w4)" by force
  have w4: "calm root w4" "plain_id s"
    using id calm new_id_plain [of "''blob''" ?w3] by (auto simp: random_id_source_def plain_id_def)
  obtain metas w5 where put: "put_shards pb ns (BlobId s) 0 shs w4 = (Inr metas, w5)" "calm root w5"
  proof -
    have "\<exists>metas w'. put_shards pb ns (BlobId s) 0 shs w4 = (Inr metas, w') \<and> calm root w'"
      by (rule node.put_shards_succeed [OF uses ns]) (use w4 calm_put calm_send in auto)
    then show thesis using that by blast
  qed
  have "DAList.lookup (inner_contracts (w_meta w)) (cc_app_id (ct_claims tok)) = Some ct"
    using contract by (simp add: mem_view_def)
  with id enc put quota calm show ?thesis
    by (simp add: reed_solomon_coder_def put_backup_execute_def Let_def io_bind_def io_map_err_def io_lift_def io_read_def io_return_def
        node_guard_accepts [OF calm tok owner] node_meta_sel on_meta_calm [of root] mem_get_contract_def mem_usage_of
        ec system_clock_eq mem_put_manifest_def)
qed

lemma node_put_runs:
  assumes "put_uses node_meta (node_anchor root) random_id_source system_clock (node_transport roots) pb"
    and "pb_erasure pb = reed_solomon_coder c" and "calm root w" and "plain_id (ns_str ns)"
    and "av_verify_signature (pb_verifier pb) tok = Inr ()" and "cc_namespace (ct_claims tok) = ns"
    and "cc_operation (ct_claims tok) = OpPut" and "Timestamp (w_clock w (w_ticks w)) < cc_expires_at (ct_claims tok)"
    and "mv_namespaces (node_mview w) ns = Some n" and "nsp_app_id n = cc_app_id (ct_claims tok)"
    and "mv_contracts (node_mview w) (cc_app_id (ct_claims tok)) = Some ct" and "rs_supported c (ac_erasure ct)"
    and "admits (ac_quota ct) (nu_bytes (usage_of (node_mview w) ns)) (nu_objects (usage_of (node_mview w) ns))
      (word_of_nat (length d))"
  shows "\<exists>b w'. put_backup_execute pb ns tok d w = (Inr b, w') \<and> calm root w'"
proof -
  obtain shs where "rs_coder_encode c d (ac_erasure ct) = Inr shs"
    using rs.encode_ok [OF assms(12)] by (auto simp: reed_solomon_coder_def)
  from node_put_coded [OF assms(1-11) this assms(13)] show ?thesis .
qed

section \<open>The use-cases wired to this node\<close>

text \<open>With or without the mesh; verifier, hash and peers are whatever the node was started with.\<close>

definition wired_put :: "path \<Rightarrow> (socket_addr \<Rightarrow> path) \<Rightarrow> rs_crate \<Rightarrow> world put_backup \<Rightarrow> bool" where
  "wired_put root roots c pb \<longleftrightarrow> pb_erasure pb = reed_solomon_coder c \<and>
     put_uses node_meta (node_anchor root) random_id_source system_clock (node_transport roots) pb"

definition wired_get :: "path \<Rightarrow> (socket_addr \<Rightarrow> path) \<Rightarrow> rs_crate \<Rightarrow> world get_backup \<Rightarrow> bool" where
  "wired_get root roots c gb \<longleftrightarrow> gb_erasure gb = reed_solomon_coder c \<and>
     get_uses node_meta (node_anchor root) system_clock (node_transport roots) gb"

definition node_delete :: "path \<Rightarrow> auth_verifier \<Rightarrow> world delete_backup" where
  "node_delete root v = \<lparr>db_metadata = node_meta, db_anchor = node_anchor root, db_verifier = v, db_clock = system_clock\<rparr>"

definition node_prune :: "path \<Rightarrow> world prune_versions" where
  "node_prune root = \<lparr>pv_metadata = node_meta, pv_anchor = node_anchor root, pv_clock = system_clock\<rparr>"

definition wired_repair :: "path \<Rightarrow> (socket_addr \<Rightarrow> path) \<Rightarrow> rs_crate \<Rightarrow> world repair_shards \<Rightarrow> bool" where
  "wired_repair root roots c rs \<longleftrightarrow>
     repair_uses node_meta (node_anchor root) (reed_solomon_coder c) (node_transport roots) rs"

lemma wiredD:
  "wired_put root roots c pb \<Longrightarrow> put_uses node_meta (node_anchor root) random_id_source system_clock (node_transport roots) pb"
  "wired_put root roots c pb \<Longrightarrow> pb_erasure pb = reed_solomon_coder c"
  "wired_get root roots c gb \<Longrightarrow> get_uses node_meta (node_anchor root) system_clock (node_transport roots) gb"
  "wired_get root roots c gb \<Longrightarrow> gb_erasure gb = reed_solomon_coder c"
  "wired_repair root roots c rs \<Longrightarrow> repair_uses node_meta (node_anchor root) (reed_solomon_coder c) (node_transport roots) rs"
  "delete_uses node_meta (node_anchor root) system_clock (node_delete root v)"
  "prune_uses node_meta (node_anchor root) system_clock (node_prune root)"
  by (simp_all add: wired_put_def wired_get_def wired_repair_def delete_uses_def node_delete_def prune_uses_def node_prune_def)

section \<open>A small deployment\<close>

definition open_verifier :: auth_verifier where
  "open_verifier = \<lparr>av_verify_signature = (\<lambda>_. Inr ())\<rparr>"

definition demo_contract :: app_contract where
  "demo_contract = app_contract_new (AppId ''a'') \<lparr>q_max_bytes = 1000, q_max_objects = 10\<rparr>
     \<lparr>rp_keep_versions = 1, rp_min_days = 1\<rparr> \<lparr>ep_k = 2, ep_n = 3\<rparr>"

definition demo_ns :: namespace_id where
  "demo_ns = NamespaceId ''n''"

definition demo_token :: "operation \<Rightarrow> capability_token" where
  "demo_token oper = \<lparr>ct_claims = \<lparr>cc_app_id = AppId ''a'', cc_namespace = demo_ns, cc_operation = oper,
     cc_nonce = Nonce ''1'', cc_expires_at = Timestamp (- 1)\<rparr>, ct_signature = []\<rparr>"

text \<open>The identity as hash: the shortest function without second preimages.\<close>

definition demo_crypto :: "world cryptographer" where
  "demo_crypto = aes_gcm_cryptographer demo_content (\<lambda>w. (replicate 12 7, w))"

definition demo_disk :: fs where
  "demo_disk = \<lparr>fs_files = DAList.empty, fs_deny = (\<lambda>_. None)\<rparr>"

definition demo_world :: "u64 \<Rightarrow> manifest list \<Rightarrow> world" where
  "demo_world t ms = \<lparr>w_meta = \<lparr>inner_contracts = DAList.update (AppId ''a'') demo_contract DAList.empty,
      inner_namespaces = DAList.update demo_ns \<lparr>nsp_id = demo_ns, nsp_app_id = AppId ''a''\<rparr> DAList.empty,
      inner_manifests = fold (\<lambda>m. DAList.update (mf_namespace m, mf_blob_id m) m) ms DAList.empty\<rparr>,
    w_fs = demo_disk, w_peers = (\<lambda>_. demo_disk), w_calls = (\<lambda>_. Delivered), w_called = 0,
    w_link = (\<lambda>_. None), w_dialled = 0, w_clock = (\<lambda>_. t), w_ticks = 0, w_random = (\<lambda>_. 0), w_draws = 0\<rparr>"

definition demo_put :: "world put_backup" where
  "demo_put = put_with_mesh (put_backup_new node_meta (node_anchor []) (reed_solomon_coder xor_crate) demo_crypto
     open_verifier random_id_source system_clock) (node_transport (\<lambda>_. [])) [''10.0.0.1:1'']
     \<lparr>pp_locality_hint = None, pp_prefer_peers = True\<rparr>"

definition demo_get :: "world get_backup" where
  "demo_get = get_with_mesh (get_backup_new node_meta (node_anchor []) (reed_solomon_coder xor_crate) demo_crypto
     open_verifier system_clock) (node_transport (\<lambda>_. []))"

definition demo_repair :: "world repair_shards" where
  "demo_repair = repair_with_mesh (repair_shards_new node_meta (node_anchor []) (reed_solomon_coder xor_crate) demo_crypto)
     (node_transport (\<lambda>_. []))"

lemma demo_peer: "parse_socket_addr ''10.0.0.1:1'' = Some (SocketV4 (10, 0, 0, 1) 1)"
proof -
  have "show_ipv4 (10, 0, 0, 1) @ CHR '':'' # show_nat (unat (1 :: u16)) = ''10.0.0.1:1''" by code_simp
  then show ?thesis using parse_socket_show [of "(10, 0, 0, 1)" 1] by (simp only:)
qed

text \<open>A manifest without shards, as the metadata holds it.\<close>

definition demo_manifest :: "string \<Rightarrow> u64 \<Rightarrow> manifest" where
  "demo_manifest b t = (manifest_new (BlobId b) demo_ns \<lparr>ep_k = 2, ep_n = 3\<rparr> [] 3 (Timestamp t))\<lparr>mf_object_id := Some ''o''\<rparr>"

lemma demo_hash_id: "cr_sha256_hex demo_crypto = of_bytes"
  by (simp add: demo_crypto_def aes_gcm_cryptographer_def aes_sha256_hex_def demo_content_def fun_eq_iff)

lemma of_bytes_inject: "of_bytes x = of_bytes y \<longleftrightarrow> x = y"
  by (metis as_bytes_of_bytes)

lemma demo_no_second_preimage: "no_second_preimage (cr_sha256_hex demo_crypto) shs"
  by (simp add: no_second_preimage_def demo_hash_id of_bytes_inject)

lemma demo_wired:
  "wired_put [] (\<lambda>_. []) xor_crate demo_put" "wired_get [] (\<lambda>_. []) xor_crate demo_get"
  "wired_repair [] (\<lambda>_. []) xor_crate demo_repair"
  by (simp_all add: wired_put_def wired_get_def wired_repair_def repair_uses_def demo_repair_def
      repair_with_mesh_def repair_shards_new_def demo_put_def demo_get_def put_with_mesh_def put_backup_new_def
      get_with_mesh_def get_backup_new_def put_uses_def get_uses_def)

lemma demo_supported: "rs_supported xor_crate (ac_erasure demo_contract)"
  using xor_crate_contract by (simp add: rs_supported_def valid_erasure_def demo_contract_def app_contract_new_def)

lemma demo_world_views:
  "calm [] (demo_world t ms)" "mv_namespaces (node_mview (demo_world t ms)) demo_ns = Some \<lparr>nsp_id = demo_ns, nsp_app_id = AppId ''a''\<rparr>"
  "mv_contracts (node_mview (demo_world t ms)) (AppId ''a'') = Some demo_contract"
  "w_clock (demo_world t ms) = (\<lambda>_. t)"
  by (simp_all add: calm_def demo_world_def shard_disk_def demo_disk_def fs_file_def mem_view_def)

end
