(* ===== verification/Wire_Json.thy ===== *)
theory Wire_Json
  imports Ports "HOL-Library.Monad_Syntax"
begin

text \<open>
  The wire contract: the types of \<^verbatim>\<open>crates/vault-proto\<close> and the JSON form that
  \<^verbatim>\<open>#[derive(Serialize, Deserialize)]\<close> gives them and the domain types they carry.  A struct is an
  object with one member per field, a newtype its content, a unit variant its name, \<^verbatim>\<open>Option\<close> the
  value or \<^verbatim>\<open>null\<close>; unknown members are ignored, a missing member is an error unless the field
  is an \<^verbatim>\<open>Option\<close> or has \<^verbatim>\<open>#[serde(default)]\<close>, and a duplicate one is an error.  (That
  \<^verbatim>\<open>serde_json\<close> also reads a struct from an array of its fields is left out: no serializer of the
  project writes that form.)  Every type read from the wire is a \<open>json_codec\<close>: what is written is
  read back.
\<close>

section \<open>JSON values and the codec interface\<close>

datatype json = JNull | JBool bool | JNum int | JStr string | JArr "json list" | JObj "(string \<times> json) list"

named_theorems json_simps \<open>evaluation of encoders and decoders\<close>

locale json_codec =
  fixes enc :: "'a \<Rightarrow> json" and dec :: "json \<Rightarrow> 'a option"
  assumes dec_enc: "dec (enc x) = Some x"
begin

lemma enc_inject: "enc x = enc y \<longleftrightarrow> x = y"
  by (metis dec_enc option.inject)

lemma those_enc: "those (map (dec \<circ> enc) xs) = Some xs"
  by (induction xs) (simp_all add: dec_enc)

end

text \<open>A codec whose values are never \<^verbatim>\<open>null\<close>, so that \<^verbatim>\<open>Option\<close> of it is one again.\<close>

locale value_codec = json_codec +
  assumes enc_not_null: "enc x \<noteq> JNull"

section \<open>Scalars, lists, options and members\<close>

definition of_str :: "json \<Rightarrow> string option" where
  "of_str j = (case j of JStr s \<Rightarrow> Some s | _ \<Rightarrow> None)"

definition of_bool :: "json \<Rightarrow> bool option" where
  "of_bool j = (case j of JBool b \<Rightarrow> Some b | _ \<Rightarrow> None)"

definition to_word :: "'a::len word \<Rightarrow> json" where
  "to_word w = JNum (uint w)"

definition of_word :: "json \<Rightarrow> 'a::len word option" where
  "of_word j = (case j of JNum i \<Rightarrow> if 0 \<le> i \<and> i < 2 ^ LENGTH('a) then Some (word_of_int i) else None | _ \<Rightarrow> None)"

definition to_list :: "('a \<Rightarrow> json) \<Rightarrow> 'a list \<Rightarrow> json" where
  "to_list enc xs = JArr (map enc xs)"

definition of_list :: "(json \<Rightarrow> 'a option) \<Rightarrow> json \<Rightarrow> 'a list option" where
  "of_list dec j = (case j of JArr js \<Rightarrow> those (map dec js) | _ \<Rightarrow> None)"

definition to_option :: "('a \<Rightarrow> json) \<Rightarrow> 'a option \<Rightarrow> json" where
  "to_option enc x = (case x of None \<Rightarrow> JNull | Some a \<Rightarrow> enc a)"

definition of_option :: "(json \<Rightarrow> 'a option) \<Rightarrow> json \<Rightarrow> 'a option option" where
  "of_option dec j = (if j = JNull then Some None else map_option Some (dec j))"

text \<open>The members of an object with a given name.\<close>

fun members :: "string \<Rightarrow> (string \<times> json) list \<Rightarrow> json list" where
  "members k [] = []"
| "members k ((k', v) # fs) = (if k' = k then v # members k fs else members k fs)"

definition required :: "string \<Rightarrow> (json \<Rightarrow> 'a option) \<Rightarrow> (string \<times> json) list \<Rightarrow> 'a option" where
  "required k dec fs = (case members k fs of [v] \<Rightarrow> dec v | _ \<Rightarrow> None)"

text \<open>\<^verbatim>\<open>#[serde(default)]\<close> on a field.\<close>

definition defaulted :: "string \<Rightarrow> 'a \<Rightarrow> (json \<Rightarrow> 'a option) \<Rightarrow> (string \<times> json) list \<Rightarrow> 'a option" where
  "defaulted k d dec fs = (case members k fs of [] \<Rightarrow> Some d | [v] \<Rightarrow> dec v | _ \<Rightarrow> None)"

definition of_object :: "((string \<times> json) list \<Rightarrow> 'a option) \<Rightarrow> json \<Rightarrow> 'a option" where
  "of_object f j = (case j of JObj fs \<Rightarrow> f fs | _ \<Rightarrow> None)"

lemma of_simps [json_simps]:
  "of_str (JStr s) = Some s" "of_bool (JBool b) = Some b" "of_object f (JObj fs) = f fs"
  "of_option dec JNull = Some None"
  by (simp_all add: of_str_def of_bool_def of_object_def of_option_def)

lemma of_to_word [json_simps]: "of_word (to_word w) = Some w" for w :: "'a::len word"
proof -
  have "0 \<le> uint w" "uint w < 2 ^ LENGTH('a)" by (simp_all add: uint_lt2p)
  then show ?thesis by (simp add: of_word_def to_word_def)
qed

lemma members_required [json_simps]:
  "required k dec fs = (case members k fs of [v] \<Rightarrow> dec v | _ \<Rightarrow> None)"
  "defaulted k d dec fs = (case members k fs of [] \<Rightarrow> Some d | [v] \<Rightarrow> dec v | _ \<Rightarrow> None)"
  by (simp_all add: required_def defaulted_def)

context json_codec
begin

lemma of_to_list: "of_list dec (to_list enc xs) = Some xs"
  by (simp add: of_list_def to_list_def those_enc [unfolded comp_def] comp_def)

end

context value_codec
begin

lemma of_to_option: "of_option dec (to_option enc x) = Some x"
  by (cases x) (simp_all add: of_option_def to_option_def enc_not_null dec_enc)

end

interpretation str: value_codec JStr of_str
  by unfold_locales (simp_all add: json_simps)

lemma to_word_not_null: "to_word w \<noteq> JNull"
  by (simp add: to_word_def)

interpretation wordc: value_codec to_word "of_word :: json \<Rightarrow> 'a::len word option"
  by unfold_locales (simp_all add: json_simps to_word_not_null)

lemmas base_codecs [json_simps] = str.of_to_option str.of_to_list wordc.of_to_list wordc.of_to_option

section \<open>Domain types\<close>

definition to_json_operation :: "operation \<Rightarrow> json" where
  "to_json_operation oper = JStr (case oper of OpPut \<Rightarrow> ''Put'' | OpGet \<Rightarrow> ''Get'' | OpList \<Rightarrow> ''List'' | OpDelete \<Rightarrow> ''Delete'')"

definition of_json_operation :: "json \<Rightarrow> operation option" where
  "of_json_operation j = (case j of JStr s \<Rightarrow>
       if s = ''Put'' then Some OpPut else if s = ''Get'' then Some OpGet
       else if s = ''List'' then Some OpList else if s = ''Delete'' then Some OpDelete else None
     | _ \<Rightarrow> None)"

definition to_json_erasure :: "erasure_params \<Rightarrow> json" where
  "to_json_erasure e = JObj [(''k'', to_word (ep_k e)), (''n'', to_word (ep_n e))]"

text \<open>The derived \<^verbatim>\<open>Deserialize\<close> does not go through \<^verbatim>\<open>ErasureParams::new\<close>.\<close>

definition of_json_erasure :: "json \<Rightarrow> erasure_params option" where
  "of_json_erasure = of_object (\<lambda>fs. do {
     k \<leftarrow> required ''k'' of_word fs;
     n \<leftarrow> required ''n'' of_word fs;
     Some \<lparr>ep_k = k, ep_n = n\<rparr> })"

definition to_json_quota :: "quota \<Rightarrow> json" where
  "to_json_quota q = JObj [(''max_bytes'', to_word (q_max_bytes q)), (''max_objects'', to_word (q_max_objects q))]"

definition of_json_quota :: "json \<Rightarrow> quota option" where
  "of_json_quota = of_object (\<lambda>fs. do {
     b \<leftarrow> required ''max_bytes'' of_word fs;
     n \<leftarrow> required ''max_objects'' of_word fs;
     Some \<lparr>q_max_bytes = b, q_max_objects = n\<rparr> })"

definition to_json_retention :: "retention_policy \<Rightarrow> json" where
  "to_json_retention r = JObj [(''keep_versions'', to_word (rp_keep_versions r)), (''min_days'', to_word (rp_min_days r))]"

definition of_json_retention :: "json \<Rightarrow> retention_policy option" where
  "of_json_retention = of_object (\<lambda>fs. do {
     k \<leftarrow> required ''keep_versions'' of_word fs;
     d \<leftarrow> required ''min_days'' of_word fs;
     Some \<lparr>rp_keep_versions = k, rp_min_days = d\<rparr> })"

definition to_json_version :: "protocol_version \<Rightarrow> json" where
  "to_json_version v = JObj [(''major'', to_word (pv_major v)), (''minor'', to_word (pv_minor v))]"

definition of_json_version :: "json \<Rightarrow> protocol_version option" where
  "of_json_version = of_object (\<lambda>fs. do {
     a \<leftarrow> required ''major'' of_word fs;
     i \<leftarrow> required ''minor'' of_word fs;
     Some \<lparr>pv_major = a, pv_minor = i\<rparr> })"

definition of_json_encryption :: "json \<Rightarrow> encryption_mode option" where
  "of_json_encryption j = (case j of JStr s \<Rightarrow> if s = ''ClientSideOnly'' then Some ClientSideOnly else None | _ \<Rightarrow> None)"

definition to_json_contract :: "app_contract \<Rightarrow> json" where
  "to_json_contract c = JObj [(''app_id'', JStr (app_str (ac_app_id c))),
     (''protocol_version'', to_json_version (ac_protocol_version c)), (''quota'', to_json_quota (ac_quota c)),
     (''retention'', to_json_retention (ac_retention c)), (''erasure'', to_json_erasure (ac_erasure c)),
     (''encryption'', JStr ''ClientSideOnly'')]"

definition of_json_contract :: "json \<Rightarrow> app_contract option" where
  "of_json_contract = of_object (\<lambda>fs. do {
     a \<leftarrow> required ''app_id'' of_str fs;
     v \<leftarrow> required ''protocol_version'' of_json_version fs;
     q \<leftarrow> required ''quota'' of_json_quota fs;
     r \<leftarrow> required ''retention'' of_json_retention fs;
     e \<leftarrow> required ''erasure'' of_json_erasure fs;
     m \<leftarrow> required ''encryption'' of_json_encryption fs;
     Some \<lparr>ac_app_id = AppId a, ac_protocol_version = v, ac_quota = q, ac_retention = r, ac_erasure = e, ac_encryption = m\<rparr> })"

definition to_json_namespace :: "namespace \<Rightarrow> json" where
  "to_json_namespace n = JObj [(''id'', JStr (ns_str (nsp_id n))), (''app_id'', JStr (app_str (nsp_app_id n)))]"

definition of_json_namespace :: "json \<Rightarrow> namespace option" where
  "of_json_namespace = of_object (\<lambda>fs. do {
     i \<leftarrow> required ''id'' of_str fs;
     a \<leftarrow> required ''app_id'' of_str fs;
     Some \<lparr>nsp_id = NamespaceId i, nsp_app_id = AppId a\<rparr> })"

definition to_json_usage :: "namespace_usage \<Rightarrow> json" where
  "to_json_usage u = JObj [(''bytes'', to_word (nu_bytes u)), (''objects'', to_word (nu_objects u))]"

definition of_json_usage :: "json \<Rightarrow> namespace_usage option" where
  "of_json_usage = of_object (\<lambda>fs. do {
     b \<leftarrow> required ''bytes'' of_word fs;
     n \<leftarrow> required ''objects'' of_word fs;
     Some \<lparr>nu_bytes = b, nu_objects = n\<rparr> })"

definition to_json_location :: "shard_location \<Rightarrow> json" where
  "to_json_location l = (case l of Anchor \<Rightarrow> JStr ''Anchor'' | Peer p \<Rightarrow> JObj [(''Peer'', JStr p)])"

definition of_json_location :: "json \<Rightarrow> shard_location option" where
  "of_json_location j = (case j of
       JStr s \<Rightarrow> if s = ''Anchor'' then Some Anchor else None
     | JObj [(k, v)] \<Rightarrow> if k = ''Peer'' then map_option Peer (of_str v) else None
     | _ \<Rightarrow> None)"

definition to_json_shard :: "shard \<Rightarrow> json" where
  "to_json_shard s = JObj [(''index'', to_word (sh_index s)), (''sha256'', JStr (sh_sha256 s)),
     (''size'', to_word (sh_size s)), (''locations'', to_list to_json_location (sh_locations s))]"

definition of_json_shard :: "json \<Rightarrow> shard option" where
  "of_json_shard = of_object (\<lambda>fs. do {
     i \<leftarrow> required ''index'' of_word fs;
     h \<leftarrow> required ''sha256'' of_str fs;
     n \<leftarrow> required ''size'' of_word fs;
     ls \<leftarrow> required ''locations'' (of_list of_json_location) fs;
     Some \<lparr>sh_index = i, sh_sha256 = h, sh_size = n, sh_locations = ls\<rparr> })"

definition to_json_manifest :: "manifest \<Rightarrow> json" where
  "to_json_manifest m = JObj [(''blob_id'', JStr (blob_str (mf_blob_id m))), (''namespace'', JStr (ns_str (mf_namespace m))),
     (''erasure'', to_json_erasure (mf_erasure m)), (''shards'', to_list to_json_shard (mf_shards m)),
     (''ciphertext_len'', to_word (mf_ciphertext_len m)), (''created_at'', to_word (as_millis (mf_created_at m))),
     (''name_enc'', to_option JStr (mf_name_enc m)), (''object_id'', to_option JStr (mf_object_id m))]"

definition of_json_manifest :: "json \<Rightarrow> manifest option" where
  "of_json_manifest = of_object (\<lambda>fs. do {
     b \<leftarrow> required ''blob_id'' of_str fs;
     ns \<leftarrow> required ''namespace'' of_str fs;
     e \<leftarrow> required ''erasure'' of_json_erasure fs;
     ss \<leftarrow> required ''shards'' (of_list of_json_shard) fs;
     n \<leftarrow> required ''ciphertext_len'' of_word fs;
     t \<leftarrow> required ''created_at'' of_word fs;
     nm \<leftarrow> defaulted ''name_enc'' None (of_option of_str) fs;
     oid \<leftarrow> defaulted ''object_id'' None (of_option of_str) fs;
     Some \<lparr>mf_blob_id = BlobId b, mf_namespace = NamespaceId ns, mf_erasure = e, mf_shards = ss, mf_ciphertext_len = n,
       mf_created_at = Timestamp t, mf_name_enc = nm, mf_object_id = oid\<rparr> })"

definition to_json_claims :: "capability_claims \<Rightarrow> json" where
  "to_json_claims c = JObj [(''app_id'', JStr (app_str (cc_app_id c))), (''namespace'', JStr (ns_str (cc_namespace c))),
     (''operation'', to_json_operation (cc_operation c)), (''nonce'', JStr (nonce_str (cc_nonce c))),
     (''expires_at'', to_word (as_millis (cc_expires_at c)))]"

definition of_json_claims :: "json \<Rightarrow> capability_claims option" where
  "of_json_claims = of_object (\<lambda>fs. do {
     a \<leftarrow> required ''app_id'' of_str fs;
     ns \<leftarrow> required ''namespace'' of_str fs;
     oper \<leftarrow> required ''operation'' of_json_operation fs;
     n \<leftarrow> required ''nonce'' of_str fs;
     t \<leftarrow> required ''expires_at'' of_word fs;
     Some \<lparr>cc_app_id = AppId a, cc_namespace = NamespaceId ns, cc_operation = oper, cc_nonce = Nonce n,
       cc_expires_at = Timestamp t\<rparr> })"

definition to_json_token :: "capability_token \<Rightarrow> json" where
  "to_json_token t = JObj [(''claims'', to_json_claims (ct_claims t)), (''signature'', to_list to_word (ct_signature t))]"

definition of_json_token :: "json \<Rightarrow> capability_token option" where
  "of_json_token = of_object (\<lambda>fs. do {
     c \<leftarrow> required ''claims'' of_json_claims fs;
     s \<leftarrow> required ''signature'' (of_list of_word) fs;
     Some \<lparr>ct_claims = c, ct_signature = s\<rparr> })"

interpretation jop: value_codec to_json_operation of_json_operation
  by unfold_locales (auto simp: to_json_operation_def of_json_operation_def split: operation.split)

interpretation jerasure: value_codec to_json_erasure of_json_erasure
  by unfold_locales (simp_all add: to_json_erasure_def of_json_erasure_def json_simps)

interpretation jquota: value_codec to_json_quota of_json_quota
  by unfold_locales (simp_all add: to_json_quota_def of_json_quota_def json_simps)

interpretation jretention: value_codec to_json_retention of_json_retention
  by unfold_locales (simp_all add: to_json_retention_def of_json_retention_def json_simps)

interpretation jversion: value_codec to_json_version of_json_version
  by unfold_locales (simp_all add: to_json_version_def of_json_version_def json_simps)

lemmas part_codecs [json_simps] = jop.dec_enc jerasure.dec_enc jquota.dec_enc jretention.dec_enc jversion.dec_enc

lemma contract_eta:
  "\<lparr>ac_app_id = ac_app_id c, ac_protocol_version = ac_protocol_version c, ac_quota = ac_quota c,
     ac_retention = ac_retention c, ac_erasure = ac_erasure c, ac_encryption = ClientSideOnly\<rparr> = c"
  by (rule app_contract.equality) (simp_all, cases "ac_encryption c", simp)

interpretation jcontract: value_codec to_json_contract of_json_contract
  by unfold_locales
    (simp_all add: to_json_contract_def of_json_contract_def of_json_encryption_def json_simps contract_eta)

interpretation jnamespace: value_codec to_json_namespace of_json_namespace
  by unfold_locales (simp_all add: to_json_namespace_def of_json_namespace_def json_simps)

interpretation jusage: value_codec to_json_usage of_json_usage
  by unfold_locales (simp_all add: to_json_usage_def of_json_usage_def json_simps)

interpretation jlocation: value_codec to_json_location of_json_location
  by unfold_locales (simp_all add: to_json_location_def of_json_location_def json_simps split: shard_location.split)

lemmas location_codec [json_simps] = jlocation.of_to_list

interpretation jshard: value_codec to_json_shard of_json_shard
  by unfold_locales (simp_all add: to_json_shard_def of_json_shard_def json_simps)

lemmas shard_codec [json_simps] = jshard.of_to_list

interpretation jmanifest: value_codec to_json_manifest of_json_manifest
  by unfold_locales (simp_all add: to_json_manifest_def of_json_manifest_def json_simps)

interpretation jclaims: value_codec to_json_claims of_json_claims
  by unfold_locales (simp_all add: to_json_claims_def of_json_claims_def json_simps)

lemmas claims_codec [json_simps] = jclaims.dec_enc

interpretation jtoken: value_codec to_json_token of_json_token
  by unfold_locales (simp_all add: to_json_token_def of_json_token_def json_simps)

lemmas domain_codecs [json_simps] = jcontract.dec_enc jnamespace.dec_enc jusage.dec_enc jmanifest.dec_enc jtoken.dec_enc
  jcontract.of_to_option jnamespace.of_to_option jmanifest.of_to_option

section \<open>Data-plane messages (data.rs)\<close>

record put_request =
  pq_namespace :: namespace_id
  pq_token :: capability_token
  pq_ciphertext_b64 :: string

definition to_json_put_request :: "put_request \<Rightarrow> json" where
  "to_json_put_request x = JObj [(''namespace'', JStr (ns_str (pq_namespace x))), (''token'', to_json_token (pq_token x)), (''ciphertext_b64'', JStr (pq_ciphertext_b64 x))]"

definition of_json_put_request :: "json \<Rightarrow> put_request option" where
  "of_json_put_request = of_object (\<lambda>fs. do {
     a \<leftarrow> required ''namespace'' of_str fs;
     b \<leftarrow> required ''token'' of_json_token fs;
     c \<leftarrow> required ''ciphertext_b64'' of_str fs;
     Some \<lparr>pq_namespace = NamespaceId a, pq_token = b, pq_ciphertext_b64 = c\<rparr> })"

interpretation jput_request: value_codec to_json_put_request of_json_put_request
  by unfold_locales (simp_all add: to_json_put_request_def of_json_put_request_def json_simps comp_def)

record put_response =
  pp_blob_id :: blob_id

definition to_json_put_response :: "put_response \<Rightarrow> json" where
  "to_json_put_response x = JObj [(''blob_id'', JStr (blob_str (pp_blob_id x)))]"

definition of_json_put_response :: "json \<Rightarrow> put_response option" where
  "of_json_put_response = of_object (\<lambda>fs. do {
     a \<leftarrow> required ''blob_id'' of_str fs;
     Some \<lparr>pp_blob_id = BlobId a\<rparr> })"

interpretation jput_response: value_codec to_json_put_response of_json_put_response
  by unfold_locales (simp_all add: to_json_put_response_def of_json_put_response_def json_simps comp_def)

record get_request =
  gq_namespace :: namespace_id
  gq_token :: capability_token
  gq_blob_id :: blob_id

definition to_json_get_request :: "get_request \<Rightarrow> json" where
  "to_json_get_request x = JObj [(''namespace'', JStr (ns_str (gq_namespace x))), (''token'', to_json_token (gq_token x)), (''blob_id'', JStr (blob_str (gq_blob_id x)))]"

definition of_json_get_request :: "json \<Rightarrow> get_request option" where
  "of_json_get_request = of_object (\<lambda>fs. do {
     a \<leftarrow> required ''namespace'' of_str fs;
     b \<leftarrow> required ''token'' of_json_token fs;
     c \<leftarrow> required ''blob_id'' of_str fs;
     Some \<lparr>gq_namespace = NamespaceId a, gq_token = b, gq_blob_id = BlobId c\<rparr> })"

interpretation jget_request: value_codec to_json_get_request of_json_get_request
  by unfold_locales (simp_all add: to_json_get_request_def of_json_get_request_def json_simps comp_def)

record list_request =
  lq_namespace :: namespace_id
  lq_token :: capability_token

definition to_json_list_request :: "list_request \<Rightarrow> json" where
  "to_json_list_request x = JObj [(''namespace'', JStr (ns_str (lq_namespace x))), (''token'', to_json_token (lq_token x))]"

definition of_json_list_request :: "json \<Rightarrow> list_request option" where
  "of_json_list_request = of_object (\<lambda>fs. do {
     a \<leftarrow> required ''namespace'' of_str fs;
     b \<leftarrow> required ''token'' of_json_token fs;
     Some \<lparr>lq_namespace = NamespaceId a, lq_token = b\<rparr> })"

interpretation jlist_request: value_codec to_json_list_request of_json_list_request
  by unfold_locales (simp_all add: to_json_list_request_def of_json_list_request_def json_simps comp_def)

record delete_request =
  dq_namespace :: namespace_id
  dq_token :: capability_token
  dq_blob_id :: blob_id

definition to_json_delete_request :: "delete_request \<Rightarrow> json" where
  "to_json_delete_request x = JObj [(''namespace'', JStr (ns_str (dq_namespace x))), (''token'', to_json_token (dq_token x)), (''blob_id'', JStr (blob_str (dq_blob_id x)))]"

definition of_json_delete_request :: "json \<Rightarrow> delete_request option" where
  "of_json_delete_request = of_object (\<lambda>fs. do {
     a \<leftarrow> required ''namespace'' of_str fs;
     b \<leftarrow> required ''token'' of_json_token fs;
     c \<leftarrow> required ''blob_id'' of_str fs;
     Some \<lparr>dq_namespace = NamespaceId a, dq_token = b, dq_blob_id = BlobId c\<rparr> })"

interpretation jdelete_request: value_codec to_json_delete_request of_json_delete_request
  by unfold_locales (simp_all add: to_json_delete_request_def of_json_delete_request_def json_simps comp_def)

record restored_blob =
  rb_blob_id :: blob_id
  rb_ciphertext_b64 :: string

definition to_json_restored_blob :: "restored_blob \<Rightarrow> json" where
  "to_json_restored_blob x = JObj [(''blob_id'', JStr (blob_str (rb_blob_id x))), (''ciphertext_b64'', JStr (rb_ciphertext_b64 x))]"

definition of_json_restored_blob :: "json \<Rightarrow> restored_blob option" where
  "of_json_restored_blob = of_object (\<lambda>fs. do {
     a \<leftarrow> required ''blob_id'' of_str fs;
     b \<leftarrow> required ''ciphertext_b64'' of_str fs;
     Some \<lparr>rb_blob_id = BlobId a, rb_ciphertext_b64 = b\<rparr> })"

interpretation jrestored_blob: value_codec to_json_restored_blob of_json_restored_blob
  by unfold_locales (simp_all add: to_json_restored_blob_def of_json_restored_blob_def json_simps comp_def)

record list_response =
  lp_blob_ids :: "blob_id list"

definition to_json_list_response :: "list_response \<Rightarrow> json" where
  "to_json_list_response x = JObj [(''blob_ids'', to_list JStr (map blob_str (lp_blob_ids x)))]"

definition of_json_list_response :: "json \<Rightarrow> list_response option" where
  "of_json_list_response = of_object (\<lambda>fs. do {
     a \<leftarrow> required ''blob_ids'' (of_list of_str) fs;
     Some \<lparr>lp_blob_ids = map BlobId a\<rparr> })"

interpretation jlist_response: value_codec to_json_list_response of_json_list_response
  by unfold_locales (simp_all add: to_json_list_response_def of_json_list_response_def json_simps comp_def)

section \<open>Control-plane messages (control.rs)\<close>

record register_app_request =
  raq_label :: string
  raq_quota :: quota
  raq_retention :: retention_policy
  raq_erasure :: erasure_params

definition to_json_register_app_request :: "register_app_request \<Rightarrow> json" where
  "to_json_register_app_request x = JObj [(''label'', JStr (raq_label x)), (''quota'', to_json_quota (raq_quota x)), (''retention'', to_json_retention (raq_retention x)), (''erasure'', to_json_erasure (raq_erasure x))]"

definition of_json_register_app_request :: "json \<Rightarrow> register_app_request option" where
  "of_json_register_app_request = of_object (\<lambda>fs. do {
     a \<leftarrow> required ''label'' of_str fs;
     b \<leftarrow> required ''quota'' of_json_quota fs;
     c \<leftarrow> required ''retention'' of_json_retention fs;
     d \<leftarrow> required ''erasure'' of_json_erasure fs;
     Some \<lparr>raq_label = a, raq_quota = b, raq_retention = c, raq_erasure = d\<rparr> })"

interpretation jregister_app_request: value_codec to_json_register_app_request of_json_register_app_request
  by unfold_locales (simp_all add: to_json_register_app_request_def of_json_register_app_request_def json_simps comp_def)

record register_app_response =
  rap_app_id :: app_id
  rap_contract :: app_contract
  rap_app_signing_public_key_b64 :: string

definition to_json_register_app_response :: "register_app_response \<Rightarrow> json" where
  "to_json_register_app_response x = JObj [(''app_id'', JStr (app_str (rap_app_id x))), (''contract'', to_json_contract (rap_contract x)), (''app_signing_public_key_b64'', JStr (rap_app_signing_public_key_b64 x))]"

definition of_json_register_app_response :: "json \<Rightarrow> register_app_response option" where
  "of_json_register_app_response = of_object (\<lambda>fs. do {
     a \<leftarrow> required ''app_id'' of_str fs;
     b \<leftarrow> required ''contract'' of_json_contract fs;
     c \<leftarrow> required ''app_signing_public_key_b64'' of_str fs;
     Some \<lparr>rap_app_id = AppId a, rap_contract = b, rap_app_signing_public_key_b64 = c\<rparr> })"

interpretation jregister_app_response: value_codec to_json_register_app_response of_json_register_app_response
  by unfold_locales (simp_all add: to_json_register_app_response_def of_json_register_app_response_def json_simps comp_def)

record create_namespace_request =
  cnq_app_id :: app_id

definition to_json_create_namespace_request :: "create_namespace_request \<Rightarrow> json" where
  "to_json_create_namespace_request x = JObj [(''app_id'', JStr (app_str (cnq_app_id x)))]"

definition of_json_create_namespace_request :: "json \<Rightarrow> create_namespace_request option" where
  "of_json_create_namespace_request = of_object (\<lambda>fs. do {
     a \<leftarrow> required ''app_id'' of_str fs;
     Some \<lparr>cnq_app_id = AppId a\<rparr> })"

interpretation jcreate_namespace_request: value_codec to_json_create_namespace_request of_json_create_namespace_request
  by unfold_locales (simp_all add: to_json_create_namespace_request_def of_json_create_namespace_request_def json_simps comp_def)

record create_namespace_response =
  cnp_namespace_id :: namespace_id

definition to_json_create_namespace_response :: "create_namespace_response \<Rightarrow> json" where
  "to_json_create_namespace_response x = JObj [(''namespace_id'', JStr (ns_str (cnp_namespace_id x)))]"

definition of_json_create_namespace_response :: "json \<Rightarrow> create_namespace_response option" where
  "of_json_create_namespace_response = of_object (\<lambda>fs. do {
     a \<leftarrow> required ''namespace_id'' of_str fs;
     Some \<lparr>cnp_namespace_id = NamespaceId a\<rparr> })"

interpretation jcreate_namespace_response: value_codec to_json_create_namespace_response of_json_create_namespace_response
  by unfold_locales (simp_all add: to_json_create_namespace_response_def of_json_create_namespace_response_def json_simps comp_def)

record issue_capability_request =
  icq_app_id :: app_id
  icq_namespace :: namespace_id
  icq_operation :: operation
  icq_ttl_secs :: u64

definition to_json_issue_capability_request :: "issue_capability_request \<Rightarrow> json" where
  "to_json_issue_capability_request x = JObj [(''app_id'', JStr (app_str (icq_app_id x))), (''namespace'', JStr (ns_str (icq_namespace x))), (''operation'', to_json_operation (icq_operation x)), (''ttl_secs'', to_word (icq_ttl_secs x))]"

definition of_json_issue_capability_request :: "json \<Rightarrow> issue_capability_request option" where
  "of_json_issue_capability_request = of_object (\<lambda>fs. do {
     a \<leftarrow> required ''app_id'' of_str fs;
     b \<leftarrow> required ''namespace'' of_str fs;
     c \<leftarrow> required ''operation'' of_json_operation fs;
     d \<leftarrow> required ''ttl_secs'' of_word fs;
     Some \<lparr>icq_app_id = AppId a, icq_namespace = NamespaceId b, icq_operation = c, icq_ttl_secs = d\<rparr> })"

interpretation jissue_capability_request: value_codec to_json_issue_capability_request of_json_issue_capability_request
  by unfold_locales (simp_all add: to_json_issue_capability_request_def of_json_issue_capability_request_def json_simps comp_def)

record issue_capability_response =
  icp_token :: capability_token

definition to_json_issue_capability_response :: "issue_capability_response \<Rightarrow> json" where
  "to_json_issue_capability_response x = JObj [(''token'', to_json_token (icp_token x))]"

definition of_json_issue_capability_response :: "json \<Rightarrow> issue_capability_response option" where
  "of_json_issue_capability_response = of_object (\<lambda>fs. do {
     a \<leftarrow> required ''token'' of_json_token fs;
     Some \<lparr>icp_token = a\<rparr> })"

interpretation jissue_capability_response: value_codec to_json_issue_capability_response of_json_issue_capability_response
  by unfold_locales (simp_all add: to_json_issue_capability_response_def of_json_issue_capability_response_def json_simps comp_def)

record coordinator_key =
  ck_public_key_b64 :: string

definition to_json_coordinator_key :: "coordinator_key \<Rightarrow> json" where
  "to_json_coordinator_key x = JObj [(''public_key_b64'', JStr (ck_public_key_b64 x))]"

definition of_json_coordinator_key :: "json \<Rightarrow> coordinator_key option" where
  "of_json_coordinator_key = of_object (\<lambda>fs. do {
     a \<leftarrow> required ''public_key_b64'' of_str fs;
     Some \<lparr>ck_public_key_b64 = a\<rparr> })"

interpretation jcoordinator_key: value_codec to_json_coordinator_key of_json_coordinator_key
  by unfold_locales (simp_all add: to_json_coordinator_key_def of_json_coordinator_key_def json_simps comp_def)

record repair_request =
  rq_namespace :: namespace_id
  rq_blob_id :: blob_id

definition to_json_repair_request :: "repair_request \<Rightarrow> json" where
  "to_json_repair_request x = JObj [(''namespace'', JStr (ns_str (rq_namespace x))), (''blob_id'', JStr (blob_str (rq_blob_id x)))]"

definition of_json_repair_request :: "json \<Rightarrow> repair_request option" where
  "of_json_repair_request = of_object (\<lambda>fs. do {
     a \<leftarrow> required ''namespace'' of_str fs;
     b \<leftarrow> required ''blob_id'' of_str fs;
     Some \<lparr>rq_namespace = NamespaceId a, rq_blob_id = BlobId b\<rparr> })"

interpretation jrepair_request: value_codec to_json_repair_request of_json_repair_request
  by unfold_locales (simp_all add: to_json_repair_request_def of_json_repair_request_def json_simps comp_def)

record prune_request =
  prq_namespace :: namespace_id
  prq_object_id :: string

definition to_json_prune_request :: "prune_request \<Rightarrow> json" where
  "to_json_prune_request x = JObj [(''namespace'', JStr (ns_str (prq_namespace x))), (''object_id'', JStr (prq_object_id x))]"

definition of_json_prune_request :: "json \<Rightarrow> prune_request option" where
  "of_json_prune_request = of_object (\<lambda>fs. do {
     a \<leftarrow> required ''namespace'' of_str fs;
     b \<leftarrow> required ''object_id'' of_str fs;
     Some \<lparr>prq_namespace = NamespaceId a, prq_object_id = b\<rparr> })"

interpretation jprune_request: value_codec to_json_prune_request of_json_prune_request
  by unfold_locales (simp_all add: to_json_prune_request_def of_json_prune_request_def json_simps comp_def)

section \<open>Anchor access (anchor.rs)\<close>

datatype presign_op = PresignPut | PresignGet

definition to_json_presign_op :: "presign_op \<Rightarrow> json" where
  "to_json_presign_op x = JStr (case x of PresignPut \<Rightarrow> ''Put'' | PresignGet \<Rightarrow> ''Get'')"

definition of_json_presign_op :: "json \<Rightarrow> presign_op option" where
  "of_json_presign_op j = (case j of JStr s \<Rightarrow>
       if s = ''Put'' then Some PresignPut else if s = ''Get'' then Some PresignGet else None
     | _ \<Rightarrow> None)"

interpretation jpresign_op: value_codec to_json_presign_op of_json_presign_op
  by unfold_locales (auto simp: to_json_presign_op_def of_json_presign_op_def split: presign_op.split)

lemmas presign_op_codec [json_simps] = jpresign_op.dec_enc

record presign_request =
  psq_namespace :: namespace_id
  psq_blob_id :: blob_id
  psq_index :: u16
  psq_op :: presign_op

definition to_json_presign_request :: "presign_request \<Rightarrow> json" where
  "to_json_presign_request x = JObj [(''namespace'', JStr (ns_str (psq_namespace x))), (''blob_id'', JStr (blob_str (psq_blob_id x))), (''index'', to_word (psq_index x)), (''op'', to_json_presign_op (psq_op x))]"

definition of_json_presign_request :: "json \<Rightarrow> presign_request option" where
  "of_json_presign_request = of_object (\<lambda>fs. do {
     a \<leftarrow> required ''namespace'' of_str fs;
     b \<leftarrow> required ''blob_id'' of_str fs;
     c \<leftarrow> required ''index'' of_word fs;
     d \<leftarrow> required ''op'' of_json_presign_op fs;
     Some \<lparr>psq_namespace = NamespaceId a, psq_blob_id = BlobId b, psq_index = c, psq_op = d\<rparr> })"

interpretation jpresign_request: value_codec to_json_presign_request of_json_presign_request
  by unfold_locales (simp_all add: to_json_presign_request_def of_json_presign_request_def json_simps comp_def)

record presign_response =
  psp_url :: string
  psp_expires_secs :: u64

definition to_json_presign_response :: "presign_response \<Rightarrow> json" where
  "to_json_presign_response x = JObj [(''url'', JStr (psp_url x)), (''expires_secs'', to_word (psp_expires_secs x))]"

definition of_json_presign_response :: "json \<Rightarrow> presign_response option" where
  "of_json_presign_response = of_object (\<lambda>fs. do {
     a \<leftarrow> required ''url'' of_str fs;
     b \<leftarrow> required ''expires_secs'' of_word fs;
     Some \<lparr>psp_url = a, psp_expires_secs = b\<rparr> })"

interpretation jpresign_response: value_codec to_json_presign_response of_json_presign_response
  by unfold_locales (simp_all add: to_json_presign_response_def of_json_presign_response_def json_simps comp_def)

record delete_blob_request =
  dbq_namespace :: namespace_id
  dbq_blob_id :: blob_id

definition to_json_delete_blob_request :: "delete_blob_request \<Rightarrow> json" where
  "to_json_delete_blob_request x = JObj [(''namespace'', JStr (ns_str (dbq_namespace x))), (''blob_id'', JStr (blob_str (dbq_blob_id x)))]"

definition of_json_delete_blob_request :: "json \<Rightarrow> delete_blob_request option" where
  "of_json_delete_blob_request = of_object (\<lambda>fs. do {
     a \<leftarrow> required ''namespace'' of_str fs;
     b \<leftarrow> required ''blob_id'' of_str fs;
     Some \<lparr>dbq_namespace = NamespaceId a, dbq_blob_id = BlobId b\<rparr> })"

interpretation jdelete_blob_request: value_codec to_json_delete_blob_request of_json_delete_blob_request
  by unfold_locales (simp_all add: to_json_delete_blob_request_def of_json_delete_blob_request_def json_simps comp_def)

section \<open>The error envelope (lib.rs)\<close>

record wire_error =
  we_code :: string
  we_message :: string

definition to_json_wire_error :: "wire_error \<Rightarrow> json" where
  "to_json_wire_error x = JObj [(''code'', JStr (we_code x)), (''message'', JStr (we_message x))]"

definition of_json_wire_error :: "json \<Rightarrow> wire_error option" where
  "of_json_wire_error = of_object (\<lambda>fs. do {
     a \<leftarrow> required ''code'' of_str fs;
     b \<leftarrow> required ''message'' of_str fs;
     Some \<lparr>we_code = a, we_message = b\<rparr> })"

interpretation jwire_error: value_codec to_json_wire_error of_json_wire_error
  by unfold_locales (simp_all add: to_json_wire_error_def of_json_wire_error_def json_simps comp_def)

lemmas proto_codecs [json_simps] = jput_request.dec_enc
  jput_response.dec_enc
  jget_request.dec_enc
  jlist_request.dec_enc
  jdelete_request.dec_enc
  jrestored_blob.dec_enc
  jlist_response.dec_enc
  jregister_app_request.dec_enc
  jregister_app_response.dec_enc
  jcreate_namespace_request.dec_enc
  jcreate_namespace_response.dec_enc
  jissue_capability_request.dec_enc
  jissue_capability_response.dec_enc
  jcoordinator_key.dec_enc
  jrepair_request.dec_enc
  jprune_request.dec_enc
  jpresign_request.dec_enc
  jpresign_response.dec_enc
  jdelete_blob_request.dec_enc
  jwire_error.dec_enc

section \<open>Readers and writers of different minor versions\<close>

definition add_members :: "(string \<times> json) list \<Rightarrow> json \<Rightarrow> json" where
  "add_members extra j = (case j of JObj fs \<Rightarrow> JObj (fs @ extra) | _ \<Rightarrow> j)"

definition drop_members :: "string set \<Rightarrow> json \<Rightarrow> json" where
  "drop_members ks j = (case j of JObj fs \<Rightarrow> JObj (filter (\<lambda>(k, _). k \<notin> ks) fs) | _ \<Rightarrow> j)"

lemma members_append [simp]: "members k (fs @ gs) = members k fs @ members k gs"
  by (induction fs) auto

lemma members_absent: "k \<notin> fst ` set fs \<Longrightarrow> members k fs = []"
  by (induction fs) auto

text \<open>
  C34. The wire contract is additive, as \<^verbatim>\<open>vault-proto\<close> promises: a manifest is read back as it was
  written; members a newer writer adds are ignored; and one written before filenames and object
  groups existed is read as a manifest without them.
\<close>

theorem manifest_wire_compatible:
  assumes "fst ` set extra \<inter> {''blob_id'', ''namespace'', ''erasure'', ''shards'', ''ciphertext_len'', ''created_at'',
    ''name_enc'', ''object_id''} = {}"
  shows "of_json_manifest (add_members extra (to_json_manifest m)) = Some m \<and>
    of_json_manifest (drop_members {''name_enc'', ''object_id''} (to_json_manifest m)) =
      Some (m\<lparr>mf_name_enc := None, mf_object_id := None\<rparr>)"
proof
  have "members k extra = []" if "k \<in> {''blob_id'', ''namespace'', ''erasure'', ''shards'', ''ciphertext_len'', ''created_at'',
    ''name_enc'', ''object_id''}" for k
    using that assms by (intro members_absent) blast
  then show "of_json_manifest (add_members extra (to_json_manifest m)) = Some m"
    by (simp add: to_json_manifest_def of_json_manifest_def add_members_def json_simps)
  show "of_json_manifest (drop_members {''name_enc'', ''object_id''} (to_json_manifest m)) =
      Some (m\<lparr>mf_name_enc := None, mf_object_id := None\<rparr>)"
    by (simp add: to_json_manifest_def of_json_manifest_def drop_members_def json_simps)
qed

theorem manifest_wire_compatible_witness:
  "of_json_manifest (add_members [(''tier'', JStr ''cold'')]
     (to_json_manifest (manifest_new (BlobId ''b'') (NamespaceId ''n'') \<lparr>ep_k = 1, ep_n = 1\<rparr> [] 3 (Timestamp 5)))) =
   Some (manifest_new (BlobId ''b'') (NamespaceId ''n'') \<lparr>ep_k = 1, ep_n = 1\<rparr> [] 3 (Timestamp 5))"
  using manifest_wire_compatible [of "[(''tier'', JStr ''cold'')]"] by simp

end
