(* ===== verification/Perimeter.thy ===== *)
theory Perimeter
  imports Ports
begin

text \<open>
  The active perimeter: the hash-chained intrusion ledger and the escalating responder of
  \<^verbatim>\<open>crates/adapter-perimeter\<close>, and the middleware of \<^verbatim>\<open>bins/coordinator/src/perimeter.rs\<close> that
  drives both.  Hex SHA-256 comes from third-party crates and is the parameter \<open>hash\<close>.
\<close>

section \<open>Intrusion records and decisions (future\_ports.rs)\<close>

record intrusion_record =
  ir_source_ip :: string
  ir_ja3 :: "string option"
  ir_attack_class :: string
  ir_rejection_reason :: string
  ir_at_millis :: u64

datatype threat_decision = Allow | Tarpit | Block

section \<open>The ledger (ledger.rs)\<close>

record ledger_entry =
  le_seq :: u64
  le_record :: intrusion_record
  le_prev_hash :: string
  le_hash :: string

definition GENESIS :: string where
  "GENESIS = replicate 64 (CHR ''0'')"

definition entry_preimage :: "u64 \<Rightarrow> string \<Rightarrow> intrusion_record \<Rightarrow> bytes" where
  "entry_preimage s prev r =
     be_bytes 8 s @ as_bytes prev @ as_bytes (ir_source_ip r) @ [0] @
     as_bytes (case ir_ja3 r of Some j \<Rightarrow> j | None \<Rightarrow> []) @ [0] @
     as_bytes (ir_attack_class r) @ [0] @ as_bytes (ir_rejection_reason r) @ [0] @
     be_bytes 8 (ir_at_millis r)"

definition entry_hash :: "(bytes \<Rightarrow> string) \<Rightarrow> u64 \<Rightarrow> string \<Rightarrow> intrusion_record \<Rightarrow> string" where
  "entry_hash hash s prev r = hash (entry_preimage s prev r)"

definition ledger_append :: "(bytes \<Rightarrow> string) \<Rightarrow> intrusion_record \<Rightarrow> ledger_entry list \<Rightarrow> ledger_entry list" where
  "ledger_append hash r entries =
     (let s = word_of_nat (length entries);
          prev = (if entries = [] then GENESIS else le_hash (last entries))
      in entries @ [\<lparr>le_seq = s, le_record = r, le_prev_hash = prev, le_hash = entry_hash hash s prev r\<rparr>])"

definition unauthorized_shard_record :: "namespace_id \<Rightarrow> blob_id \<Rightarrow> intrusion_record" where
  "unauthorized_shard_record ns b =
     \<lparr>ir_source_ip = ''peer'', ir_ja3 = None, ir_attack_class = ''unauthorized_shard_access'',
      ir_rejection_reason = ''namespace='' @ ns_str ns @ '' blob='' @ blob_str b, ir_at_millis = 0\<rparr>"

definition note_unauthorized_shard_access ::
  "(bytes \<Rightarrow> string) \<Rightarrow> namespace_id \<Rightarrow> blob_id \<Rightarrow> ledger_entry list \<Rightarrow> ledger_entry list" where
  "note_unauthorized_shard_access hash ns b = ledger_append hash (unauthorized_shard_record ns b)"

fun verify_from :: "(bytes \<Rightarrow> string) \<Rightarrow> nat \<Rightarrow> string \<Rightarrow> ledger_entry list \<Rightarrow> bool" where
  "verify_from hash i prev [] \<longleftrightarrow> True"
| "verify_from hash i prev (e # es) \<longleftrightarrow>
     (if le_seq e \<noteq> word_of_nat i \<or> le_prev_hash e \<noteq> prev then False
      else if le_hash e \<noteq> entry_hash hash (le_seq e) (le_prev_hash e) (le_record e) then False
      else verify_from hash (Suc i) (le_hash e) es)"

definition ledger_verify :: "(bytes \<Rightarrow> string) \<Rightarrow> ledger_entry list \<Rightarrow> bool" where
  "ledger_verify hash entries = verify_from hash 0 GENESIS entries"

section \<open>The responder (responder.rs)\<close>

record responder =
  rsp_strikes :: "(string, u32) alist"
  rsp_blocked :: "string set"
  rsp_block_after :: u32

definition responder_new :: "u32 \<Rightarrow> responder" where
  "responder_new n = \<lparr>rsp_strikes = DAList.empty, rsp_blocked = {}, rsp_block_after = max n 1\<rparr>"

definition responder_defaults :: responder where
  "responder_defaults = responder_new 3"

definition is_blocked :: "responder \<Rightarrow> string \<Rightarrow> bool" where
  "is_blocked r fp \<longleftrightarrow> fp \<in> rsp_blocked r"

definition assess :: "string \<Rightarrow> string \<Rightarrow> responder \<Rightarrow> threat_decision \<times> responder" where
  "assess fp attack_class r =
     (if fp \<in> rsp_blocked r then (Block, r)
      else let strikes = (case DAList.lookup (rsp_strikes r) fp of Some s \<Rightarrow> s | None \<Rightarrow> 0) + 1;
               r' = r\<lparr>rsp_strikes := DAList.update fp strikes (rsp_strikes r)\<rparr>
           in if rsp_block_after r \<le> strikes
              then (Block, r'\<lparr>rsp_blocked := insert fp (rsp_blocked r')\<rparr>)
              else (Tarpit, r'))"

section \<open>The middleware (bins/coordinator/src/perimeter.rs)\<close>

text \<open>
  The rest of the coordinator (\<^verbatim>\<open>next.run\<close>) is an argument: it sees and may change the whole
  state, perimeter included, and answers with a status and a body.
\<close>

record perimeter =
  pm_responder :: responder
  pm_intrusions :: "ledger_entry list"

datatype 'b response = Response (resp_status: nat) (resp_body: 'b)

fun show_decision :: "threat_decision \<Rightarrow> string" where
  "show_decision Allow = ''Allow''"
| "show_decision Tarpit = ''Tarpit''"
| "show_decision Block = ''Block''"

definition fingerprint :: "string option \<Rightarrow> string" where
  "fingerprint header = (case header of Some v \<Rightarrow> v | None \<Rightarrow> ''anonymous'')"

definition classify :: "nat \<Rightarrow> string" where
  "classify status =
     (if status = 401 then ''bad_or_forged_credential''
      else if status = 403 then ''authorization_violation''
      else if status = 429 then ''abuse_or_dos''
      else ''suspicious'')"

definition record_intrusion ::
  "(bytes \<Rightarrow> string) \<Rightarrow> intrusion_record \<Rightarrow> 'a perimeter_scheme \<Rightarrow> 'a perimeter_scheme" where
  "record_intrusion hash r st = st\<lparr>pm_intrusions := ledger_append hash r (pm_intrusions st)\<rparr>"

definition perimeter_guard ::
  "(bytes \<Rightarrow> string) \<Rightarrow> 'b \<Rightarrow> ('a perimeter_scheme \<Rightarrow> 'b response \<times> 'a perimeter_scheme)
   \<Rightarrow> string option \<Rightarrow> string \<Rightarrow> u64 \<Rightarrow> 'a perimeter_scheme \<Rightarrow> 'b response \<times> 'a perimeter_scheme" where
  "perimeter_guard hash blocked_body next_run header path now st =
     (let fp = fingerprint header in
      if is_blocked (pm_responder st) fp
      then (Response 403 blocked_body,
            record_intrusion hash \<lparr>ir_source_ip = fp, ir_ja3 = Some fp, ir_attack_class = ''blocked_fingerprint'',
              ir_rejection_reason = ''blocklisted; path='' @ path, ir_at_millis = now\<rparr> st)
      else
        (case next_run st of (resp, st1) \<Rightarrow>
         let status = resp_status resp in
         if status = 401 \<or> status = 403 \<or> status = 429
         then (let cls = classify status in
               case assess fp cls (pm_responder st1) of (decision, rsp) \<Rightarrow>
               (resp, record_intrusion hash
                  \<lparr>ir_source_ip = fp, ir_ja3 = Some fp, ir_attack_class = cls,
                   ir_rejection_reason = ''status='' @ show_nat status @ '' path='' @ path @
                     '' decision='' @ show_decision decision, ir_at_millis = now\<rparr>
                  (st1\<lparr>pm_responder := rsp\<rparr>)))
         else (resp, st1)))"

section \<open>The ledger is tamper evident\<close>

lemma verify_from_snoc:
  "verify_from hash i prev (es @ [e]) \<longleftrightarrow> verify_from hash i prev es \<and>
     le_seq e = word_of_nat (i + length es) \<and>
     le_prev_hash e = (if es = [] then prev else le_hash (last es)) \<and>
     le_hash e = entry_hash hash (le_seq e) (le_prev_hash e) (le_record e)"
  by (induction es arbitrary: i prev) auto

lemma ledger_append_verifies: "ledger_verify hash es \<Longrightarrow> ledger_verify hash (ledger_append hash r es)"
  by (simp add: ledger_verify_def ledger_append_def Let_def verify_from_snoc)

lemma verify_from_take: "verify_from hash i prev es \<Longrightarrow> verify_from hash i prev (take n es)"
proof (induction es arbitrary: i prev n)
  case (Cons e es)
  then show ?case by (cases n) (auto split: if_splits)
qed simp

definition nul_free :: "intrusion_record \<Rightarrow> bool" where
  "nul_free r \<longleftrightarrow> CHR 0x00 \<notin> set (ir_source_ip r) \<and> CHR 0x00 \<notin> set (case ir_ja3 r of Some j \<Rightarrow> j | None \<Rightarrow> []) \<and>
     CHR 0x00 \<notin> set (ir_attack_class r) \<and> CHR 0x00 \<notin> set (ir_rejection_reason r)"

text \<open>The encoding reads an absent JA3 as an empty one; entries are compared up to that.\<close>

definition norm_entry :: "ledger_entry \<Rightarrow> ledger_entry" where
  "norm_entry e = e\<lparr>le_record := (le_record e)\<lparr>ir_ja3 := Some (case ir_ja3 (le_record e) of Some j \<Rightarrow> j | None \<Rightarrow> [])\<rparr>\<rparr>"

lemma nul_not_in_as_bytes: "CHR 0x00 \<notin> set s \<Longrightarrow> 0 \<notin> set (as_bytes s)"
proof
  assume "CHR 0x00 \<notin> set s" and "0 \<in> set (as_bytes s)"
  then obtain c where c: "c \<in> set s" "(of_char c :: byte) = 0" by (auto simp: as_bytes_def)
  then have "(of_char c :: nat) = 0" by (metis unat_of_char_byte unat_0)
  then have "(of_char c :: nat) = of_char (CHR 0x00)" by simp
  then have "c = CHR 0x00" by (simp only: of_char_eq_iff)
  with c \<open>CHR 0x00 \<notin> set s\<close> show False by simp
qed

lemma entry_preimage_inject:
  assumes "entry_preimage s p r = entry_preimage s' p' r'" and "length p = length p'"
    and "nul_free r" and "nul_free r'"
  shows "s = s' \<and> p = p' \<and> r\<lparr>ir_ja3 := Some (case ir_ja3 r of Some j \<Rightarrow> j | None \<Rightarrow> [])\<rparr> =
    r'\<lparr>ir_ja3 := Some (case ir_ja3 r' of Some j \<Rightarrow> j | None \<Rightarrow> [])\<rparr>"
proof -
  let ?j = "case ir_ja3 r of Some j \<Rightarrow> j | None \<Rightarrow> []" and ?j' = "case ir_ja3 r' of Some j \<Rightarrow> j | None \<Rightarrow> []"
  have z: "0 \<notin> set (as_bytes (ir_source_ip r))" "0 \<notin> set (as_bytes (ir_source_ip r'))"
      "0 \<notin> set (as_bytes ?j)" "0 \<notin> set (as_bytes ?j')"
      "0 \<notin> set (as_bytes (ir_attack_class r))" "0 \<notin> set (as_bytes (ir_attack_class r'))"
      "0 \<notin> set (as_bytes (ir_rejection_reason r))" "0 \<notin> set (as_bytes (ir_rejection_reason r'))"
    using assms(3,4) by (auto simp: nul_free_def intro!: nul_not_in_as_bytes)
  have "be_bytes 8 s = be_bytes 8 s' \<and> as_bytes p = as_bytes p' \<and>
      as_bytes (ir_source_ip r) = as_bytes (ir_source_ip r') \<and> as_bytes ?j = as_bytes ?j' \<and>
      as_bytes (ir_attack_class r) = as_bytes (ir_attack_class r') \<and>
      as_bytes (ir_rejection_reason r) = as_bytes (ir_rejection_reason r') \<and>
      be_bytes 8 (ir_at_millis r) = be_bytes 8 (ir_at_millis r')"
    using assms(1,2) z by (simp add: entry_preimage_def append_eq_append_conv append_sep_eq)
  then show ?thesis
    by (auto intro!: intrusion_record.equality dest: be_bytes_inject [rotated])
qed

lemma ledger_prev_length:
  assumes "\<forall>x. length (hash x) = 64" and "ledger_verify hash es" and "e \<in> set es"
  shows "length (le_prev_hash e) = 64"
proof -
  have gen: "length p = 64 \<Longrightarrow> verify_from hash i p es \<Longrightarrow> e \<in> set es \<Longrightarrow> length (le_prev_hash e) = 64" for i p
  proof (induction es arbitrary: i p)
    case (Cons a es)
    then have "length (le_hash a) = 64" "verify_from hash (Suc i) (le_hash a) es" "length (le_prev_hash a) = 64"
      by (auto simp: entry_hash_def assms(1) split: if_splits)
    with Cons show ?case by auto
  qed simp
  show ?thesis using gen [of GENESIS 0] assms(2,3) by (simp add: ledger_verify_def GENESIS_def)
qed

lemma ledger_head_unique:
  assumes hash: "\<forall>x. length (hash x) = 64"
    and "ledger_verify hash es" and "ledger_verify hash es'" and "es \<noteq> []" and "es' \<noteq> []"
    and "length es \<le> 2 ^ 64" and "length es' \<le> 2 ^ 64"
    and "\<forall>e\<in>set es \<union> set es'. nul_free (le_record e)"
    and "\<forall>e\<in>set es. \<forall>e'\<in>set es'. le_hash e = le_hash e' \<longrightarrow>
      entry_preimage (le_seq e) (le_prev_hash e) (le_record e) =
      entry_preimage (le_seq e') (le_prev_hash e') (le_record e')"
    and "le_hash (last es) = le_hash (last es')"
  shows "map norm_entry es = map norm_entry es'"
  using assms(2-)
proof (induction es arbitrary: es' rule: rev_induct)
  case (snoc x xs)
  obtain ys y where es': "es' = ys @ [y]" using snoc.prems(4) by (cases es' rule: rev_cases) auto
  have v: "ledger_verify hash xs" "ledger_verify hash ys"
      "le_seq x = word_of_nat (length xs)" "le_seq y = word_of_nat (length ys)"
      "le_prev_hash x = (if xs = [] then GENESIS else le_hash (last xs))"
      "le_prev_hash y = (if ys = [] then GENESIS else le_hash (last ys))"
    using snoc.prems(1,2) by (simp_all add: es' ledger_verify_def verify_from_snoc)
  have pl: "length (le_prev_hash x) = length (le_prev_hash y)"
    using ledger_prev_length [OF hash snoc.prems(1), of x] ledger_prev_length [OF hash snoc.prems(2), of y]
    by (simp add: es')
  have "entry_preimage (le_seq x) (le_prev_hash x) (le_record x) = entry_preimage (le_seq y) (le_prev_hash y) (le_record y)"
    using snoc.prems(8,9) by (simp add: es')
  note same = entry_preimage_inject [OF this pl]
  have nf: "nul_free (le_record x)" "nul_free (le_record y)" using snoc.prems(7) by (simp_all add: es')
  have "le_seq x = le_seq y" "le_prev_hash x = le_prev_hash y" using same nf by simp_all
  moreover have "length xs < 2 ^ LENGTH(64)" "length ys < 2 ^ LENGTH(64)" using snoc.prems(5,6) es' by simp_all
  ultimately have len: "length xs = length ys" using v(3,4) by (metis unat_of_nat_small)
  have prev: "le_prev_hash x = le_prev_hash y" using same nf by simp
  have xy: "norm_entry x = norm_entry y"
    using same nf snoc.prems(9) by (auto simp: norm_entry_def es' intro!: ledger_entry.equality)
  show ?case
  proof (cases "xs = []")
    case True
    then show ?thesis using len xy by (simp add: es')
  next
    case False
    then have "ys \<noteq> []" using len by auto
    moreover have "le_hash (last xs) = le_hash (last ys)"
      using v(5,6) prev False \<open>ys \<noteq> []\<close> by simp
    ultimately have "map norm_entry xs = map norm_entry ys"
      using snoc.prems(5-8) False v(1,2) by (intro snoc.IH) (simp_all add: es')
    then show ?thesis using xy by (simp add: es')
  qed
qed simp

section \<open>The responder escalates by count\<close>

definition responder_run :: "u32 \<Rightarrow> (string \<times> string) list \<Rightarrow> responder" where
  "responder_run n calls = fold (\<lambda>(fp, cls) r. snd (assess fp cls r)) calls (responder_new n)"

definition strikes_of :: "string \<Rightarrow> (string \<times> string) list \<Rightarrow> nat" where
  "strikes_of fp calls = length (filter (\<lambda>c. fst c = fp) calls)"

definition responder_inv :: "u32 \<Rightarrow> (string \<times> string) list \<Rightarrow> responder \<Rightarrow> bool" where
  "responder_inv n calls r \<longleftrightarrow> rsp_block_after r = max n 1 \<and>
     (\<forall>fp. (fp \<in> rsp_blocked r \<longleftrightarrow> unat (max n 1) \<le> strikes_of fp calls) \<and>
       (fp \<notin> rsp_blocked r \<longrightarrow>
         (case DAList.lookup (rsp_strikes r) fp of Some s \<Rightarrow> s | None \<Rightarrow> 0) = word_of_nat (strikes_of fp calls)))"

lemma max_one_pos: "1 \<le> unat (max n (1 :: u32))"
  by (simp add: max_def word_le_nat_alt)

lemma assess_count:
  assumes "responder_inv n calls r"
  shows "fst (assess fp cls r) = (if unat (max n 1) \<le> strikes_of fp calls + 1 then Block else Tarpit)"
    and "responder_inv n (calls @ [(fp, cls)]) (snd (assess fp cls r))"
proof -
  let ?B = "unat (max n 1)" and ?c = "strikes_of fp calls"
  have inv: "rsp_block_after r = max n 1" "f \<in> rsp_blocked r \<longleftrightarrow> ?B \<le> strikes_of f calls"
      "f \<notin> rsp_blocked r \<Longrightarrow> (case DAList.lookup (rsp_strikes r) f of Some s \<Rightarrow> s | None \<Rightarrow> 0) =
        word_of_nat (strikes_of f calls)" for f
    using assms by (simp_all add: responder_inv_def)
  have snoc: "strikes_of f (calls @ [(fp, cls)]) = (if f = fp then ?c + 1 else strikes_of f calls)" for f
    by (simp add: strikes_of_def)
  have "fst (assess fp cls r) = (if ?B \<le> ?c + 1 then Block else Tarpit) \<and>
    responder_inv n (calls @ [(fp, cls)]) (snd (assess fp cls r))"
  proof (cases "fp \<in> rsp_blocked r")
    case True
    then show ?thesis using inv by (auto simp: assess_def responder_inv_def snoc)
  next
    case False
    have "?c < 2 ^ 32 - 1"
      using False inv(2) [of fp] unsigned_less [of "max n 1", where ?'a = nat] by simp
    then have "unat (word_of_nat (Suc ?c) :: u32) = Suc ?c" by (intro unat_of_nat_small) simp
    moreover have count: "(word_of_nat (Suc ?c) :: u32) = word_of_nat ?c + 1" by (simp only: of_nat_Suc add.commute)
    ultimately have "unat (word_of_nat ?c + 1 :: u32) = ?c + 1" by (simp only: Suc_eq_plus1)
    then have block: "max n 1 \<le> word_of_nat ?c + 1 \<longleftrightarrow> ?B \<le> ?c + 1" by (simp add: word_le_nat_alt)
    let ?r = "r\<lparr>rsp_strikes := DAList.update fp (word_of_nat ?c + 1) (rsp_strikes r)\<rparr>"
    have run: "assess fp cls r = (if ?B \<le> ?c + 1 then (Block, ?r\<lparr>rsp_blocked := insert fp (rsp_blocked r)\<rparr>) else (Tarpit, ?r))"
      using False inv(1) inv(3) [OF False] block by (simp add: assess_def Let_def)
    have "responder_inv n (calls @ [(fp, cls)]) (snd (assess fp cls r))"
      unfolding responder_inv_def
    proof (intro conjI allI)
      fix f
      show "f \<in> rsp_blocked (snd (assess fp cls r)) \<longleftrightarrow> ?B \<le> strikes_of f (calls @ [(fp, cls)])"
        using inv(2) [of f] False by (simp add: run snoc)
      show "f \<notin> rsp_blocked (snd (assess fp cls r)) \<longrightarrow>
         (case DAList.lookup (rsp_strikes (snd (assess fp cls r))) f of Some s \<Rightarrow> s | None \<Rightarrow> 0) =
           word_of_nat (strikes_of f (calls @ [(fp, cls)]))"
        using inv(3) [of f] count by (simp add: run snoc)
    qed (simp add: run inv(1))
    then show ?thesis by (simp add: run)
  qed
  then show "fst (assess fp cls r) = (if ?B \<le> ?c + 1 then Block else Tarpit)"
    and "responder_inv n (calls @ [(fp, cls)]) (snd (assess fp cls r))" by simp_all
qed

lemma responder_run_inv: "responder_inv n calls (responder_run n calls)"
proof (induction calls rule: rev_induct)
  case Nil
  then show ?case
    using max_one_pos [of n] by (simp add: responder_run_def responder_new_def responder_inv_def strikes_of_def)
next
  case (snoc c calls)
  then show ?case using assess_count(2) by (cases c) (simp add: responder_run_def)
qed

text \<open>
  The responder's decision depends only on how often this fingerprint was reported before:
  up to the threshold the caller is tarpitted, from the threshold on every report answers Block,
  whatever other fingerprints did in between; the strike counter never wraps.
\<close>

theorem responder_escalates:
  "fst (assess fp cls (responder_run n calls)) =
     (if unat (max n 1) \<le> strikes_of fp calls + 1 then Block else Tarpit) \<and>
   (is_blocked (responder_run n calls) fp \<longleftrightarrow> unat (max n 1) \<le> strikes_of fp calls)"
  using assess_count(1) [OF responder_run_inv] responder_run_inv [of n calls]
  by (simp add: is_blocked_def responder_inv_def)

definition ledger_run :: "(bytes \<Rightarrow> string) \<Rightarrow> intrusion_record list \<Rightarrow> ledger_entry list" where
  "ledger_run hash rs = fold (ledger_append hash) rs []"

lemma ledger_run_verifies: "ledger_verify hash (ledger_run hash rs)"
proof (induction rs rule: rev_induct)
  case Nil
  then show ?case by (simp add: ledger_run_def ledger_verify_def)
next
  case (snoc r rs)
  then show ?case using ledger_append_verifies by (simp add: ledger_run_def)
qed

lemma ledger_run_snoc: "ledger_run hash (rs @ [r]) = ledger_append hash r (ledger_run hash rs)"
  by (simp add: ledger_run_def)

lemma ledger_run_records: "map le_record (ledger_run hash rs) = rs"
  by (induction rs rule: rev_induct) (simp_all add: ledger_run_snoc, simp_all add: ledger_run_def ledger_append_def Let_def)

text \<open>
  The ledger's own appends always verify, and every record is kept in order: whatever records
  arrive, the chain recomputes, and the ledger lists exactly those records.
\<close>

theorem ledger_appends_verify:
  "ledger_verify hash (ledger_run hash rs) \<and> map le_record (ledger_run hash rs) = rs"
  using ledger_run_verifies ledger_run_records by blast


text \<open>A hash for the witness: 64 copies of the last character of the rejection reason.\<close>

definition demo_hash :: "bytes \<Rightarrow> string" where
  "demo_hash x = replicate 64 (char_of (unat (rev x ! 9)))"

lemma demo_entry_hash:
  "ir_rejection_reason r = cs @ [c] \<Longrightarrow> entry_hash demo_hash s prev r = replicate 64 c"
  by (simp add: entry_hash_def demo_hash_def entry_preimage_def as_bytes_def nth_append)

definition demo_record :: "string \<Rightarrow> intrusion_record" where
  "demo_record reason = \<lparr>ir_source_ip = ''a'', ir_ja3 = None, ir_attack_class = ''p'',
     ir_rejection_reason = reason, ir_at_millis = 7\<rparr>"

definition demo_ledger :: "ledger_entry list" where
  "demo_ledger = ledger_run demo_hash [demo_record ''x'', demo_record ''y'']"

definition demo_edited :: "ledger_entry list" where
  "demo_edited = ledger_run demo_hash [demo_record ''x''\<lparr>ir_ja3 := Some []\<rparr>, demo_record ''y'']"

lemma demo_entries:
  "demo_ledger = [\<lparr>le_seq = 0, le_record = demo_record ''x'', le_prev_hash = GENESIS, le_hash = replicate 64 (CHR ''x'')\<rparr>,
     \<lparr>le_seq = 1, le_record = demo_record ''y'', le_prev_hash = replicate 64 (CHR ''x''), le_hash = replicate 64 (CHR ''y'')\<rparr>]"
  "demo_edited = [\<lparr>le_seq = 0, le_record = demo_record ''x''\<lparr>ir_ja3 := Some []\<rparr>, le_prev_hash = GENESIS,
       le_hash = replicate 64 (CHR ''x'')\<rparr>,
     \<lparr>le_seq = 1, le_record = demo_record ''y'', le_prev_hash = replicate 64 (CHR ''x''), le_hash = replicate 64 (CHR ''y'')\<rparr>]"
  by (simp_all add: demo_ledger_def demo_edited_def ledger_run_def ledger_append_def Let_def
      demo_entry_hash [where cs = "[]"] demo_record_def)


text \<open>
  What verification does not see: cutting entries off the end of the ledger leaves a chain
  that verifies, and replacing an absent JA3 by an empty one leaves the entry's hash unchanged.
\<close>

theorem ledger_blind_spots:
  "ledger_verify hash (take n (ledger_run hash rs)) \<and>
   entry_hash hash s prev (r\<lparr>ir_ja3 := None\<rparr>) = entry_hash hash s prev (r\<lparr>ir_ja3 := Some []\<rparr>)"
  using ledger_run_verifies [of hash rs]
  by (simp add: ledger_verify_def verify_from_take entry_hash_def entry_preimage_def)

text \<open>
  A blocked fingerprint never reaches application logic: the answer is 403 and the only
  change is one more ledger entry, for every handler behind the middleware; the ledger still
  verifies.
\<close>

theorem perimeter_guard_blocks:
  assumes "is_blocked (pm_responder st) (fingerprint header)" and "ledger_verify hash (pm_intrusions st)"
    and "perimeter_guard hash body next_run header path now st = (resp, st')"
  shows "resp = Response 403 body \<and> pm_responder st' = pm_responder st \<and>
    perimeter.more st' = perimeter.more st \<and> length (pm_intrusions st') = Suc (length (pm_intrusions st)) \<and>
    butlast (pm_intrusions st') = pm_intrusions st \<and> ledger_verify hash (pm_intrusions st')"
  using assms ledger_append_verifies
  by (auto simp: perimeter_guard_def Let_def record_intrusion_def ledger_append_def)

theorem perimeter_guard_blocks_witness:
  "(let st = \<lparr>pm_responder = responder_run 1 [(''fp'', ''probe'')], pm_intrusions = []\<rparr>;
        run = perimeter_guard demo_hash () (\<lambda>s. (Response 200 (), s)) (Some ''fp'') ''/v1/apps'' 5 st
    in is_blocked (pm_responder st) ''fp'' \<and> fst run = Response 403 ())"
proof -
  let ?st = "\<lparr>pm_responder = responder_run 1 [(''fp'', ''probe'')], pm_intrusions = []\<rparr>"
  have "is_blocked (pm_responder ?st) (fingerprint (Some ''fp''))" by code_simp
  moreover obtain resp st' where run: "perimeter_guard demo_hash () (\<lambda>s. (Response 200 (), s)) (Some ''fp'') ''/v1/apps'' 5 ?st = (resp, st')"
    by force
  ultimately show ?thesis
    using perimeter_guard_blocks [of ?st "Some ''fp''" demo_hash "()" _ "''/v1/apps''" 5 resp st']
    by (simp add: ledger_verify_def fingerprint_def)
qed

text \<open>
  Every answer 401, 403 or 429 of the application to an unblocked caller is a strike and a
  footprint: the ledger grows by one verified entry, and the responder has counted one report
  more for this fingerprint, so that the report that reaches the threshold blocks it for good.
\<close>

theorem perimeter_guard_strikes:
  assumes "\<not> is_blocked (pm_responder st) (fingerprint header)"
    and "next_run st = (answer, st1)" and "resp_status answer \<in> {401, 403, 429}"
    and "pm_responder st1 = responder_run n calls" and "ledger_verify hash (pm_intrusions st1)"
    and "perimeter_guard hash body next_run header path now st = (resp, st')"
  shows "resp = answer \<and> ledger_verify hash (pm_intrusions st') \<and>
    butlast (pm_intrusions st') = pm_intrusions st1 \<and>
    pm_responder st' = responder_run n (calls @ [(fingerprint header, classify (resp_status answer))]) \<and>
    (is_blocked (pm_responder st') (fingerprint header) \<longleftrightarrow>
       unat (max n 1) \<le> strikes_of (fingerprint header) calls + 1)"
proof -
  let ?fp = "fingerprint header" and ?cls = "classify (resp_status answer)"
  have run: "pm_responder st' = snd (assess ?fp ?cls (pm_responder st1))" "resp = answer"
      "\<exists>r. pm_intrusions st' = ledger_append hash r (pm_intrusions st1)"
    using assms(1-3,6) by (auto simp: perimeter_guard_def Let_def record_intrusion_def split_beta)
  then have "pm_responder st' = responder_run n (calls @ [(?fp, ?cls)])"
    using assms(4) by (simp add: responder_run_def)
  then show ?thesis
    using run assms(5) ledger_append_verifies responder_run_inv [of n "calls @ [(?fp, ?cls)]"]
    by (auto simp: ledger_append_def Let_def is_blocked_def responder_inv_def strikes_of_def)
qed

theorem perimeter_guard_strikes_witness:
  "(let st = \<lparr>pm_responder = responder_new 1, pm_intrusions = []\<rparr>;
        run = perimeter_guard demo_hash () (\<lambda>s. (Response 401 (), s)) None ''/v1/meta'' 5 st
    in is_blocked (pm_responder (snd run)) ''anonymous'')"
proof -
  let ?st = "\<lparr>pm_responder = responder_new 1, pm_intrusions = []\<rparr>"
  have "\<not> is_blocked (pm_responder ?st) (fingerprint None)" by code_simp
  moreover obtain resp st' where run: "perimeter_guard demo_hash () (\<lambda>s. (Response 401 (), s)) None ''/v1/meta'' 5 ?st = (resp, st')"
    by force
  ultimately show ?thesis
    using perimeter_guard_strikes [of ?st None "\<lambda>s. (Response 401 (), s)" "Response 401 ()" ?st 1 "[]" demo_hash "()" "''/v1/meta''" 5 resp st']
    by (auto simp: ledger_verify_def fingerprint_def responder_run_def strikes_of_def)
qed

end
