(* ===== verification/Http_Api.thy ===== *)
theory Http_Api
  imports Wire_Json Perimeter
begin

text \<open>
  The HTTP layer both services share: requests and replies, the mapping of port errors to a status
  and a \<^verbatim>\<open>WireError\<close> body (\<^verbatim>\<open>bins/node-agent/src/http.rs\<close> and \<^verbatim>\<open>bins/coordinator/src/http.rs\<close>),
  and what the handlers use of \<^verbatim>\<open>axum\<close> and \<^verbatim>\<open>reqwest\<close>: the \<^verbatim>\<open>Json\<close> extractor, replies from a
  \<^verbatim>\<open>Result\<close>, and a router of patterns with \<^verbatim>\<open>:name\<close> captures.  A captured segment is non-empty and
  holds no slash; percent-encoding is left out, so paths stand for themselves.
\<close>

section \<open>Messages\<close>

datatype verb = GET | POST | PUT | OPTIONS

datatype body = NoBody | JsonBody json | BytesBody bytes | TextBody string

record request =
  hr_verb :: verb
  hr_path :: string
  hr_body :: body
  hr_fingerprint :: "string option"

type_synonym reply = "body response"

definition is_success :: "nat \<Rightarrow> bool" where
  "is_success status \<longleftrightarrow> 200 \<le> status \<and> status < 300"

text \<open>\<^verbatim>\<open>Display\<close> of a \<^verbatim>\<open>StatusCode\<close>: the code and its canonical reason, for the codes that occur.\<close>

definition show_status :: "nat \<Rightarrow> string" where
  "show_status status = show_nat status @ '' '' @
     (case map_of [(200, ''OK''), (204, ''No Content''), (400, ''Bad Request''), (401, ''Unauthorized''), (403, ''Forbidden''),
        (404, ''Not Found''), (405, ''Method Not Allowed''), (415, ''Unsupported Media Type''), (422, ''Unprocessable Entity''),
        (429, ''Too Many Requests''), (500, ''Internal Server Error''), (503, ''Service Unavailable'')] status of
       Some reason \<Rightarrow> reason | None \<Rightarrow> ''<unknown status code>'')"

text \<open>The base64 crate (\<^verbatim>\<open>general_purpose::STANDARD\<close>) as an argument, and what it promises.\<close>

record b64_engine =
  b64_encode :: "bytes \<Rightarrow> string"
  b64_decode :: "string \<Rightarrow> string + bytes"

definition b64_correct :: "b64_engine \<Rightarrow> bool" where
  "b64_correct b \<longleftrightarrow> (\<forall>x. b64_decode b (b64_encode b x) = Inr x)"

section \<open>Error texts (the Display of the error enums)\<close>

fun show_domain_error :: "domain_error \<Rightarrow> string" where
  "show_domain_error (InvalidErasureParams k n) = ''invalid erasure params: k='' @ show_nat (unat k) @ '', n='' @
     show_nat (unat n) @ '' (require k>=1 and n>=k)''"
| "show_domain_error TokenExpired = ''capability token is expired''"
| "show_domain_error Unauthorized = ''caller is not authorized (app mismatch)''"
| "show_domain_error NamespaceMismatch = ''token namespace does not match the requested namespace''"
| "show_domain_error (OperationNotPermitted g r) =
     ''token grants '' @ [CHR 0x27] @ operation_as_str g @ [CHR 0x27] @ '' but '' @ [CHR 0x27] @ operation_as_str r @
     [CHR 0x27] @ '' was requested''"
| "show_domain_error QuotaExceeded = ''namespace quota exceeded''"
| "show_domain_error (RetentionHold d) =
     ''retention hold: blob must be kept at least '' @ show_nat (unat d) @ '' day(s) before deletion''"
| "show_domain_error (InvalidContract s) = ''invalid contract: '' @ s"

fun show_port_error :: "port_error \<Rightarrow> string" where
  "show_port_error NotFound = ''not found''"
| "show_port_error (DomainErr d) = show_domain_error d"
| "show_port_error (Crypto s) = ''crypto error: '' @ s"
| "show_port_error (Integrity s) = ''integrity error: '' @ s"
| "show_port_error (Serialization s) = ''serialization error: '' @ s"
| "show_port_error (Unavailable s) = ''backend unavailable: '' @ s"
| "show_port_error (Backend s) = ''backend error: '' @ s"

section \<open>Error replies (http.rs)\<close>

fun domain_status :: "domain_error \<Rightarrow> nat \<times> string" where
  "domain_status TokenExpired = (401, ''token_expired'')"
| "domain_status Unauthorized = (403, ''unauthorized'')"
| "domain_status NamespaceMismatch = (403, ''namespace_mismatch'')"
| "domain_status (OperationNotPermitted _ _) = (403, ''operation_not_permitted'')"
| "domain_status QuotaExceeded = (429, ''quota_exceeded'')"
| "domain_status (RetentionHold _) = (403, ''retention_hold'')"
| "domain_status (InvalidErasureParams _ _) = (400, ''invalid_erasure'')"
| "domain_status (InvalidContract _) = (400, ''invalid_contract'')"

fun port_status :: "port_error \<Rightarrow> nat \<times> string" where
  "port_status NotFound = (404, ''not_found'')"
| "port_status (DomainErr d) = domain_status d"
| "port_status (Crypto _) = (401, ''invalid_signature'')"
| "port_status (Integrity _) = (422, ''integrity'')"
| "port_status (Serialization _) = (400, ''bad_request'')"
| "port_status (Unavailable _) = (503, ''unavailable'')"
| "port_status (Backend _) = (500, ''backend'')"

definition wire_error_reply :: "nat \<Rightarrow> string \<Rightarrow> string \<Rightarrow> reply" where
  "wire_error_reply status code msg = Response status (JsonBody (to_json_wire_error \<lparr>we_code = code, we_message = msg\<rparr>))"

definition err :: "port_error \<Rightarrow> reply" where
  "err e = (case port_status e of (status, code) \<Rightarrow> wire_error_reply status code (show_port_error e))"

definition bad_request :: "string \<Rightarrow> reply" where
  "bad_request msg = wire_error_reply 400 ''bad_request'' msg"

lemma domain_status_error: "400 \<le> fst (domain_status d) \<and> fst (domain_status d) < 600"
  by (cases d) simp_all

lemma port_status_error: "400 \<le> fst (port_status e) \<and> fst (port_status e) < 600"
  using domain_status_error by (cases e) simp_all

lemma err_not_success [simp]: "\<not> is_success (resp_status (err e))"
  using port_status_error [of e] by (auto simp: err_def is_success_def wire_error_reply_def split: prod.splits)

section \<open>Extractors and replies (axum)\<close>

definition extract_json :: "(json \<Rightarrow> 'a option) \<Rightarrow> body \<Rightarrow> reply + 'a" where
  "extract_json dec b = (case b of
       JsonBody j \<Rightarrow> (case dec j of Some x \<Rightarrow> Inr x
         | None \<Rightarrow> Inl (Response 422 (TextBody ''Failed to deserialize the JSON body into the target type'')))
     | _ \<Rightarrow> Inl (Response 415 (TextBody ''Expected request with `Content-Type: application/json`'')))"

text \<open>
  A handler's \<^verbatim>\<open>Result\<close> as a reply: \<^verbatim>\<open>Ok\<close> with status 200, \<^verbatim>\<open>Err\<close> with its own.  Where a handler
  may panic the connection is dropped, so what is sent is a \<open>reply option\<close>; \<open>lift\<close> embeds replies.
\<close>

definition respond :: "(reply \<Rightarrow> 'r) \<Rightarrow> ('a \<Rightarrow> body) \<Rightarrow> ('r, 'w, 'a) act \<Rightarrow> 'w \<Rightarrow> 'r \<times> 'w" where
  "respond lift f m w = (case m w of (Inl r, w') \<Rightarrow> (r, w') | (Inr a, w') \<Rightarrow> (lift (Response 200 (f a)), w'))"

definition empty_body :: "unit \<Rightarrow> body" where
  "empty_body u = NoBody"

lemma extract_json_simps [simp]:
  "extract_json dec (JsonBody j) = (case dec j of Some x \<Rightarrow> Inr x
     | None \<Rightarrow> Inl (Response 422 (TextBody ''Failed to deserialize the JSON body into the target type'')))"
  by (simp add: extract_json_def)

lemma respond_eq:
  "m w = (Inr a, w') \<Longrightarrow> respond lift f m w = (lift (Response 200 (f a)), w')"
  "m w = (Inl r, w') \<Longrightarrow> respond lift f m w = (r, w')"
  by (simp_all add: respond_def)

section \<open>Routing\<close>

datatype segment = Lit string | Cap

definition path_segments :: "string \<Rightarrow> string list" where
  "path_segments p = (case split_on (CHR ''/'') p of [] # ss \<Rightarrow> ss | ss \<Rightarrow> ss)"

fun match_route :: "segment list \<Rightarrow> string list \<Rightarrow> string list option" where
  "match_route [] [] = Some []"
| "match_route (Lit s # ps) (x # xs) = (if x = s then match_route ps xs else None)"
| "match_route (Cap # ps) (x # xs) = (if x = [] then None else map_option ((#) x) (match_route ps xs))"
| "match_route _ _ = None"

type_synonym ('r, 'w) handler = "string list \<Rightarrow> body \<Rightarrow> 'w \<Rightarrow> 'r \<times> 'w"
type_synonym ('r, 'w) routes = "(segment list \<times> (verb \<times> ('r, 'w) handler) list) list"

fun dispatch :: "(reply \<Rightarrow> 'r) \<Rightarrow> ('r, 'w) routes \<Rightarrow> verb \<Rightarrow> string list \<Rightarrow> body \<Rightarrow> 'w \<Rightarrow> 'r \<times> 'w" where
  "dispatch lift [] v segs b w = (lift (Response 404 NoBody), w)"
| "dispatch lift ((pat, hs) # rs) v segs b w =
     (case match_route pat segs of
        None \<Rightarrow> dispatch lift rs v segs b w
      | Some caps \<Rightarrow> (case map_of hs v of
          Some h \<Rightarrow> h caps b w
        | None \<Rightarrow> (lift (Response 405 NoBody), w)))"

text \<open>
  Segments that travel in a path as they are: made of the unreserved characters of a URL, and
  neither empty nor a dot segment, which a client would resolve.
\<close>

definition unreserved :: "char \<Rightarrow> bool" where
  "unreserved c \<longleftrightarrow> (let n = (of_char c :: nat) in 48 \<le> n \<and> n \<le> 57 \<or> 65 \<le> n \<and> n \<le> 90 \<or> 97 \<le> n \<and> n \<le> 122) \<or>
     c \<in> set ''-_.~''"

definition url_safe :: "string \<Rightarrow> bool" where
  "url_safe s \<longleftrightarrow> s \<noteq> [] \<and> s \<noteq> ''.'' \<and> s \<noteq> ''..'' \<and> (\<forall>c\<in>set s. unreserved c)"

lemma slash_reserved: "\<not> unreserved (CHR ''/'')"
  by (simp add: unreserved_def)

lemma url_safe_slash: "url_safe s \<Longrightarrow> CHR ''/'' \<notin> set s"
  using slash_reserved by (auto simp: url_safe_def)

lemma url_safe_nonempty [simp]: "url_safe s \<Longrightarrow> s \<noteq> []"
  by (simp add: url_safe_def)

lemma path_segments_simps:
  "url_safe s \<Longrightarrow> split_on (CHR ''/'') s = [s]"
  "url_safe s \<Longrightarrow> split_on (CHR ''/'') (s @ CHR ''/'' # p) = s # split_on (CHR ''/'') p"
  by (simp_all add: url_safe_slash split_on_none split_on_append)

end
