(* ===== verification/Node_Service.thy ===== *)
theory Node_Service
  imports Http_Api Maintenance Quic_Wire
begin

text \<open>
  The node-agent's HTTP service, \<^verbatim>\<open>bins/node-agent\<close>: the handlers of \<^verbatim>\<open>routes.rs\<close>, the repair status
  of \<^verbatim>\<open>state.rs\<close>, the CORS layer of \<^verbatim>\<open>cors.rs\<close>, and from \<^verbatim>\<open>main.rs\<close> the wiring of the use-cases, the
  router and one round of the background repair sweep.  A read of a degraded blob spawns a repair
  that runs later, concurrently with other requests: the service state holds the spawned tasks, and
  a step of the service is a request, one pending task, or a round of the sweep.
\<close>

section \<open>Service state (state.rs)\<close>

record sweep_status =
  sw_enabled :: bool
  sw_interval_secs :: u64
  sw_sweeps :: u64
  sw_last_run_ms :: u64
  sw_last_checked :: u64
  sw_last_repaired :: u64
  sw_last_unrepairable :: u64
  sw_total_repaired :: u64
  sw_reactive_heals :: u64
  sw_reactive_repaired :: u64
  sw_last_reactive_ms :: u64

definition sweep_status_new :: "u64 option \<Rightarrow> sweep_status" where
  "sweep_status_new interval = \<lparr>sw_enabled = interval \<noteq> None,
     sw_interval_secs = (case interval of Some s \<Rightarrow> s | None \<Rightarrow> 0), sw_sweeps = 0, sw_last_run_ms = 0, sw_last_checked = 0,
     sw_last_repaired = 0, sw_last_unrepairable = 0, sw_total_repaired = 0, sw_reactive_heals = 0,
     sw_reactive_repaired = 0, sw_last_reactive_ms = 0\<rparr>"

record 'w list_backups =
  lb_metadata :: "'w metadata_store"
  lb_verifier :: auth_verifier
  lb_clock :: "'w clock"

record 'w node_app =
  na_put :: "'w put_backup"
  na_get :: "'w get_backup"
  na_list :: "'w list_backups"
  na_delete :: "'w delete_backup"
  na_repair :: "'w repair_shards"
  na_prune :: "'w prune_versions"
  na_anchor :: "'w blob_anchor"
  na_clock :: "'w clock"

text \<open>The shared world, the status behind its mutex, and the spawned repairs not yet run.\<close>

record 'w node =
  nd_world :: 'w
  nd_sweep :: sweep_status
  nd_tasks :: "(namespace_id \<times> blob_id) list"

definition on_world :: "('e, 'w, 'a) act \<Rightarrow> ('e, 'w node, 'a) act" where
  "on_world m nd = (case m (nd_world nd) of (r, w) \<Rightarrow> (r, nd\<lparr>nd_world := w\<rparr>))"

section \<open>Handlers (routes.rs)\<close>

text \<open>An error becomes its reply; a panic drops the connection.\<close>

definition fault_reply :: "fault \<Rightarrow> reply option" where
  "fault_reply f = (case f of Fail e \<Rightarrow> Some (err e) | Panic \<Rightarrow> None)"

definition err_reply :: "port_error \<Rightarrow> reply option" where
  "err_reply e = Some (err e)"

definition json_arg :: "(json \<Rightarrow> 'a option) \<Rightarrow> body \<Rightarrow> (reply option, 'w, 'a) act" where
  "json_arg dec b = io_lift (map_sum Some id (extract_json dec b))"

definition health_route :: "body \<Rightarrow> 'w node \<Rightarrow> reply option \<times> 'w node" where
  "health_route b nd = (Some (Response 200 (TextBody ''ok'')), nd)"

text \<open>\<^verbatim>\<open>Path<(String, String, u16)>\<close>: an index that is no \<^verbatim>\<open>u16\<close> is rejected before the handler runs.\<close>

definition shard_path_arg :: "string list \<Rightarrow> (reply option, 'w, shard_ref) act" where
  "shard_path_arg caps = (case caps of
       [ns, blob, index] \<Rightarrow> (case parse_u16 index of
           Some i \<Rightarrow> io_return (shard_ref_new (NamespaceId ns) (BlobId blob) i)
         | None \<Rightarrow> io_throw (Some (Response 400 (TextBody ''Invalid URL: Cannot parse index to a u16''))))
     | _ \<Rightarrow> io_throw (Some (Response 500 NoBody)))"

definition peer_put_shard :: "'w node_app \<Rightarrow> (reply option, 'w node) handler" where
  "peer_put_shard app caps b = respond Some empty_body (
     io_bind (shard_path_arg caps) (\<lambda>at.
     io_map_err err_reply (on_world (ba_put_shard (na_anchor app) at (case b of BytesBody bs \<Rightarrow> bs | _ \<Rightarrow> [])))))"

definition peer_get_shard :: "'w node_app \<Rightarrow> (reply option, 'w node) handler" where
  "peer_get_shard app caps b = respond Some BytesBody (
     io_bind (shard_path_arg caps) (\<lambda>at.
     io_map_err err_reply (on_world (ba_get_shard (na_anchor app) at))))"

definition to_json_repair_report :: "repair_report \<Rightarrow> json" where
  "to_json_repair_report r = JObj [(''blob_id'', JStr (blob_str (rr_blob_id r))), (''checked'', JNum (int (rr_checked r))),
     (''healthy'', JNum (int (rr_healthy r))), (''repaired'', JNum (int (rr_repaired r))),
     (''still_bad'', JNum (int (rr_still_bad r))), (''unrepairable'', JBool (rr_unrepairable r))]"

definition to_json_prune_report :: "prune_report \<Rightarrow> json" where
  "to_json_prune_report r = JObj [(''object_id'', JStr (pr_object_id r)), (''versions'', JNum (int (pr_versions r))),
     (''kept'', JNum (int (pr_kept r))), (''pruned'', JNum (int (pr_pruned r))), (''held'', JNum (int (pr_held r)))]"

definition to_json_sweep_status :: "sweep_status \<Rightarrow> json" where
  "to_json_sweep_status s = JObj [(''enabled'', JBool (sw_enabled s)), (''interval_secs'', to_word (sw_interval_secs s)),
     (''sweeps'', to_word (sw_sweeps s)), (''last_run_ms'', to_word (sw_last_run_ms s)),
     (''last_checked'', to_word (sw_last_checked s)), (''last_repaired'', to_word (sw_last_repaired s)),
     (''last_unrepairable'', to_word (sw_last_unrepairable s)), (''total_repaired'', to_word (sw_total_repaired s)),
     (''reactive_heals'', to_word (sw_reactive_heals s)), (''reactive_repaired'', to_word (sw_reactive_repaired s)),
     (''last_reactive_ms'', to_word (sw_last_reactive_ms s))]"

definition repair_route :: "'w node_app \<Rightarrow> body \<Rightarrow> 'w node \<Rightarrow> reply option \<times> 'w node" where
  "repair_route app b = respond Some (\<lambda>r. JsonBody (to_json_repair_report r)) (
     io_bind (json_arg of_json_repair_request b) (\<lambda>q.
     io_map_err fault_reply (on_world (repair_shards_execute (na_repair app) (rq_namespace q) (rq_blob_id q)))))"

definition sweep_status_route :: "body \<Rightarrow> 'w node \<Rightarrow> reply option \<times> 'w node" where
  "sweep_status_route b nd = (Some (Response 200 (JsonBody (to_json_sweep_status (nd_sweep nd)))), nd)"

definition prune_route :: "'w node_app \<Rightarrow> body \<Rightarrow> 'w node \<Rightarrow> reply option \<times> 'w node" where
  "prune_route app b = respond Some (\<lambda>r. JsonBody (to_json_prune_report r)) (
     io_bind (json_arg of_json_prune_request b) (\<lambda>q.
     io_map_err err_reply (on_world (prune_versions_execute (na_prune app) (prq_namespace q) (prq_object_id q)))))"

definition put_backup_route :: "b64_engine \<Rightarrow> 'w node_app \<Rightarrow> body \<Rightarrow> 'w node \<Rightarrow> reply option \<times> 'w node" where
  "put_backup_route b64 app b = respond Some (\<lambda>r. JsonBody (to_json_put_response r)) (
     io_bind (json_arg of_json_put_request b) (\<lambda>q.
     io_bind (io_lift (map_sum (\<lambda>e. Some (bad_request (''ciphertext base64: '' @ e))) id
       (b64_decode b64 (pq_ciphertext_b64 q)))) (\<lambda>ciphertext.
     io_bind (io_map_err fault_reply (on_world (put_backup_execute (na_put app) (pq_namespace q) (pq_token q) ciphertext))) (\<lambda>blob.
     io_return \<lparr>pp_blob_id = blob\<rparr>))))"

definition spawn_repair :: "namespace_id \<Rightarrow> blob_id \<Rightarrow> 'w node \<Rightarrow> unit \<times> 'w node" where
  "spawn_repair ns blob nd = ((), nd\<lparr>nd_tasks := nd_tasks nd @ [(ns, blob)]\<rparr>)"

definition get_backup_route :: "b64_engine \<Rightarrow> 'w node_app \<Rightarrow> body \<Rightarrow> 'w node \<Rightarrow> reply option \<times> 'w node" where
  "get_backup_route b64 app b = respond Some (\<lambda>r. JsonBody (to_json_restored_blob r)) (
     io_bind (json_arg of_json_get_request b) (\<lambda>q.
     io_bind (io_map_err err_reply (on_world (get_backup_restore (na_get app) (gq_namespace q) (gq_token q) (gq_blob_id q)))) (\<lambda>out.
     io_bind (if 0 < ro_shards_missing out then io_read (spawn_repair (gq_namespace q) (gq_blob_id q))
              else io_return ()) (\<lambda>_.
     io_return \<lparr>rb_blob_id = gq_blob_id q, rb_ciphertext_b64 = b64_encode b64 (ro_ciphertext out)\<rparr>))))"

definition list_backups_route :: "'w node_app \<Rightarrow> body \<Rightarrow> 'w node \<Rightarrow> reply option \<times> 'w node" where
  "list_backups_route app b = respond Some (\<lambda>r. JsonBody (to_json_list_response r)) (
     io_bind (json_arg of_json_list_request b) (\<lambda>q.
     io_bind (io_map_err err_reply (on_world (list_backups_execute (lb_metadata (na_list app)) (lb_verifier (na_list app))
       (lb_clock (na_list app)) (lq_namespace q) (lq_token q)))) (\<lambda>bs.
     io_return \<lparr>lp_blob_ids = bs\<rparr>)))"

definition delete_backup_route :: "'w node_app \<Rightarrow> body \<Rightarrow> 'w node \<Rightarrow> reply option \<times> 'w node" where
  "delete_backup_route app b = respond Some empty_body (
     io_bind (json_arg of_json_delete_request b) (\<lambda>q.
     io_map_err err_reply (on_world (delete_backup_execute (na_delete app) (dq_namespace q) (dq_token q) (dq_blob_id q)))))"

text \<open>The body of the task a degraded read spawns.\<close>

definition reactive_heal :: "'w node_app \<Rightarrow> namespace_id \<Rightarrow> blob_id \<Rightarrow> 'w node \<Rightarrow> nat \<times> 'w node" where
  "reactive_heal app ns blob nd =
     (case repair_shards_execute (na_repair app) ns blob (nd_world nd) of
        (Inr report, w) \<Rightarrow>
          if 0 < rr_repaired report
          then (case ck_now (na_clock app) w of (now, w') \<Rightarrow>
            (rr_repaired report, nd\<lparr>nd_world := w', nd_sweep := (nd_sweep nd)\<lparr>
              sw_reactive_heals := sw_reactive_heals (nd_sweep nd) + 1,
              sw_reactive_repaired := sw_reactive_repaired (nd_sweep nd) + word_of_nat (rr_repaired report),
              sw_total_repaired := sw_total_repaired (nd_sweep nd) + word_of_nat (rr_repaired report),
              sw_last_reactive_ms := as_millis now\<rparr>\<rparr>))
          else (0, nd\<lparr>nd_world := w\<rparr>)
      | (Inl _, w) \<Rightarrow> (0, nd\<lparr>nd_world := w\<rparr>))"

section \<open>The background sweep (main.rs)\<close>

text \<open>Counters are \<^verbatim>\<open>u64\<close>; a repair that fails is logged and skipped, a panic ends the sweeping task.\<close>

fun sweep_blobs ::
  "'w repair_shards \<Rightarrow> namespace_id \<Rightarrow> blob_id list \<Rightarrow> u64 \<times> u64 \<times> u64 \<Rightarrow> (unit, 'w, u64 \<times> u64 \<times> u64) act" where
  "sweep_blobs rs ns [] acc w = (Inr acc, w)"
| "sweep_blobs rs ns (blob # blobs) (checked, repaired, unrepairable) w =
     (case repair_shards_execute rs ns blob w of
        (Inr r, w') \<Rightarrow> sweep_blobs rs ns blobs (checked + 1, repaired + word_of_nat (rr_repaired r),
          if rr_unrepairable r then unrepairable + 1 else unrepairable) w'
      | (Inl (Fail e), w') \<Rightarrow> sweep_blobs rs ns blobs (checked + 1, repaired, unrepairable) w'
      | (Inl Panic, w') \<Rightarrow> (Inl (), w'))"

fun sweep_namespaces ::
  "'w metadata_store \<Rightarrow> 'w repair_shards \<Rightarrow> namespace_id list \<Rightarrow> u64 \<times> u64 \<times> u64 \<Rightarrow> (unit, 'w, u64 \<times> u64 \<times> u64) act" where
  "sweep_namespaces ms rs [] acc w = (Inr acc, w)"
| "sweep_namespaces ms rs (ns # nss) acc w =
     (case ms_list_blobs ms ns w of (found, w1) \<Rightarrow>
      case sweep_blobs rs ns (case found of Inr bs \<Rightarrow> bs | Inl _ \<Rightarrow> []) acc w1 of
        (Inr acc', w2) \<Rightarrow> sweep_namespaces ms rs nss acc' w2
      | (Inl u, w2) \<Rightarrow> (Inl u, w2))"

text \<open>One round; \<open>False\<close> when it panicked and the loop is over.\<close>

definition sweep_round :: "'w metadata_store \<Rightarrow> 'w node_app \<Rightarrow> 'w node \<Rightarrow> bool \<times> 'w node" where
  "sweep_round ms app nd =
     (case ms_list_namespaces ms (nd_world nd) of
        (Inl _, w1) \<Rightarrow> (True, nd\<lparr>nd_world := w1\<rparr>)
      | (Inr nss, w1) \<Rightarrow>
          (case sweep_namespaces ms (na_repair app) nss (0, 0, 0) w1 of
             (Inl _, w2) \<Rightarrow> (False, nd\<lparr>nd_world := w2\<rparr>)
           | (Inr (checked, repaired, unrepairable), w2) \<Rightarrow>
               (case ck_now (na_clock app) w2 of (now, w3) \<Rightarrow>
                (True, nd\<lparr>nd_world := w3, nd_sweep := (nd_sweep nd)\<lparr>sw_sweeps := sw_sweeps (nd_sweep nd) + 1,
                  sw_last_run_ms := as_millis now, sw_last_checked := checked, sw_last_repaired := repaired,
                  sw_last_unrepairable := unrepairable,
                  sw_total_repaired := sw_total_repaired (nd_sweep nd) + repaired\<rparr>\<rparr>))))"

section \<open>Router, CORS and wiring (main.rs, cors.rs)\<close>

definition node_routes :: "b64_engine \<Rightarrow> 'w node_app \<Rightarrow> (reply option, 'w node) routes" where
  "node_routes b64 app =
     [([Lit ''health''], [(GET, \<lambda>_. health_route)]),
      ([Lit ''v1'', Lit ''backups''], [(POST, \<lambda>_. put_backup_route b64 app)]),
      ([Lit ''v1'', Lit ''backups'', Lit ''get''], [(POST, \<lambda>_. get_backup_route b64 app)]),
      ([Lit ''v1'', Lit ''backups'', Lit ''list''], [(POST, \<lambda>_. list_backups_route app)]),
      ([Lit ''v1'', Lit ''backups'', Lit ''delete''], [(POST, \<lambda>_. delete_backup_route app)]),
      ([Lit ''v1'', Lit ''peer'', Lit ''shards'', Cap, Cap, Cap], [(PUT, peer_put_shard app), (GET, peer_get_shard app)]),
      ([Lit ''v1'', Lit ''maintenance'', Lit ''repair''], [(POST, \<lambda>_. repair_route app)]),
      ([Lit ''v1'', Lit ''maintenance'', Lit ''prune''], [(POST, \<lambda>_. prune_route app)]),
      ([Lit ''v1'', Lit ''maintenance'', Lit ''status''], [(GET, \<lambda>_. sweep_status_route)])]"

definition cors_headers :: "(string \<times> string) list" where
  "cors_headers = [(''access-control-allow-origin'', ''*''), (''access-control-allow-methods'', ''GET,POST,PUT,OPTIONS''),
     (''access-control-allow-headers'', ''content-type,authorization'')]"

definition permissive ::
  "(request \<Rightarrow> 'w \<Rightarrow> reply option \<times> 'w) \<Rightarrow> request \<Rightarrow> 'w \<Rightarrow> (reply \<times> (string \<times> string) list) option \<times> 'w" where
  "permissive next_run q w =
     (case (if hr_verb q = OPTIONS then (Some (Response 204 NoBody), w) else next_run q w) of
        (r, w') \<Rightarrow> (map_option (\<lambda>r. (r, cors_headers)) r, w'))"

definition node_router ::
  "b64_engine \<Rightarrow> 'w node_app \<Rightarrow> request \<Rightarrow> 'w node \<Rightarrow> (reply \<times> (string \<times> string) list) option \<times> 'w node" where
  "node_router b64 app = permissive (\<lambda>q.
     dispatch Some (node_routes b64 app) (hr_verb q) (path_segments (hr_path q)) (hr_body q))"

definition node_placement :: "string list \<Rightarrow> placement_policy" where
  "node_placement peers = \<lparr>pp_locality_hint = None, pp_prefer_peers = peers \<noteq> []\<rparr>"

definition node_app_new ::
  "'w metadata_store \<Rightarrow> 'w blob_anchor \<Rightarrow> erasure_coder \<Rightarrow> 'w cryptographer \<Rightarrow> auth_verifier \<Rightarrow> 'w id_source \<Rightarrow> 'w clock
   \<Rightarrow> 'w shard_transport \<Rightarrow> string list \<Rightarrow> 'w node_app" where
  "node_app_new ms ba ec cr v ids ck tr peers =
     \<lparr>na_put = put_with_mesh (put_backup_new ms ba ec cr v ids ck) tr peers (node_placement peers),
      na_get = get_with_mesh (get_backup_new ms ba ec cr v ck) tr,
      na_list = \<lparr>lb_metadata = ms, lb_verifier = v, lb_clock = ck\<rparr>,
      na_delete = \<lparr>db_metadata = ms, db_anchor = ba, db_verifier = v, db_clock = ck\<rparr>,
      na_repair = repair_with_mesh (repair_shards_new ms ba ec cr) tr,
      na_prune = \<lparr>pv_metadata = ms, pv_anchor = ba, pv_clock = ck\<rparr>,
      na_anchor = ba, na_clock = ck\<rparr>"

section \<open>The service as a state machine\<close>

text \<open>
  A request, any one of the pending repairs (the runtime chooses which), or a round of the sweep.
  An event records what the repair counters should see of it.
\<close>

datatype node_event = Served | Healed nat | Swept "u64 option"

inductive node_step :: "b64_engine \<Rightarrow> 'w metadata_store \<Rightarrow> 'w node_app \<Rightarrow> 'w node \<Rightarrow> node_event \<Rightarrow> 'w node \<Rightarrow> bool"
  for b64 ms app where
  Serve: "node_router b64 app q nd = (r, nd') \<Longrightarrow> node_step b64 ms app nd Served nd'"
| Task: "nd_tasks nd = before @ (ns, blob) # rest \<Longrightarrow>
    reactive_heal app ns blob (nd\<lparr>nd_tasks := before @ rest\<rparr>) = (n, nd') \<Longrightarrow> node_step b64 ms app nd (Healed n) nd'"
| Sweep: "sweep_round ms app nd = (alive, nd') \<Longrightarrow>
    node_step b64 ms app nd (Swept (if nd_sweep nd' = nd_sweep nd then None else Some (sw_last_repaired (nd_sweep nd')))) nd'"

inductive node_run :: "b64_engine \<Rightarrow> 'w metadata_store \<Rightarrow> 'w node_app \<Rightarrow> 'w node \<Rightarrow> node_event list \<Rightarrow> 'w node \<Rightarrow> bool"
  for b64 ms app where
  Start: "node_run b64 ms app nd [] nd"
| Step: "node_run b64 ms app nd evs nd1 \<Longrightarrow> node_step b64 ms app nd1 ev nd2 \<Longrightarrow> node_run b64 ms app nd (evs @ [ev]) nd2"

text \<open>What the events add up to.\<close>

definition healed :: "node_event \<Rightarrow> nat" where
  "healed ev = (case ev of Healed n \<Rightarrow> n | _ \<Rightarrow> 0)"

definition swept :: "node_event \<Rightarrow> u64" where
  "swept ev = (case ev of Swept (Some r) \<Rightarrow> r | _ \<Rightarrow> 0)"

definition is_heal :: "node_event \<Rightarrow> bool" where
  "is_heal ev \<longleftrightarrow> (case ev of Healed n \<Rightarrow> 0 < n | _ \<Rightarrow> False)"

definition is_sweep :: "node_event \<Rightarrow> bool" where
  "is_sweep ev \<longleftrightarrow> (case ev of Swept (Some _) \<Rightarrow> True | _ \<Rightarrow> False)"

lemma on_world_keeps: "keeps nd_sweep (on_world m)"
  by (simp add: keeps_def on_world_def split_beta)

lemma respond_keeps: "keeps v m \<Longrightarrow> keeps v (respond lift f m)"
  by (auto simp: keeps_def respond_def split: prod.splits sum.splits) (metis snd_conv)+

lemma dispatch_keeps:
  "\<forall>(pat, hs)\<in>set rs. \<forall>(v, h)\<in>set hs. \<forall>caps b. keeps x (h caps b) \<Longrightarrow> keeps x (dispatch lift rs verb segs b)"
proof (induction rs)
  case (Cons r rs)
  obtain pat hs where r: "r = (pat, hs)" by force
  have "keeps x (h caps b)" if "map_of hs verb = Some h" for h caps
    using that Cons.prems r by (fastforce dest: map_of_SomeD)
  with Cons r show ?case by (auto simp: keeps_def split: option.split)
qed (simp add: keeps_def)

lemma handlers_keep_sweep:
  "keeps nd_sweep (health_route b)" "keeps nd_sweep (sweep_status_route b)" "keeps nd_sweep (peer_put_shard app caps b)"
  "keeps nd_sweep (peer_get_shard app caps b)" "keeps nd_sweep (repair_route app b)" "keeps nd_sweep (prune_route app b)"
  "keeps nd_sweep (put_backup_route b64 app b)" "keeps nd_sweep (get_backup_route b64 app b)"
  "keeps nd_sweep (list_backups_route app b)" "keeps nd_sweep (delete_backup_route app b)"
proof -
  have args: "keeps nd_sweep (json_arg dec b)" "keeps nd_sweep (shard_path_arg caps)"
      "keeps nd_sweep (spawn_repair ns blob)" for dec :: "json \<Rightarrow> 'x option" and b caps ns blob
    by (auto simp: keeps_def json_arg_def shard_path_arg_def spawn_repair_def io_lift_def io_return_def io_throw_def
        split: list.splits option.splits)
  note rules = respond_keeps frame_rules on_world_keeps args
  show "keeps nd_sweep (peer_put_shard app caps b)" "keeps nd_sweep (peer_get_shard app caps b)"
    "keeps nd_sweep (repair_route app b)" "keeps nd_sweep (prune_route app b)" "keeps nd_sweep (put_backup_route b64 app b)"
    "keeps nd_sweep (list_backups_route app b)" "keeps nd_sweep (delete_backup_route app b)"
    unfolding peer_put_shard_def peer_get_shard_def repair_route_def prune_route_def put_backup_route_def
      list_backups_route_def delete_backup_route_def by (intro rules)+
  show "keeps nd_sweep (get_backup_route b64 app b)"
    unfolding get_backup_route_def by (intro rules)
qed (simp_all add: keeps_def health_route_def sweep_status_route_def)

lemma node_router_sweep: "nd_sweep (snd (node_router b64 app q nd)) = nd_sweep nd"
proof -
  have "keeps nd_sweep (dispatch Some (node_routes b64 app) v segs b)" for v segs b
    by (rule dispatch_keeps) (auto simp: node_routes_def handlers_keep_sweep)
  then show ?thesis
    by (auto simp: node_router_def permissive_def keeps_def split_beta)
qed

text \<open>One step moves each counter by what its event says.\<close>

lemma node_step_counters:
  assumes "node_step b64 ms app nd ev nd'"
  shows "sw_reactive_heals (nd_sweep nd') = sw_reactive_heals (nd_sweep nd) + (if is_heal ev then 1 else 0) \<and>
    sw_reactive_repaired (nd_sweep nd') = sw_reactive_repaired (nd_sweep nd) + word_of_nat (healed ev) \<and>
    sw_total_repaired (nd_sweep nd') = sw_total_repaired (nd_sweep nd) + word_of_nat (healed ev) + swept ev \<and>
    sw_sweeps (nd_sweep nd') = sw_sweeps (nd_sweep nd) + (if is_sweep ev then 1 else 0)"
  using assms
proof cases
  case (Serve q r)
  then have "nd_sweep nd' = nd_sweep nd" using node_router_sweep [of b64 app q nd] by simp
  with Serve show ?thesis by (simp add: healed_def swept_def is_heal_def is_sweep_def)
next
  case (Task before ns blob rest n)
  then show ?thesis
    by (auto simp: reactive_heal_def healed_def swept_def is_heal_def is_sweep_def split: prod.splits sum.splits if_splits)
next
  case (Sweep alive)
  have "(nd_sweep nd)\<lparr>sw_sweeps := sw_sweeps (nd_sweep nd) + 1, sw_last_run_ms := a, sw_last_checked := b,
      sw_last_repaired := c, sw_last_unrepairable := d, sw_total_repaired := e\<rparr> \<noteq> nd_sweep nd" for a b c d e
    by (metis (no_types, lifting) add_cancel_left_right sweep_status.select_convs(3) sweep_status.surjective
        sweep_status.update_convs(3-8) zero_neq_one)
  with Sweep show ?thesis
    by (auto simp: sweep_round_def healed_def swept_def is_heal_def is_sweep_def split: prod.splits sum.splits)
qed


end
