(* ===== verification/Node_Runs.thy ===== *)
theory Node_Runs
  imports Deployment Node_Service
begin

text \<open>
  The node service over the concrete wiring: a repair and a whole sweep in a calm environment, where
  metadata calls are delivered and the disk takes reads and writes.
\<close>

section \<open>Repair in a calm environment\<close>

lemma calm_repair:
  assumes wired: "wired_repair root roots c rs" and calm: "calm root w" and plain: "plain_id (ns_str ns)" "plain_id (blob_str b)"
    and m: "mv_manifests (node_mview w) (ns, b) = Some m" and sup: "rs_supported c (mf_erasure m)"
    and rec: "records (reed_solomon_coder c) (cr_sha256_hex (rsh_crypto rs)) d shs m"
    and hash: "no_second_preimage (cr_sha256_hex (rsh_crypto rs)) shs" and len: "length d < 2 ^ 64"
    and k: "unat (ep_k (mf_erasure m)) \<le>
      card {i. i < length shs \<and> node_aview root w (shard_ref_new ns b (word_of_nat i)) = Some (shs ! i)}"
  shows "\<exists>rep w'. repair_shards_execute rs ns b w = (Inr rep, w') \<and> \<not> rr_unrepairable rep \<and> calm root w' \<and>
    node_mview w' = node_mview w \<and>
    (\<forall>q. sr_namespace q \<noteq> ns \<or> sr_blob_id q \<noteq> b \<longrightarrow> node_aview root w' q = node_aview root w q) \<and>
    (\<forall>j<length shs. node_aview root w' (shard_ref_new ns b (word_of_nat j)) = Some (shs ! j))"
proof -
  let ?w1 = "w\<lparr>w_called := Suc (w_called w)\<rparr>"
  have gm: "ms_get_manifest node_meta ns b w = (Inr (Some m), ?w1)"
    using m by (simp add: node_meta_sel on_meta_calm [OF calm] mem_get_manifest_def mem_view_def)
  obtain rep w' where run: "repair_shards_execute rs ns b w = (Inr rep, w')" "\<not> rr_unrepairable rep" "calm root w'"
    using node.repair_heals [OF wiredD(5) [OF wired] plain gm sup rec hash len k, where good = "calm root"]
      calm_get calm_put calm_re_replicate [OF wiredD(5) [OF wired]] calm by fastforce
  then show ?thesis
    using node.repair_run [OF wiredD(5) [OF wired] plain m sup rec hash len run(1)] by (auto simp: repair_post_def)
qed

section \<open>A sweep over all blobs\<close>

text \<open>The metadata records \<open>d\<close>, cut into \<open>shs\<close>, under this blob; and the shards the anchor holds unchanged.\<close>

definition recorded_as :: "rs_crate \<Rightarrow> (bytes \<Rightarrow> string) \<Rightarrow> world \<Rightarrow> namespace_id \<Rightarrow> blob_id \<Rightarrow> bytes \<Rightarrow> bytes list \<Rightarrow> nat \<Rightarrow> bool" where
  "recorded_as c hash w ns b d shs k \<longleftrightarrow> plain_id (ns_str ns) \<and> plain_id (blob_str b) \<and> length d < 2 ^ 64 \<and>
     no_second_preimage hash shs \<and>
     (\<exists>m. mv_manifests (node_mview w) (ns, b) = Some m \<and> rs_supported c (mf_erasure m) \<and>
        records (reed_solomon_coder c) hash d shs m \<and> k = unat (ep_k (mf_erasure m)))"

definition sound_shards :: "path \<Rightarrow> world \<Rightarrow> namespace_id \<Rightarrow> blob_id \<Rightarrow> bytes list \<Rightarrow> nat set" where
  "sound_shards root w ns b shs =
     {i. i < length shs \<and> node_aview root w (shard_ref_new ns b (word_of_nat i)) = Some (shs ! i)}"

text \<open>What one repair in a calm environment does to every blob.\<close>

lemma repair_step:
  assumes "wired_repair root roots c rs" and "calm root w"
    and "recorded_as c (cr_sha256_hex (rsh_crypto rs)) w ns b d shs k" and "k \<le> card (sound_shards root w ns b shs)"
  obtains rep w' where "repair_shards_execute rs ns b w = (Inr rep, w')" and "calm root w'"
    and "node_mview w' = node_mview w" and "sound_shards root w' ns b shs = {..<length shs}"
    and "\<forall>ns' b' shs'. (ns', b') \<noteq> (ns, b) \<longrightarrow> sound_shards root w' ns' b' shs' = sound_shards root w ns' b' shs'"
proof -
  obtain m where m: "plain_id (ns_str ns)" "plain_id (blob_str b)" "length d < 2 ^ 64"
      "no_second_preimage (cr_sha256_hex (rsh_crypto rs)) shs"
      "mv_manifests (node_mview w) (ns, b) = Some m" "rs_supported c (mf_erasure m)"
      "records (reed_solomon_coder c) (cr_sha256_hex (rsh_crypto rs)) d shs m" "k = unat (ep_k (mf_erasure m))"
    using assms(3) by (auto simp: recorded_as_def)
  from calm_repair [OF assms(1,2) m(1,2,5-7,4,3)] assms(4) m(8)
  obtain rep w' where "repair_shards_execute rs ns b w = (Inr rep, w')" "calm root w'" "node_mview w' = node_mview w"
      "\<forall>q. sr_namespace q \<noteq> ns \<or> sr_blob_id q \<noteq> b \<longrightarrow> node_aview root w' q = node_aview root w q"
      "\<forall>j<length shs. node_aview root w' (shard_ref_new ns b (word_of_nat j)) = Some (shs ! j)"
    by (auto simp: sound_shards_def)
  then show thesis by (intro that [of rep w']) (auto simp: sound_shards_def shard_ref_new_def)
qed

lemma recorded_cong: "node_mview w' = node_mview w \<Longrightarrow> recorded_as c hash w' = recorded_as c hash w"
  by (simp add: recorded_as_def fun_eq_iff)

text \<open>A blob with at least \<open>k\<close> sound shards, and one with all of them.\<close>

definition healable :: "path \<Rightarrow> rs_crate \<Rightarrow> (bytes \<Rightarrow> string) \<Rightarrow> world \<Rightarrow> namespace_id \<Rightarrow> blob_id \<Rightarrow> bool" where
  "healable root c hash w ns b \<longleftrightarrow> (\<exists>d shs k. recorded_as c hash w ns b d shs k \<and> k \<le> card (sound_shards root w ns b shs))"

definition whole :: "path \<Rightarrow> rs_crate \<Rightarrow> (bytes \<Rightarrow> string) \<Rightarrow> world \<Rightarrow> namespace_id \<Rightarrow> blob_id \<Rightarrow> bool" where
  "whole root c hash w ns b \<longleftrightarrow> (\<exists>d shs k. recorded_as c hash w ns b d shs k \<and> k \<le> length shs \<and>
     sound_shards root w ns b shs = {..<length shs})"

lemma whole_healable: "whole root c hash w ns b \<Longrightarrow> healable root c hash w ns b"
  by (force simp: whole_def healable_def)

text \<open>A calm step that keeps metadata, healable blobs and whole blobs.\<close>

definition improves :: "path \<Rightarrow> rs_crate \<Rightarrow> (bytes \<Rightarrow> string) \<Rightarrow> world \<Rightarrow> world \<Rightarrow> bool" where
  "improves root c hash w w' \<longleftrightarrow> calm root w' \<and> node_mview w' = node_mview w \<and>
     (\<forall>ns b. healable root c hash w ns b \<longrightarrow> healable root c hash w' ns b) \<and>
     (\<forall>ns b. whole root c hash w ns b \<longrightarrow> whole root c hash w' ns b)"

lemma improves_trans: "improves root c hash w w1 \<Longrightarrow> improves root c hash w1 w2 \<Longrightarrow> improves root c hash w w2"
  by (simp add: improves_def)

lemma repair_improves:
  assumes "wired_repair root roots c rs" and "calm root w" and "healable root c (cr_sha256_hex (rsh_crypto rs)) w ns b"
  shows "\<exists>rep w'. repair_shards_execute rs ns b w = (Inr rep, w') \<and>
    improves root c (cr_sha256_hex (rsh_crypto rs)) w w' \<and> whole root c (cr_sha256_hex (rsh_crypto rs)) w' ns b"
proof -
  let ?h = "cr_sha256_hex (rsh_crypto rs)"
  obtain d shs k where r: "recorded_as c ?h w ns b d shs k" "k \<le> card (sound_shards root w ns b shs)"
    using assms(3) by (auto simp: healable_def)
  have "card (sound_shards root w ns b shs) \<le> card {..<length shs}"
    by (rule card_mono) (auto simp: sound_shards_def)
  then have kn: "k \<le> length shs" using r(2) by simp
  obtain rep w' where p: "repair_shards_execute rs ns b w = (Inr rep, w')" "calm root w'" "node_mview w' = node_mview w"
      "sound_shards root w' ns b shs = {..<length shs}"
      "\<forall>ns' b' shs'. (ns', b') \<noteq> (ns, b) \<longrightarrow> sound_shards root w' ns' b' shs' = sound_shards root w ns' b' shs'"
    by (rule repair_step [OF assms(1,2) r])
  have here: "whole root c ?h w' ns b"
    unfolding whole_def recorded_cong [OF p(3)] using r(1) kn p(4) by blast
  have "healable root c ?h w' ns' b' \<and> (whole root c ?h w ns' b' \<longrightarrow> whole root c ?h w' ns' b')"
    if "healable root c ?h w ns' b'" for ns' b'
  proof (cases "(ns', b') = (ns, b)")
    case True
    then show ?thesis using here whole_healable by simp
  next
    case False
    then have "sound_shards root w' ns' b' = sound_shards root w ns' b'" using p(5) by (simp add: fun_eq_iff)
    then show ?thesis using that by (simp add: healable_def whole_def recorded_cong [OF p(3)])
  qed
  then have "improves root c ?h w w'" using p(2,3) whole_healable by (auto simp: improves_def)
  then show ?thesis using p(1) here by blast
qed

lemma sweep_blobs_heals:
  assumes "wired_repair root roots c rs" and "calm root w"
    and "\<forall>b\<in>set bs. healable root c (cr_sha256_hex (rsh_crypto rs)) w ns b"
  shows "\<exists>acc' w'. sweep_blobs rs ns bs acc w = (Inr acc', w') \<and> improves root c (cr_sha256_hex (rsh_crypto rs)) w w' \<and>
    (\<forall>b\<in>set bs. whole root c (cr_sha256_hex (rsh_crypto rs)) w' ns b)"
  using assms(2,3)
proof (induction bs arbitrary: acc w)
  case Nil
  then show ?case by (cases acc) (simp add: improves_def)
next
  case (Cons b bs)
  let ?h = "cr_sha256_hex (rsh_crypto rs)"
  obtain rep w1 where r: "repair_shards_execute rs ns b w = (Inr rep, w1)" "improves root c ?h w w1" "whole root c ?h w1 ns b"
    using repair_improves [OF assms(1) Cons.prems(1)] Cons.prems(2) by fastforce
  obtain x y z where acc: "acc = (x, y, z)" using prod_cases3 by blast
  have "calm root w1" "\<forall>b\<in>set bs. healable root c ?h w1 ns b"
    using r(2) Cons.prems by (auto simp: improves_def)
  from Cons.IH [OF this] obtain acc' w2 where s: "sweep_blobs rs ns bs (x + 1, y + word_of_nat (rr_repaired rep),
      if rr_unrepairable rep then z + 1 else z) w1 = (Inr acc', w2)" "improves root c ?h w1 w2" "\<forall>b\<in>set bs. whole root c ?h w2 ns b"
    by blast
  then show ?case using r acc improves_trans [OF r(2) s(2)] by (cases acc') (auto simp: improves_def)
qed

lemma sweep_namespaces_heals:
  assumes "wired_repair root roots c rs" and "calm root w"
    and "\<forall>ns b. mv_manifests (node_mview w) (ns, b) \<noteq> None \<longrightarrow> healable root c (cr_sha256_hex (rsh_crypto rs)) w ns b"
  shows "\<exists>acc' w'. sweep_namespaces node_meta rs nss acc w = (Inr acc', w') \<and>
    improves root c (cr_sha256_hex (rsh_crypto rs)) w w' \<and>
    (\<forall>ns\<in>set nss. \<forall>b. mv_manifests (node_mview w) (ns, b) \<noteq> None \<longrightarrow> whole root c (cr_sha256_hex (rsh_crypto rs)) w' ns b)"
  using assms(2,3)
proof (induction nss arbitrary: acc w)
  case Nil
  then show ?case by (cases acc) (simp add: improves_def)
next
  case (Cons ns nss)
  let ?h = "cr_sha256_hex (rsh_crypto rs)"
  let ?w0 = "w\<lparr>w_called := Suc (w_called w)\<rparr>"
  obtain bs where l: "ms_list_blobs node_meta ns w = (Inr bs, ?w0)"
    by (simp add: node_meta_sel on_meta_calm [OF Cons.prems(1)] mem_list_blobs_def)
  have bs: "set bs = blobs_of (node_mview w) ns" using nodem.list_blobs [OF l] by simp
  have same: "improves root c ?h w ?w0"
    using Cons.prems(1) by (simp add: improves_def healable_def whole_def recorded_as_def sound_shards_def)
  then have "\<forall>b\<in>set bs. healable root c ?h ?w0 ns b"
    using Cons.prems(2) bs by (auto simp: improves_def blobs_of_def)
  then obtain acc1 w1 where s: "sweep_blobs rs ns bs acc ?w0 = (Inr acc1, w1)" "improves root c ?h ?w0 w1"
      "\<forall>b\<in>set bs. whole root c ?h w1 ns b"
    using sweep_blobs_heals [OF assms(1), of ?w0 bs ns acc] same by (auto simp: improves_def)
  note i1 = improves_trans [OF same s(2)]
  have "calm root w1" "\<forall>ns b. mv_manifests (node_mview w1) (ns, b) \<noteq> None \<longrightarrow> healable root c ?h w1 ns b"
    using i1 Cons.prems(2) by (auto simp: improves_def)
  from Cons.IH [OF this, of acc1] obtain acc2 w2 where t: "sweep_namespaces node_meta rs nss acc1 w1 = (Inr acc2, w2)"
      "improves root c ?h w1 w2" "\<forall>ns\<in>set nss. \<forall>b. mv_manifests (node_mview w1) (ns, b) \<noteq> None \<longrightarrow> whole root c ?h w2 ns b"
    by blast
  have "\<forall>b. mv_manifests (node_mview w) (ns, b) \<noteq> None \<longrightarrow> whole root c ?h w2 ns b"
    using s(3) bs t(2) by (auto simp: improves_def blobs_of_def)
  then show ?case using l s(1) t improves_trans [OF i1 t(2)] i1 by (cases acc2) (auto simp: improves_def)
qed

end
