(* ===== verification/Vault_Guarantees.thy ===== *)
theory Vault_Guarantees
  imports Node_Runs
begin

text \<open>
  What the use-cases guarantee over the wiring of \<open>Deployment\<close>: durability and integrity of stored
  blobs, admission and progress of puts, deletion and retention, listing, capabilities, repair,
  pruning, usage statements and peer replicas.  Each property is instantiated on the small
  deployment at the end of \<open>Deployment\<close>.
\<close>

section \<open>Backups survive: put, then get\<close>

lemma stored_manifest:
  assumes wired: "wired_put root roots c pb" and ns: "plain_id (ns_str ns)"
    and ct: "mv_contracts (node_mview w) (cc_app_id (ct_claims tok)) = Some ct" "rs_supported c (ac_erasure ct)"
    and enc: "rs_coder_encode c d (ac_erasure ct) = Inr shs"
    and put: "put_backup_execute pb ns tok d w = (Inr b, w1)"
  obtains m where "mv_manifests (node_mview w1) (ns, b) = Some m" and "mf_erasure m = ac_erasure ct"
    and "records (reed_solomon_coder c) (cr_sha256_hex (pb_crypto pb)) d shs m" and "plain_id (blob_str b)"
    and "node_aview root w1 = store_shards ns b 0 shs (node_aview root w)" and "length shs \<le> 2 ^ 16"
    and "node_mview w1 = add_manifest m (node_mview w)"
proof -
  have encode: "ec_encode (reed_solomon_coder c) d (ac_erasure ct) = Inr shs"
    using enc by (simp add: reed_solomon_coder_def)
  have n16: "length shs \<le> 2 ^ 16" using rs.encode_bound [OF ct(2) encode] by simp
  obtain c' shs' m where "av_verify_signature (pb_verifier pb) tok = Inr ()" "cc_namespace (ct_claims tok) = ns"
      "cc_operation (ct_claims tok) = OpPut" "fst (ck_now system_clock w) < cc_expires_at (ct_claims tok)"
      "\<exists>n. mv_namespaces (node_mview w) ns = Some n \<and> nsp_app_id n = cc_app_id (ct_claims tok)"
      and p: "mv_contracts (node_mview w) (cc_app_id (ct_claims tok)) = Some c'"
      and "admits (ac_quota c') (nu_bytes (usage_of (node_mview w) ns)) (nu_objects (usage_of (node_mview w) ns))
        (word_of_nat (length d))"
      and q: "ec_encode (pb_erasure pb) d (ac_erasure c') = Inr shs'" "mf_blob_id m = b" "mf_namespace m = ns"
      "mf_erasure m = ac_erasure c'" "mf_ciphertext_len m = word_of_nat (length d)"
      "node_mview w1 = add_manifest m (node_mview w)" "plain_id (blob_str b)"
      "length shs' \<le> 2 ^ 16 \<longrightarrow> node_aview root w1 = store_shards ns b 0 shs' (node_aview root w) \<and>
        describes (cr_sha256_hex (pb_crypto pb)) 0 shs' (mf_shards m)"
    by (rule node.put_ok [OF wiredD(1) [OF wired] ns put])
  have same: "c' = ct" "shs' = shs" using p q(1) ct encode wiredD(2) [OF wired] by simp_all
  show thesis
    using q same n16 encode by (intro that [of m]) (simp_all add: records_def add_manifest_def)
qed

text \<open>The shards of a blob that the node's anchor still serves unchanged.\<close>

definition intact_shards :: "path \<Rightarrow> world \<Rightarrow> namespace_id \<Rightarrow> blob_id \<Rightarrow> bytes list \<Rightarrow> nat set" where
  "intact_shards root w ns b shs = {j. j < length shs \<and> node_readable root w (shard_ref_new ns b (word_of_nat j)) \<and>
     node_aview root w (shard_ref_new ns b (word_of_nat j)) = Some (shs ! j)}"

lemma intact_count:
  assumes "describes hash 0 shs metas"
  shows "card (intact_shards root w ns b shs) \<le>
    length (filter (intact (node_readable root w) (node_aview root w) hash ns b) metas)"
proof -
  have "intact_shards root w ns b shs \<subseteq>
      {j. j < length metas \<and> intact (node_readable root w) (node_aview root w) hash ns b (metas ! j)}"
    using describes_length [OF assms] describes_nth [OF assms]
    by (auto simp: intact_shards_def intact_def)
  then show ?thesis
    unfolding length_filter_conv_card by (intro card_mono) auto
qed

lemma restore_from_manifest:
  assumes "wired_get root roots c gb" and "plain_id (ns_str ns)" and "plain_id (blob_str b)"
    and "mv_manifests (node_mview w) (ns, b) = Some m" and "rs_supported c (mf_erasure m)"
    and "records (reed_solomon_coder c) (cr_sha256_hex (gb_crypto gb)) d shs m"
    and "no_second_preimage (cr_sha256_hex (gb_crypto gb)) shs" and "length d < 2 ^ 64"
    and "unat (ep_k (mf_erasure m)) \<le> card (intact_shards root w ns b shs)"
    and "guard_authorize (gb_verifier gb) node_meta system_clock ns tok OpGet w = (Inr app, w1)"
    and "w_calls w1 (w_called w1) = Delivered"
  shows "\<exists>out w'. get_backup_restore gb ns tok b w = (Inr out, w') \<and> ro_ciphertext out = d"
proof -
  have v: "node_mview w1 = node_mview w" "node_aview root w1 = node_aview root w"
      "node_readable root w1 = node_readable root w"
    using node.view_steps(1) [OF assms(10)]
      keepsD [OF guard_keeps_view [OF node.readable_keeps(4,2)] assms(10)] by simp_all
  let ?w2 = "w1\<lparr>w_called := Suc (w_called w1)\<rparr>"
  have gm: "ms_get_manifest node_meta ns b w1 = (Inr (Some m), ?w2)"
    using assms(4,11) v(1) by (simp add: node_meta_sel on_meta_def mem_get_manifest_def store_simps)
  have "intact_shards root ?w2 ns b shs = intact_shards root w ns b shs"
    using v(2,3) by (simp add: intact_shards_def fun_eq_iff)
  then have "unat (ep_k (mf_erasure m)) \<le> length (filter (intact (node_readable root ?w2) (node_aview root ?w2)
      (cr_sha256_hex (gb_crypto gb)) ns b) (mf_shards m))"
    using intact_count [of "cr_sha256_hex (gb_crypto gb)" shs "mf_shards m" root ?w2 ns b] assms(6,9)
    by (simp add: records_def)
  then show ?thesis
    using node.restore_available [OF wiredD(3,4) [OF assms(1)] assms(2,3,10) gm assms(5-8)] by simp
qed

lemma put_then_restore:
  assumes "wired_put root roots c pb" and "wired_get root roots c gb" and "gb_crypto gb = pb_crypto pb"
    and "plain_id (ns_str ns)"
    and "mv_contracts (node_mview w) (cc_app_id (ct_claims tok)) = Some ct" and "rs_supported c (ac_erasure ct)"
    and "rs_coder_encode c d (ac_erasure ct) = Inr shs"
    and "no_second_preimage (cr_sha256_hex (pb_crypto pb)) shs" and "length d < 2 ^ 64"
    and "put_backup_execute pb ns tok d w = (Inr b, w1)"
    and "mv_manifests (node_mview w2) (ns, b) = mv_manifests (node_mview w1) (ns, b)"
    and "unat (ep_k (ac_erasure ct)) \<le> card (intact_shards root w2 ns b shs)"
    and "guard_authorize (gb_verifier gb) node_meta system_clock ns tok2 OpGet w2 = (Inr app, w3)"
    and "w_calls w3 (w_called w3) = Delivered"
  shows "\<exists>out w'. get_backup_restore gb ns tok2 b w2 = (Inr out, w') \<and> ro_ciphertext out = d"
proof -
  obtain m where m: "mv_manifests (node_mview w1) (ns, b) = Some m" "mf_erasure m = ac_erasure ct"
      "records (reed_solomon_coder c) (cr_sha256_hex (pb_crypto pb)) d shs m" "plain_id (blob_str b)"
    by (rule stored_manifest [OF assms(1,4-7,10)])
  show ?thesis
    by (rule restore_from_manifest [OF assms(2,4) m(4) _ _ _ _ assms(9) _ assms(13,14), where m = m and shs = shs])
      (use m assms in simp_all)
qed

text \<open>
  C1. Durability.  A blob that was put can be restored byte for byte at any later time at which
  its manifest is still recorded and any \<open>k\<close> of its \<open>n\<close> shards are intact on the anchor: the
  restore succeeds and returns the bytes that were put, whatever happened to the other shards and
  whatever the peers answer.
\<close>

theorem put_then_get:
  assumes "wired_put root roots c pb" and "wired_get root roots c gb" and "gb_crypto gb = pb_crypto pb"
    and "plain_id (ns_str ns)"
    and "mv_contracts (node_mview w) (cc_app_id (ct_claims tok)) = Some ct" and "rs_supported c (ac_erasure ct)"
    and "rs_coder_encode c d (ac_erasure ct) = Inr shs"
    and "no_second_preimage (cr_sha256_hex (pb_crypto pb)) shs" and "length d < 2 ^ 64"
    and "put_backup_execute pb ns tok d w = (Inr b, w1)"
    and "mv_manifests (node_mview w2) (ns, b) = mv_manifests (node_mview w1) (ns, b)"
    and "unat (ep_k (ac_erasure ct)) \<le> card (intact_shards root w2 ns b shs)"
    and "guard_authorize (gb_verifier gb) node_meta system_clock ns tok2 OpGet w2 = (Inr app, w3)"
    and "w_calls w3 (w_called w3) = Delivered"
  shows "\<exists>out w'. get_backup_restore gb ns tok2 b w2 = (Inr out, w') \<and> ro_ciphertext out = d"
  using assms by (rule put_then_restore)

lemma put_keeps_env:
  assumes "put_uses node_meta (node_anchor root) random_id_source system_clock (node_transport roots) pb"
  shows "keeps node_env (put_backup_execute pb ns tok d)"
proof -
  have us: "pb_metadata pb = node_meta" "pb_anchor pb = node_anchor root" "pb_ids pb = random_id_source"
      "pb_clock pb = system_clock" "\<forall>t. me_transport (pb_mesh pb) = Some t \<longrightarrow> t = node_transport roots"
    using assms by (simp_all add: put_uses_def)
  have rep: "keeps node_env (put_replicate pb at bs)" for at bs
    by (rule put_replicate_keeps [OF node_keeps_env(9) us(5)])
  have "keeps node_env (put_shards pb ns b i shs)" for b i shs
    by (induction shs arbitrary: i) (auto simp: Let_def us intro!: frame_rules node_keeps_env rep)
  then show ?thesis
    unfolding put_backup_execute_def Let_def us
    by (intro frame_rules node_guard_keeps_env node_keeps_env)
qed

lemma demo_put_env:
  "put_backup_execute demo_put demo_ns tok d w = (r, w1) \<Longrightarrow> w_clock w1 = w_clock w"
  using keepsD [OF put_keeps_env [OF wiredD(1) [OF demo_wired(1)]]] by (simp add: node_env_def)

lemma demo_admits:
  assumes "length d \<le> 1000"
  shows "admits (ac_quota demo_contract) (nu_bytes (usage_of (node_mview (demo_world 5 [])) demo_ns))
     (nu_objects (usage_of (node_mview (demo_world 5 [])) demo_ns)) (word_of_nat (length d))"
proof -
  have "usage_of (node_mview (demo_world 5 [])) demo_ns = \<lparr>nu_bytes = 0, nu_objects = 0\<rparr>"
    by (simp add: usage_of_def blobs_of_def demo_world_def mem_view_def DAList.lookup_empty dom_def)
  moreover have "unat (word_of_nat (length d) :: u64) = length d" using assms by (simp add: unat_of_nat_small)
  ultimately show ?thesis
    using assms by (simp add: admits_def demo_contract_def app_contract_new_def saturating_add_def word_le_nat_alt)
qed

lemma demo_put_runs:
  assumes "length d \<le> 1000"
  shows "\<exists>b w1. put_backup_execute demo_put demo_ns (demo_token OpPut) d (demo_world 5 []) = (Inr b, w1) \<and> calm [] w1"
proof (rule node_put_runs [OF wiredD(1,2) [OF demo_wired(1)] demo_world_views(1), where ct = demo_contract
      and n = "\<lparr>nsp_id = demo_ns, nsp_app_id = AppId ''a''\<rparr>"])
  show "plain_id (ns_str demo_ns)" by (simp add: plain_id_def demo_ns_def)
  show "av_verify_signature (pb_verifier demo_put) (demo_token OpPut) = Inr ()"
    by (simp add: demo_put_def put_with_mesh_def put_backup_new_def open_verifier_def)
  show "Timestamp (w_clock (demo_world 5 []) (w_ticks (demo_world 5 []))) < cc_expires_at (ct_claims (demo_token OpPut))"
    by (simp add: demo_world_views demo_token_def less_timestamp_def)
qed (simp_all add: demo_admits [OF assms] demo_token_def demo_world_views demo_supported)

lemma demo_ns_plain: "plain_id (ns_str demo_ns)"
  by (simp add: plain_id_def demo_ns_def)

lemma demo_crypto_sel: "gb_crypto demo_get = demo_crypto" "pb_crypto demo_put = demo_crypto"
  by (simp_all add: demo_get_def demo_put_def get_with_mesh_def get_backup_new_def put_with_mesh_def put_backup_new_def)

text \<open>The small deployment after a put of \<open>d\<close>, and everything a restore there relies on.\<close>

lemma demo_stored_any:
  assumes "length d \<le> 1000"
  obtains b w1 m shs where "put_backup_execute demo_put demo_ns (demo_token OpPut) d (demo_world 5 []) = (Inr b, w1)"
    and "rs_coder_encode xor_crate d (ac_erasure demo_contract) = Inr shs"
    and "mv_manifests (node_mview w1) (demo_ns, b) = Some m" and "mf_erasure m = ac_erasure demo_contract"
    and "records (reed_solomon_coder xor_crate) (cr_sha256_hex demo_crypto) d shs m"
    and "unat (ep_k (ac_erasure demo_contract)) \<le> card (intact_shards [] w1 demo_ns b shs)"
    and "guard_authorize (gb_verifier demo_get) node_meta system_clock demo_ns (demo_token OpGet) OpGet w1 =
      (Inr (AppId ''a''), w1\<lparr>w_ticks := Suc (w_ticks w1), w_called := Suc (w_called w1)\<rparr>)"
    and "calm [] w1" and "plain_id (blob_str b)"
proof -
  let ?w = "demo_world 5 []"
  obtain b w1 where put: "put_backup_execute demo_put demo_ns (demo_token OpPut) d ?w = (Inr b, w1)"
    and calm: "calm [] w1"
    using demo_put_runs [OF assms] by blast
  obtain shs where enc: "ec_encode (reed_solomon_coder xor_crate) d (ac_erasure demo_contract) = Inr shs"
    using rs.encode_ok [OF demo_supported] by blast
  then have encode: "rs_coder_encode xor_crate d (ac_erasure demo_contract) = Inr shs" by (simp add: reed_solomon_coder_def)
  have ct: "mv_contracts (node_mview ?w) (cc_app_id (ct_claims (demo_token OpPut))) = Some demo_contract"
    by (simp add: demo_world_views demo_token_def)
  obtain m where st: "mv_manifests (node_mview w1) (demo_ns, b) = Some m" "mf_erasure m = ac_erasure demo_contract"
      "records (reed_solomon_coder xor_crate) (cr_sha256_hex (pb_crypto demo_put)) d shs m" "plain_id (blob_str b)"
      "node_aview [] w1 = store_shards demo_ns b 0 shs (node_aview [] ?w)" "length shs \<le> 2 ^ 16"
      "node_mview w1 = add_manifest m (node_mview ?w)"
    by (rule stored_manifest [OF demo_wired(1) demo_ns_plain ct demo_supported encode put])
  have "intact_shards [] w1 demo_ns b shs = {..<length shs}"
    using calm store_shards_at [OF _ st(6), of _ demo_ns b "node_aview [] ?w"]
    unfolding intact_shards_def st(5) calm_def shard_disk_def by auto
  then have k: "unat (ep_k (ac_erasure demo_contract)) \<le> card (intact_shards [] w1 demo_ns b shs)"
    using rs.encode_count [OF demo_supported enc] by (simp add: demo_contract_def app_contract_new_def)
  have "w_clock w1 = w_clock ?w" using demo_put_env put by blast
  then have "guard_authorize open_verifier node_meta system_clock demo_ns (demo_token OpGet) OpGet w1 =
      (Inr (AppId ''a''), w1\<lparr>w_ticks := Suc (w_ticks w1), w_called := Suc (w_called w1)\<rparr>)"
    using node_guard_accepts [OF calm, of open_verifier "demo_token OpGet" demo_ns OpGet "\<lparr>nsp_id = demo_ns, nsp_app_id = AppId ''a''\<rparr>"]
    by (simp add: open_verifier_def demo_token_def demo_world_views less_timestamp_def st(7) add_manifest_def)
  then have "guard_authorize (gb_verifier demo_get) node_meta system_clock demo_ns (demo_token OpGet) OpGet w1 =
      (Inr (AppId ''a''), w1\<lparr>w_ticks := Suc (w_ticks w1), w_called := Suc (w_called w1)\<rparr>)"
    by (simp add: demo_get_def get_with_mesh_def get_backup_new_def)
  then show thesis using that [OF put encode] st k calm by (simp add: demo_crypto_sel)
qed

lemma demo_encode: "rs_coder_encode xor_crate [1, 2, 3] (ac_erasure demo_contract) = Inr [[1, 2], [3, 0], [2, 2]]"
  by code_simp

lemma demo_stored:
  obtains b w1 m where "put_backup_execute demo_put demo_ns (demo_token OpPut) [1, 2, 3] (demo_world 5 []) = (Inr b, w1)"
    and "mv_manifests (node_mview w1) (demo_ns, b) = Some m" and "mf_erasure m = ac_erasure demo_contract"
    and "records (reed_solomon_coder xor_crate) (cr_sha256_hex demo_crypto) [1, 2, 3] [[1, 2], [3, 0], [2, 2]] m"
    and "unat (ep_k (ac_erasure demo_contract)) \<le> card (intact_shards [] w1 demo_ns b [[1, 2], [3, 0], [2, 2]])"
    and "guard_authorize (gb_verifier demo_get) node_meta system_clock demo_ns (demo_token OpGet) OpGet w1 =
      (Inr (AppId ''a''), w1\<lparr>w_ticks := Suc (w_ticks w1), w_called := Suc (w_called w1)\<rparr>)"
    and "calm [] w1" and "plain_id (blob_str b)"
  by (rule demo_stored_any [of "[1, 2, 3]"]) (use that demo_encode in auto)

theorem put_then_get_witness:
  "\<exists>b w1 out w'. put_backup_execute demo_put demo_ns (demo_token OpPut) [1, 2, 3] (demo_world 5 []) = (Inr b, w1) \<and>
     get_backup_restore demo_get demo_ns (demo_token OpGet) b w1 = (Inr out, w') \<and> ro_ciphertext out = [1, 2, 3]"
proof -
  obtain b w1 m where put: "put_backup_execute demo_put demo_ns (demo_token OpPut) [1, 2, 3] (demo_world 5 []) = (Inr b, w1)"
    and "mv_manifests (node_mview w1) (demo_ns, b) = Some m" "mf_erasure m = ac_erasure demo_contract"
    "records (reed_solomon_coder xor_crate) (cr_sha256_hex demo_crypto) [1, 2, 3] [[1, 2], [3, 0], [2, 2]] m"
    and k: "unat (ep_k (ac_erasure demo_contract)) \<le> card (intact_shards [] w1 demo_ns b [[1, 2], [3, 0], [2, 2]])"
    and guard: "guard_authorize (gb_verifier demo_get) node_meta system_clock demo_ns (demo_token OpGet) OpGet w1 =
      (Inr (AppId ''a''), w1\<lparr>w_ticks := Suc (w_ticks w1), w_called := Suc (w_called w1)\<rparr>)"
    and calm: "calm [] w1" and "plain_id (blob_str b)"
    by (rule demo_stored)
  have crypto: "gb_crypto demo_get = pb_crypto demo_put" by (simp add: demo_crypto_sel)
  have hash: "no_second_preimage (cr_sha256_hex (pb_crypto demo_put)) [[1, 2], [3, 0], [2, 2]]"
    using demo_no_second_preimage by (simp add: demo_crypto_sel)
  have ct: "mv_contracts (node_mview (demo_world 5 [])) (cc_app_id (ct_claims (demo_token OpPut))) = Some demo_contract"
    by (simp add: demo_world_views demo_token_def)
  have fate: "w_calls (w1\<lparr>w_ticks := Suc (w_ticks w1), w_called := Suc (w_called w1)\<rparr>) n = Delivered" for n
    using calm by (simp add: calm_def)
  have "\<exists>out w'. get_backup_restore demo_get demo_ns (demo_token OpGet) b w1 = (Inr out, w') \<and> ro_ciphertext out = [1, 2, 3]"
    by (rule put_then_get [OF demo_wired(1,2) crypto demo_ns_plain ct demo_supported demo_encode hash _ put _ k guard fate]) simp_all
  with put show ?thesis by blast
qed

lemma demo_restore:
  "\<exists>b w1 m out w'. mv_manifests (node_mview w1) (demo_ns, b) = Some m \<and> mf_erasure m = ac_erasure demo_contract \<and>
     records (reed_solomon_coder xor_crate) (cr_sha256_hex demo_crypto) [1, 2, 3] [[1, 2], [3, 0], [2, 2]] m \<and>
     get_backup_restore demo_get demo_ns (demo_token OpGet) b w1 = (Inr out, w')"
proof -
  obtain b w1 m where "put_backup_execute demo_put demo_ns (demo_token OpPut) [1, 2, 3] (demo_world 5 []) = (Inr b, w1)"
    and m: "mv_manifests (node_mview w1) (demo_ns, b) = Some m" "mf_erasure m = ac_erasure demo_contract"
    "records (reed_solomon_coder xor_crate) (cr_sha256_hex demo_crypto) [1, 2, 3] [[1, 2], [3, 0], [2, 2]] m"
    and k: "unat (ep_k (ac_erasure demo_contract)) \<le> card (intact_shards [] w1 demo_ns b [[1, 2], [3, 0], [2, 2]])"
    and guard: "guard_authorize (gb_verifier demo_get) node_meta system_clock demo_ns (demo_token OpGet) OpGet w1 =
      (Inr (AppId ''a''), w1\<lparr>w_ticks := Suc (w_ticks w1), w_called := Suc (w_called w1)\<rparr>)"
    and calm: "calm [] w1" and b: "plain_id (blob_str b)"
    by (rule demo_stored)
  have "\<exists>out w'. get_backup_restore demo_get demo_ns (demo_token OpGet) b w1 = (Inr out, w') \<and> ro_ciphertext out = [1, 2, 3]"
    by (rule restore_from_manifest [OF demo_wired(2) demo_ns_plain b m(1) _ _ _ _ _ guard, of "[1, 2, 3]" "[[1, 2], [3, 0], [2, 2]]"])
      (use m k calm demo_supported demo_no_second_preimage in \<open>simp_all add: demo_crypto_sel calm_def\<close>)
  with m show ?thesis by blast
qed

text \<open>
  C5. Integrity.  A restore never returns wrong bytes: whatever the anchor and the peers answer,
  if the manifest records the shards of \<open>d\<close> and no other string has one of their hashes, then a
  restore that succeeds returns exactly \<open>d\<close>.
\<close>

theorem restore_never_wrong:
  assumes "wired_get root roots c gb" and "mv_manifests (node_mview w) (ns, b) = Some m"
    and "rs_supported c (mf_erasure m)"
    and "records (reed_solomon_coder c) (cr_sha256_hex (gb_crypto gb)) d shs m"
    and "no_second_preimage (cr_sha256_hex (gb_crypto gb)) shs" and "length d < 2 ^ 64"
    and "get_backup_restore gb ns tok b w = (Inr out, w')"
  shows "ro_ciphertext out = d"
  using node.restore_correct [OF wiredD(3,4) [OF assms(1)] assms(2-7)] .

theorem restore_never_wrong_witness:
  "\<exists>b w1 m out w'. mv_manifests (node_mview w1) (demo_ns, b) = Some m \<and>
     records (reed_solomon_coder xor_crate) (cr_sha256_hex demo_crypto) [1, 2, 3] [[1, 2], [3, 0], [2, 2]] m \<and>
     get_backup_restore demo_get demo_ns (demo_token OpGet) b w1 = (Inr out, w') \<and> ro_ciphertext out = [1, 2, 3]"
proof -
  obtain b w1 m out w' where r: "mv_manifests (node_mview w1) (demo_ns, b) = Some m"
      "mf_erasure m = ac_erasure demo_contract"
      "records (reed_solomon_coder xor_crate) (cr_sha256_hex demo_crypto) [1, 2, 3] [[1, 2], [3, 0], [2, 2]] m"
      "get_backup_restore demo_get demo_ns (demo_token OpGet) b w1 = (Inr out, w')"
    using demo_restore by blast
  have "ro_ciphertext out = [1, 2, 3]"
    using restore_never_wrong [OF demo_wired(2) r(1) _ _ _ _ r(4), of "[1, 2, 3]" "[[1, 2], [3, 0], [2, 2]]"]
      r(2,3) demo_supported demo_no_second_preimage by (simp add: demo_crypto_sel)
  with r show ?thesis by blast
qed

section \<open>Putting a blob\<close>



text \<open>
  C20. Progress.  In a calm environment (metadata calls delivered, a disk that takes writes) every
  put with a valid token, an owned namespace and room in the quota succeeds, for all supported
  erasure parameters, all payloads and whatever the peers do.
\<close>

theorem put_succeeds:
  assumes "wired_put root roots c pb" and "calm root w" and "plain_id (ns_str ns)"
    and "av_verify_signature (pb_verifier pb) tok = Inr ()" and "cc_namespace (ct_claims tok) = ns"
    and "cc_operation (ct_claims tok) = OpPut" and "Timestamp (w_clock w (w_ticks w)) < cc_expires_at (ct_claims tok)"
    and "mv_namespaces (node_mview w) ns = Some n" and "nsp_app_id n = cc_app_id (ct_claims tok)"
    and "mv_contracts (node_mview w) (cc_app_id (ct_claims tok)) = Some ct" and "rs_supported c (ac_erasure ct)"
    and "admits (ac_quota ct) (nu_bytes (usage_of (node_mview w) ns)) (nu_objects (usage_of (node_mview w) ns))
      (word_of_nat (length d))"
  shows "\<exists>b w'. put_backup_execute pb ns tok d w = (Inr b, w') \<and> calm root w'"
  using assms(2-) by (rule node_put_runs [OF wiredD(1,2) [OF assms(1)]])

theorem put_succeeds_witness:
  "\<exists>b w1. put_backup_execute demo_put demo_ns (demo_token OpPut) [1, 2, 3] (demo_world 5 []) = (Inr b, w1)"
proof -
  have "av_verify_signature (pb_verifier demo_put) (demo_token OpPut) = Inr ()"
    by (simp add: demo_put_def put_with_mesh_def put_backup_new_def open_verifier_def)
  moreover have "Timestamp (w_clock (demo_world 5 []) (w_ticks (demo_world 5 []))) < cc_expires_at (ct_claims (demo_token OpPut))"
    by (simp add: demo_world_views demo_token_def less_timestamp_def)
  ultimately show ?thesis
    using put_succeeds [OF demo_wired(1) demo_world_views(1), of demo_ns "demo_token OpPut" 5 "[]"
        "\<lparr>nsp_id = demo_ns, nsp_app_id = AppId ''a''\<rparr>" demo_contract "[1, 2, 3]"] demo_admits [of "[1, 2, 3]"]
    by (auto simp: demo_world_views demo_token_def demo_supported demo_ns_plain)
qed

text \<open>
  C21. A failed put does no harm: no shard of any other blob changes, and the metadata is as
  before unless the coordinator recorded the new manifest and only its reply was lost.
\<close>

theorem put_error_harmless:
  assumes "wired_put root roots c pb" and "plain_id (ns_str ns)"
    and "put_backup_execute pb ns tok d w = (Inl e, w')"
  shows "\<exists>b. (\<forall>q. sr_namespace q \<noteq> ns \<or> sr_blob_id q \<noteq> b \<longrightarrow> node_aview root w' q = node_aview root w q) \<and>
    (node_mview w' = node_mview w \<or>
     (\<exists>m i e1. mf_namespace m = ns \<and> mf_blob_id m = b \<and> node_mview w' = add_manifest m (node_mview w) \<and>
        w_calls w' i = ReplyLost e1))"
proof -
  obtain b where frame: "\<forall>q. sr_namespace q \<noteq> ns \<or> sr_blob_id q \<noteq> b \<longrightarrow> node_aview root w' q = node_aview root w q"
    and meta: "node_mview w' = node_mview w \<or> (\<exists>m. mf_namespace m = ns \<and> mf_blob_id m = b \<and>
       node_mview w' = add_manifest m (node_mview w) \<and>
       (\<exists>w1 e. node_mview w1 = node_mview w \<and> ms_put_manifest node_meta m w1 = (Inl e, w')))"
    using node.put_error_frame [OF wiredD(1) [OF assms(1)] assms(2,3)] by blast
  have lost: "node_mview w' = node_mview w1 \<or> (\<exists>i e1. w_calls w' i = ReplyLost e1)"
    if "ms_put_manifest node_meta m w1 = (Inl e, w')" for m w1 e
    using that by (auto simp: node_meta_sel on_meta_def Let_def mem_put_manifest_def split: call_fate.splits)
  show ?thesis using frame meta lost by metis
qed

theorem put_error_harmless_witness:
  "\<exists>e w'. put_backup_execute demo_put demo_ns (demo_token OpGet) [1, 2, 3] (demo_world 5 []) = (Inl e, w') \<and>
     (\<exists>b. (\<forall>q. sr_namespace q \<noteq> demo_ns \<or> sr_blob_id q \<noteq> b \<longrightarrow>
        node_aview [] w' q = node_aview [] (demo_world 5 []) q) \<and>
      (node_mview w' = node_mview (demo_world 5 []) \<or>
       (\<exists>m i e1. mf_namespace m = demo_ns \<and> mf_blob_id m = b \<and>
          node_mview w' = add_manifest m (node_mview (demo_world 5 [])) \<and> w_calls w' i = ReplyLost e1)))"
proof -
  obtain r w' where run: "put_backup_execute demo_put demo_ns (demo_token OpGet) [1, 2, 3] (demo_world 5 []) = (r, w')"
    by force
  have "\<exists>e. r = Inl e"
  proof (rule ccontr)
    assume "\<nexists>e. r = Inl e"
    with run obtain b where "put_backup_execute demo_put demo_ns (demo_token OpGet) [1, 2, 3] (demo_world 5 []) = (Inr b, w')"
      by (cases r) auto
    then show False by (rule node.put_ok [OF wiredD(1) [OF demo_wired(1)] demo_ns_plain]) (simp add: demo_token_def)
  qed
  with run put_error_harmless [OF demo_wired(1) demo_ns_plain] show ?thesis by blast
qed

section \<open>Deleting and listing\<close>

lemma node_get_env: "keeps node_env (ms_get_contract node_meta a)" "keeps node_env (ms_get_manifest node_meta ns b)"
  by (simp_all add: node_meta_sel on_meta_keeps_env)

text \<open>While the hold lasts at every later reading of the clock, a delete fails and changes nothing.\<close>

lemma delete_while_held:
  assumes "mv_contracts (node_mview w) (cc_app_id (ct_claims tok)) = Some ct" and "0 < rp_min_days (ac_retention ct)"
    and "mv_manifests (node_mview w) (ns, b) = Some m"
    and "\<forall>t. \<not> hold_elapsed (ac_retention ct) (mf_created_at m) (Timestamp (w_clock w t))"
    and "delete_backup_execute (node_delete root v) ns tok b w = (r, w')"
  shows "(\<exists>e. r = Inl e) \<and> node_mview w' = node_mview w \<and> node_aview root w' = node_aview root w"
  by (rule node.delete_held [OF wiredD(6) assms(1-3), where env = node_env])
    (use assms(4,5) in \<open>auto simp: node_get_env node_guard_keeps_env node_env_def system_clock_eq\<close>)

text \<open>
  C15. Deletion.  A delete that succeeds was authorized, the retention hold of the contract had
  elapsed at a reading of the clock (or there is none), and it removed the manifest and all shards
  of this blob and nothing else.
\<close>

theorem delete_exact:
  assumes "plain_id (ns_str ns)" and "plain_id (blob_str b)"
    and "delete_backup_execute (node_delete root v) ns tok b w = (Inr (), w')"
  shows "av_verify_signature v tok = Inr () \<and> cc_namespace (ct_claims tok) = ns \<and>
    cc_operation (ct_claims tok) = OpDelete \<and> Timestamp (w_clock w (w_ticks w)) < cc_expires_at (ct_claims tok) \<and>
    (\<exists>n. mv_namespaces (node_mview w) ns = Some n \<and> nsp_app_id n = cc_app_id (ct_claims tok)) \<and>
    (\<exists>ct. mv_contracts (node_mview w) (cc_app_id (ct_claims tok)) = Some ct \<and>
       (rp_min_days (ac_retention ct) = 0 \<or> (\<exists>m t. mv_manifests (node_mview w) (ns, b) = Some m \<and>
          hold_elapsed (ac_retention ct) (mf_created_at m) (Timestamp (w_clock w t))))) \<and>
    node_mview w' = drop_manifest ns b (node_mview w) \<and> node_aview root w' = drop_blob ns b (node_aview root w)"
proof -
  obtain ct where p: "av_verify_signature (db_verifier (node_delete root v)) tok = Inr ()" "cc_namespace (ct_claims tok) = ns"
      "cc_operation (ct_claims tok) = OpDelete" "fst (ck_now system_clock w) < cc_expires_at (ct_claims tok)"
      "\<exists>n. mv_namespaces (node_mview w) ns = Some n \<and> nsp_app_id n = cc_app_id (ct_claims tok)"
    and ct: "mv_contracts (node_mview w) (cc_app_id (ct_claims tok)) = Some ct"
    and hold: "rp_min_days (ac_retention ct) = 0 \<or> (\<exists>m w1. mv_manifests (node_mview w) (ns, b) = Some m \<and>
      hold_elapsed (ac_retention ct) (mf_created_at m) (fst (ck_now system_clock w1)))"
    and v: "node_mview w' = drop_manifest ns b (node_mview w)" "node_aview root w' = drop_blob ns b (node_aview root w)"
    by (rule node.delete_ok [OF wiredD(6) assms])
  have "\<exists>m t. mv_manifests (node_mview w) (ns, b) = Some m \<and>
      hold_elapsed (ac_retention ct) (mf_created_at m) (Timestamp (w_clock w t))" if "rp_min_days (ac_retention ct) \<noteq> 0"
  proof -
    from hold that obtain m where m: "mv_manifests (node_mview w) (ns, b) = Some m" by blast
    moreover have "\<not> (\<forall>t. \<not> hold_elapsed (ac_retention ct) (mf_created_at m) (Timestamp (w_clock w t)))"
      using delete_while_held [OF ct _ m _ assms(3)] that by (auto simp: word_gt_0)
    ultimately show ?thesis by blast
  qed
  with p ct v show ?thesis by (auto simp: system_clock_eq node_delete_def)
qed

lemma demo_delete_runs:
  "fst (delete_backup_execute (node_delete [] open_verifier) demo_ns (demo_token OpDelete) (BlobId ''b'')
     (demo_world (86400000 + 5) [demo_manifest ''b'' 5])) = Inr ()"
  by code_simp

theorem delete_exact_witness:
  "\<exists>w'. delete_backup_execute (node_delete [] open_verifier) demo_ns (demo_token OpDelete) (BlobId ''b'')
       (demo_world (86400000 + 5) [demo_manifest ''b'' 5]) = (Inr (), w') \<and>
     node_mview w' = drop_manifest demo_ns (BlobId ''b'') (node_mview (demo_world (86400000 + 5) [demo_manifest ''b'' 5]))"
proof -
  obtain r w' where run: "delete_backup_execute (node_delete [] open_verifier) demo_ns (demo_token OpDelete) (BlobId ''b'')
       (demo_world (86400000 + 5) [demo_manifest ''b'' 5]) = (r, w')" by force
  moreover have "r = Inr ()" using demo_delete_runs run by simp
  moreover have "plain_id (blob_str (BlobId ''b''))" by (simp add: plain_id_def)
  ultimately show ?thesis using delete_exact [OF demo_ns_plain, of "BlobId ''b''" "[]" open_verifier] by blast
qed

text \<open>
  C16. Retention.  As long as every clock reading from now on is within the contract's hold, a
  delete fails, whatever token it carries, and neither metadata nor shards change.
\<close>

theorem delete_refused_while_held:
  assumes "mv_contracts (node_mview w) (cc_app_id (ct_claims tok)) = Some ct" and "0 < rp_min_days (ac_retention ct)"
    and "mv_manifests (node_mview w) (ns, b) = Some m"
    and "\<forall>t. unat (w_clock w t) < unat (as_millis (mf_created_at m)) + unat (rp_min_days (ac_retention ct)) * 86400000"
    and "delete_backup_execute (node_delete root v) ns tok b w = (r, w')"
  shows "(\<exists>e. r = Inl e) \<and> node_mview w' = node_mview w \<and> node_aview root w' = node_aview root w"
proof (rule delete_while_held [OF assms(1-3) _ assms(5)])
  show "\<forall>t. \<not> hold_elapsed (ac_retention ct) (mf_created_at m) (Timestamp (w_clock w t))"
    using assms(2,4) by (auto simp: hold_elapsed_nat word_gt_0 not_le)
qed

lemma demo_manifest_listed:
  "mv_manifests (node_mview (demo_world t [demo_manifest b u])) (demo_ns, BlobId b) = Some (demo_manifest b u)"
  by (simp add: demo_world_def mem_view_def demo_manifest_def manifest_new_def)

theorem delete_refused_while_held_witness:
  "\<exists>e w'. delete_backup_execute (node_delete [] open_verifier) demo_ns (demo_token OpDelete) (BlobId ''b'')
       (demo_world 6 [demo_manifest ''b'' 5]) = (Inl e, w') \<and>
     node_mview w' = node_mview (demo_world 6 [demo_manifest ''b'' 5])"
proof -
  let ?w = "demo_world 6 [demo_manifest ''b'' 5]"
  obtain r w' where run: "delete_backup_execute (node_delete [] open_verifier) demo_ns (demo_token OpDelete) (BlobId ''b'') ?w = (r, w')"
    by force
  have ct: "mv_contracts (node_mview ?w) (cc_app_id (ct_claims (demo_token OpDelete))) = Some demo_contract"
    by (simp add: demo_world_views demo_token_def)
  have "(\<exists>e. r = Inl e) \<and> node_mview w' = node_mview ?w \<and> node_aview [] w' = node_aview [] ?w"
    by (rule delete_refused_while_held [OF ct _ demo_manifest_listed _ run])
      (simp_all add: demo_contract_def app_contract_new_def demo_world_views demo_manifest_def manifest_new_def)
  with run show ?thesis by blast
qed

text \<open>
  C28. Listing.  A list that succeeds was authorized for this namespace and returns every blob the
  namespace has a manifest for, each once and no other, and changes nothing.
\<close>

theorem list_authorized_exact:
  assumes "list_backups_execute node_meta v system_clock ns tok w = (Inr bs, w')"
  shows "av_verify_signature v tok = Inr () \<and> cc_namespace (ct_claims tok) = ns \<and>
    cc_operation (ct_claims tok) = OpList \<and> Timestamp (w_clock w (w_ticks w)) < cc_expires_at (ct_claims tok) \<and>
    (\<exists>n. mv_namespaces (node_mview w) ns = Some n \<and> nsp_app_id n = cc_app_id (ct_claims tok)) \<and>
    set bs = blobs_of (node_mview w) ns \<and> distinct bs \<and> node_mview w' = node_mview w \<and>
    node_aview root w' = node_aview root w"
  using node.list_exact [OF assms] by (simp add: system_clock_eq)

theorem list_authorized_exact_witness:
  "\<exists>bs w'. list_backups_execute node_meta open_verifier system_clock demo_ns (demo_token OpList)
       (demo_world 6 [demo_manifest ''b'' 5]) = (Inr bs, w') \<and> set bs = {BlobId ''b''}"
proof -
  have "fst (list_backups_execute node_meta open_verifier system_clock demo_ns (demo_token OpList)
      (demo_world 6 [demo_manifest ''b'' 5])) = Inr [BlobId ''b'']"
    by code_simp
  then obtain w' where run: "list_backups_execute node_meta open_verifier system_clock demo_ns (demo_token OpList)
      (demo_world 6 [demo_manifest ''b'' 5]) = (Inr [BlobId ''b''], w')"
    by (metis prod.collapse)
  with list_authorized_exact [OF run] show ?thesis by simp
qed

section \<open>Capabilities\<close>



section \<open>Self-healing\<close>

text \<open>
  C19. Repair is safe.  Whatever the anchor, the peers and the coordinator answer, a repair of a
  recorded blob never panics, never changes metadata or the shards of another blob, and its report
  is true: either the blob is unrepairable, nothing was written and some shards are still bad, or
  every one of the \<open>n\<close> shards on the anchor is the original one.
\<close>

theorem repair_report_true:
  assumes "wired_repair root roots c rs" and "plain_id (ns_str ns)" and "plain_id (blob_str b)"
    and "mv_manifests (node_mview w) (ns, b) = Some m" and "rs_supported c (mf_erasure m)"
    and "records (reed_solomon_coder c) (cr_sha256_hex (rsh_crypto rs)) d shs m"
    and "no_second_preimage (cr_sha256_hex (rsh_crypto rs)) shs" and "length d < 2 ^ 64"
    and "repair_shards_execute rs ns b w = (r, w')"
  shows "node_mview w' = node_mview w \<and> r \<noteq> Inl Panic \<and>
    (\<forall>q. sr_namespace q \<noteq> ns \<or> sr_blob_id q \<noteq> b \<longrightarrow> node_aview root w' q = node_aview root w q) \<and>
    (\<forall>rep. r = Inr rep \<longrightarrow> rr_blob_id rep = b \<and> rr_checked rep = length shs \<and>
       (if rr_unrepairable rep
        then node_aview root w' = node_aview root w \<and> rr_repaired rep = 0 \<and> 0 < rr_still_bad rep \<and>
          rr_healthy rep + rr_still_bad rep = length shs
        else (\<forall>j<length shs. node_aview root w' (shard_ref_new ns b (word_of_nat j)) = Some (shs ! j)) \<and>
          rr_still_bad rep = 0 \<and> rr_healthy rep = length shs \<and> rr_repaired rep \<le> length shs))"
  using node.repair_run [OF wiredD(5) [OF assms(1)] assms(2-9)] by (simp add: repair_post_def)

text \<open>The small deployment after a put, as a repair sees it.\<close>

lemma demo_repairable:
  obtains b w1 m where "mv_manifests (node_mview w1) (demo_ns, b) = Some m" and "mf_erasure m = ac_erasure demo_contract"
    and "records (reed_solomon_coder xor_crate) (cr_sha256_hex (rsh_crypto demo_repair)) [1, 2, 3] [[1, 2], [3, 0], [2, 2]] m"
    and "no_second_preimage (cr_sha256_hex (rsh_crypto demo_repair)) [[1, 2], [3, 0], [2, 2]]"
    and "calm [] w1" and "plain_id (blob_str b)"
    and "unat (ep_k (ac_erasure demo_contract)) \<le> card {i. i < length [[1, 2], [3, 0], [2, 2 :: byte]] \<and>
      node_aview [] w1 (shard_ref_new demo_ns b (word_of_nat i)) = Some ([[1, 2], [3, 0], [2, 2]] ! i)}"
proof -
  let ?shs = "[[1, 2], [3, 0], [2, 2]] :: bytes list"
  obtain b w1 m where "put_backup_execute demo_put demo_ns (demo_token OpPut) [1, 2, 3] (demo_world 5 []) = (Inr b, w1)"
    and m: "mv_manifests (node_mview w1) (demo_ns, b) = Some m" "mf_erasure m = ac_erasure demo_contract"
    "records (reed_solomon_coder xor_crate) (cr_sha256_hex demo_crypto) [1, 2, 3] ?shs m"
    and k: "unat (ep_k (ac_erasure demo_contract)) \<le> card (intact_shards [] w1 demo_ns b ?shs)"
    and "guard_authorize (gb_verifier demo_get) node_meta system_clock demo_ns (demo_token OpGet) OpGet w1 =
      (Inr (AppId ''a''), w1\<lparr>w_ticks := Suc (w_ticks w1), w_called := Suc (w_called w1)\<rparr>)"
    and calm: "calm [] w1" and b: "plain_id (blob_str b)"
    by (rule demo_stored)
  have crypto: "rsh_crypto demo_repair = demo_crypto"
    by (simp add: demo_repair_def repair_with_mesh_def repair_shards_new_def)
  have "card (intact_shards [] w1 demo_ns b ?shs) \<le>
      card {i. i < length ?shs \<and> node_aview [] w1 (shard_ref_new demo_ns b (word_of_nat i)) = Some (?shs ! i)}"
    by (rule card_mono) (auto simp: intact_shards_def)
  with k that [OF m(1,2) _ _ calm b] m(3) crypto demo_no_second_preimage show thesis by auto
qed

theorem repair_report_true_witness:
  "\<exists>b w1 r w'. repair_shards_execute demo_repair demo_ns b w1 = (r, w') \<and> node_mview w' = node_mview w1 \<and> r \<noteq> Inl Panic"
proof -
  obtain b w1 m where m: "mv_manifests (node_mview w1) (demo_ns, b) = Some m" "mf_erasure m = ac_erasure demo_contract"
      "records (reed_solomon_coder xor_crate) (cr_sha256_hex (rsh_crypto demo_repair)) [1, 2, 3] [[1, 2], [3, 0], [2, 2]] m"
      "no_second_preimage (cr_sha256_hex (rsh_crypto demo_repair)) [[1, 2], [3, 0], [2, 2]]" "plain_id (blob_str b)"
    by (rule demo_repairable)
  obtain r w' where run: "repair_shards_execute demo_repair demo_ns b w1 = (r, w')" by force
  have "rs_supported xor_crate (mf_erasure m)" using m(2) demo_supported by simp
  from repair_report_true [OF demo_wired(3) demo_ns_plain m(5,1) this m(3,4) _ run] run show ?thesis by auto
qed

text \<open>
  C9. Repair heals.  In a calm environment, as long as \<open>k\<close> of the \<open>n\<close> shards on the anchor are
  the original ones, a repair succeeds and afterwards all \<open>n\<close> are, whatever was in the place of
  the others and whatever the peers answer.
\<close>

theorem repair_restores_all_shards:
  assumes "wired_repair root roots c rs" and "calm root w" and "plain_id (ns_str ns)" and "plain_id (blob_str b)"
    and "mv_manifests (node_mview w) (ns, b) = Some m" and "rs_supported c (mf_erasure m)"
    and "records (reed_solomon_coder c) (cr_sha256_hex (rsh_crypto rs)) d shs m"
    and "no_second_preimage (cr_sha256_hex (rsh_crypto rs)) shs" and "length d < 2 ^ 64"
    and "unat (ep_k (mf_erasure m)) \<le>
      card {i. i < length shs \<and> node_aview root w (shard_ref_new ns b (word_of_nat i)) = Some (shs ! i)}"
  shows "\<exists>rep w'. repair_shards_execute rs ns b w = (Inr rep, w') \<and> \<not> rr_unrepairable rep \<and>
    (\<forall>j<length shs. node_aview root w' (shard_ref_new ns b (word_of_nat j)) = Some (shs ! j))"
  using calm_repair [OF assms] by blast

theorem repair_restores_all_shards_witness:
  "\<exists>b w1 rep w'. repair_shards_execute demo_repair demo_ns b w1 = (Inr rep, w') \<and> \<not> rr_unrepairable rep"
proof -
  obtain b w1 m where m: "mv_manifests (node_mview w1) (demo_ns, b) = Some m" "mf_erasure m = ac_erasure demo_contract"
      "records (reed_solomon_coder xor_crate) (cr_sha256_hex (rsh_crypto demo_repair)) [1, 2, 3] [[1, 2], [3, 0], [2, 2]] m"
      "no_second_preimage (cr_sha256_hex (rsh_crypto demo_repair)) [[1, 2], [3, 0], [2, 2]]" "calm [] w1" "plain_id (blob_str b)"
    and k: "unat (ep_k (ac_erasure demo_contract)) \<le> card {i. i < length [[1, 2], [3, 0], [2, 2 :: byte]] \<and>
      node_aview [] w1 (shard_ref_new demo_ns b (word_of_nat i)) = Some ([[1, 2], [3, 0], [2, 2]] ! i)}"
    by (rule demo_repairable)
  have "rs_supported xor_crate (mf_erasure m)" using m(2) demo_supported by simp
  from repair_restores_all_shards [OF demo_wired(3) m(5) demo_ns_plain m(6,1) this m(3,4)] k m(2)
  show ?thesis by auto
qed

section \<open>Pruning old versions\<close>

text \<open>
  C17. Pruning.  A prune of an object group deletes exactly the versions that are neither among the
  newest \<open>keep_versions\<close> nor within their retention hold at its clock reading (and none at all
  when \<open>keep_versions\<close> is 0): their manifests and shards go, everything else stays, and the
  report's counts add up.
\<close>

theorem prune_exact:
  assumes "plain_id (ns_str ns)" and "keyed (node_mview w)"
    and "\<forall>b\<in>blobs_of (node_mview w) ns. plain_id (blob_str b)"
    and "prune_versions_execute (node_prune root) ns oid w = (Inr rep, w')"
  shows "\<exists>n ct vs t now keep gone. mv_namespaces (node_mview w) ns = Some n \<and>
    mv_contracts (node_mview w) (nsp_app_id n) = Some ct \<and> keep = unat (rp_keep_versions (ac_retention ct)) \<and>
    now = Timestamp (w_clock w t) \<and>
    set vs = versions_of (node_mview w) ns oid \<and> distinct vs \<and>
    sorted_wrt (\<lambda>a b. mf_created_at b \<le> mf_created_at a) vs \<and>
    gone = (if keep = 0 then {} else {m \<in> set (drop keep vs). hold_elapsed (ac_retention ct) (mf_created_at m) now}) \<and>
    node_mview w' = drop_manifests ns (mf_blob_id ` gone) (node_mview w) \<and>
    node_aview root w' = drop_blobs ns (mf_blob_id ` gone) (node_aview root w) \<and>
    pr_versions rep = length vs \<and> pr_pruned rep = card gone \<and>
    pr_kept rep = (if keep = 0 then length vs else min keep (length vs)) \<and>
    pr_kept rep + pr_pruned rep + pr_held rep = pr_versions rep"
proof -
  obtain n ct vs now keep gone where p: "mv_namespaces (node_mview w) ns = Some n"
      "mv_contracts (node_mview w) (nsp_app_id n) = Some ct" "keep = unat (rp_keep_versions (ac_retention ct))"
      "set vs = versions_of (node_mview w) ns oid" "distinct vs"
      "sorted_wrt (\<lambda>a b. mf_created_at b \<le> mf_created_at a) vs"
      "\<exists>w1. node_env w1 = node_env w \<and> now = fst (ck_now system_clock w1)"
      "gone = (if keep = 0 then {} else set (prunable (ac_retention ct) now keep vs))"
      "node_mview w' = drop_manifests ns (mf_blob_id ` gone) (node_mview w)"
      "node_aview root w' = drop_blobs ns (mf_blob_id ` gone) (node_aview root w)"
      "pr_versions rep = length vs" "pr_pruned rep = card gone"
      "pr_kept rep = (if keep = 0 then length vs else min keep (length vs))"
      "pr_kept rep + pr_pruned rep + pr_held rep = pr_versions rep"
    by (rule node.prune_ok [where env = node_env, OF wiredD(7) _ _ _ _ assms]) (simp_all add: node_meta_sel on_meta_keeps_env)
  have "gone = (if keep = 0 then {} else {m \<in> set (drop keep vs). hold_elapsed (ac_retention ct) (mf_created_at m) now})"
    using p(8) by (simp add: prunable_def)
  moreover obtain t where "now = Timestamp (w_clock w t)"
    using p(7) by (auto simp: node_env_def system_clock_eq)
  ultimately show ?thesis using p by blast
qed

lemma demo_prune_runs:
  "map_sum id (\<lambda>rep. (pr_versions rep, pr_kept rep, pr_pruned rep, pr_held rep))
     (fst (prune_versions_execute (node_prune []) demo_ns ''o''
       (demo_world (86400000 + 6) [demo_manifest ''b'' 5, demo_manifest ''c'' 6, demo_manifest ''d'' 7]))) = Inr (3, 1, 2, 0)"
  by code_simp

theorem prune_exact_witness:
  "\<exists>rep w'. prune_versions_execute (node_prune []) demo_ns ''o''
       (demo_world (86400000 + 6) [demo_manifest ''b'' 5, demo_manifest ''c'' 6, demo_manifest ''d'' 7]) = (Inr rep, w') \<and>
     (\<exists>gone :: manifest set. node_mview w' = drop_manifests demo_ns (mf_blob_id ` gone)
        (node_mview (demo_world (86400000 + 6) [demo_manifest ''b'' 5, demo_manifest ''c'' 6, demo_manifest ''d'' 7])) \<and>
        card gone = 2)"
proof -
  let ?w = "demo_world (86400000 + 6) [demo_manifest ''b'' 5, demo_manifest ''c'' 6, demo_manifest ''d'' 7]"
  obtain r w' where run: "prune_versions_execute (node_prune []) demo_ns ''o'' ?w = (r, w')" by force
  then obtain rep where rep: "r = Inr rep" "pr_pruned rep = 2"
    using demo_prune_runs by (cases r) auto
  have m: "mv_manifests (node_mview ?w) = [(demo_ns, BlobId ''b'') \<mapsto> demo_manifest ''b'' 5,
      (demo_ns, BlobId ''c'') \<mapsto> demo_manifest ''c'' 6, (demo_ns, BlobId ''d'') \<mapsto> demo_manifest ''d'' 7]"
    by (simp add: demo_world_def mem_view_def demo_manifest_def manifest_new_def fun_eq_iff DAList.lookup_empty)
  have k: "keyed (node_mview ?w)" unfolding keyed_def m by (auto simp: demo_manifest_def manifest_new_def)
  have p: "\<forall>b\<in>blobs_of (node_mview ?w) demo_ns. plain_id (blob_str b)"
    unfolding blobs_of_def m by (auto simp: plain_id_def)
  from prune_exact [OF demo_ns_plain k p run [unfolded rep(1)]]
  obtain gone :: "manifest set" where "node_mview w' = drop_manifests demo_ns (mf_blob_id ` gone) (node_mview ?w)"
      "pr_pruned rep = card gone" by blast
  with run rep show ?thesis by auto
qed

section \<open>Billing\<close>

text \<open>
  Usage statements.  A statement has one line for each namespace the app owns and for no other,
  with that namespace's stored bytes and objects; the totals are the sums of the lines (modulo
  \<open>2^64\<close>), the cost is the saturating price of the total, and nothing changes.
\<close>

theorem usage_statement_exact:
  assumes "usage_report_execute node_meta app w = (Inr st, w')"
  shows "\<exists>nss ct. set nss = {ns. \<exists>n. mv_namespaces (node_mview w) ns = Some n \<and> nsp_app_id n = app} \<and> distinct nss \<and>
    mv_contracts (node_mview w) app = Some ct \<and> us_app_id st = app \<and>
    us_lines st = map (\<lambda>ns. \<lparr>nl_namespace = ns, nl_bytes = nu_bytes (usage_of (node_mview w) ns),
      nl_objects = nu_objects (usage_of (node_mview w) ns)\<rparr>) nss \<and>
    us_total_bytes st = sum_list (map nl_bytes (us_lines st)) \<and>
    us_total_objects st = sum_list (map nl_objects (us_lines st)) \<and>
    us_quota_max_bytes st = q_max_bytes (ac_quota ct) \<and>
    us_estimated_cost_micros st = saturating_mul (us_total_bytes st) MICROS_PER_GIB div BYTES_PER_GIB \<and>
    node_mview w' = node_mview w"
proof -
  obtain nss ct where u: "set nss = {ns. owned app (mv_namespaces (node_mview w) ns)}" "distinct nss"
      "mv_contracts (node_mview w) app = Some ct" "us_app_id st = app" "us_lines st = map (usage_line (node_mview w)) nss"
      "us_total_bytes st = sum_list (map nl_bytes (us_lines st))"
      "us_total_objects st = sum_list (map nl_objects (us_lines st))"
      "us_quota_max_bytes st = q_max_bytes (ac_quota ct)"
      "us_estimated_cost_micros st = saturating_mul (us_total_bytes st) MICROS_PER_GIB div BYTES_PER_GIB"
      "node_mview w' = node_mview w"
    by (rule node.usage_report_ok [OF assms])
  have "set nss = {ns. \<exists>n. mv_namespaces (node_mview w) ns = Some n \<and> nsp_app_id n = app}"
    using u(1) by (auto simp: owned_def split: option.splits)
  moreover have "usage_line (node_mview w) = (\<lambda>ns. \<lparr>nl_namespace = ns, nl_bytes = nu_bytes (usage_of (node_mview w) ns),
      nl_objects = nu_objects (usage_of (node_mview w) ns)\<rparr>)"
    by (simp add: usage_line_def fun_eq_iff)
  ultimately show ?thesis using u(2-) by auto
qed

theorem usage_statement_exact_witness:
  "\<exists>st w'. usage_report_execute node_meta (AppId ''a'') (demo_world 6 [demo_manifest ''b'' 5]) = (Inr st, w') \<and>
     us_total_bytes st = sum_list (map nl_bytes (us_lines st)) \<and> us_total_bytes st = 3"
proof -
  obtain r w' where run: "usage_report_execute node_meta (AppId ''a'') (demo_world 6 [demo_manifest ''b'' 5]) = (r, w')" by force
  have "map_sum id us_total_bytes (fst (usage_report_execute node_meta (AppId ''a'') (demo_world 6 [demo_manifest ''b'' 5]))) = Inr 3"
    by (simp add: usage_report_execute_def io_bind_def io_lift_def io_return_def node_meta_sel on_meta_def Let_def
        demo_world_def mem_defs mem_namespace_usage_def DAList.update.rep_eq DAList.empty.rep_eq demo_manifest_def manifest_new_def)
  with run obtain st where st: "r = Inr st" "us_total_bytes st = 3" by (cases r) auto
  with run usage_statement_exact [of "AppId ''a''" "demo_world 6 [demo_manifest ''b'' 5]" st w'] show ?thesis by auto
qed

section \<open>Peer replicas\<close>

lemma node_send_stored:
  assumes "wire_ref at" and "frame_fits at bs" and "parse_socket_addr p = Some a"
    and "st_send_shard (node_transport roots) p at bs w = (Inr (), w1)"
  shows "\<exists>f. fs_put_shard (roots a) at bs (w_peers w a) = (Inr (), f) \<and>
    w1 = w\<lparr>w_dialled := Suc (w_dialled w), w_peers := (w_peers w)(a := f)\<rparr>"
proof -
  obtain x f where put: "fs_put_shard (roots a) at bs (w_peers w a) = (x, f)" by force
  have len: "length (encode_request OP_PUT (shard_key at) bs) \<le> MAX_FRAME"
    using assms(2) by (simp add: length_encode_request frame_fits_def)
  show ?thesis
  proof (cases "w_link w (w_dialled w)")
    case None
    then show ?thesis
      using assms(3,4) put len
      by (cases x) (auto simp: node_transport_def quic_shard_transport_def quic_send_shard_def round_trip_def node_dial_def
        handle_stream_def serve_put [OF assms(1)] fs_blob_anchor_def io_bind_def io_lift_def io_map_err_def io_return_def io_throw_def
        MAX_FRAME_def ST_OK_def ST_ERR_def)
  next
    case (Some e)
    then show ?thesis
      using assms(3,4) by (simp add: node_transport_def quic_shard_transport_def quic_send_shard_def round_trip_def
        node_dial_def io_bind_def io_lift_def io_map_err_def io_lift_def io_return_def io_throw_def)
  qed
qed

lemma node_fetch_serves:
  assumes "wire_ref at" and "frame_fits at []" and "w_link w (w_dialled w) = None" and "parse_socket_addr p = Some a"
    and "fs_get_shard (roots a) at (w_peers w a) = (Inr bs, f)" and "length bs < MAX_FRAME"
  shows "\<exists>w'. st_fetch_shard (node_transport roots) p at w = (Inr bs, w')"
  using assms
  by (simp add: node_transport_def quic_shard_transport_def quic_fetch_shard_def round_trip_def node_dial_def
      handle_stream_def serve_get fs_blob_anchor_def length_encode_request frame_fits_def io_bind_def io_lift_def io_map_err_def
      io_return_def ST_OK_def)

text \<open>
  C25. Peer replicas over QUIC.  A shard that a peer accepted over the QUIC transport is returned
  unchanged by a later fetch from that peer, over whatever requests to other peers happened in
  between, while the link is up and the peer may read its file: framing, addressing and storage on
  the peer compose to the identity.
\<close>

theorem quic_replica_faithful:
  assumes "wire_ref at" and "plain_ref at" and "frame_fits at bs" and "parse_socket_addr p = Some a"
    and "st_send_shard (node_transport roots) p at bs w = (Inr (), w1)"
    and "w_peers w2 a = w_peers w1 a" and "w_link w2 (w_dialled w2) = None"
    and "fs_deny (w_peers w2 a) (shard_path (roots a) at) = None"
  shows "\<exists>w3. st_fetch_shard (node_transport roots) p at w2 = (Inr bs, w3)"
proof -
  obtain f where put: "fs_put_shard (roots a) at bs (w_peers w a) = (Inr (), f)" "w_peers w1 a = f"
    using node_send_stored [OF assms(1,3,4,5)] by auto
  then have "fs_view (roots a) f at = Some bs" using fs_put_view [OF _ put(1)] assms(2) by fastforce
  then have "fs_get_shard (roots a) at f = (Inr bs, f)" 
    using assms(2,6,8) put(2) by (simp add: fs_get_shard_def fs_read_def fs_view_def)
  then have "fs_get_shard (roots a) at (w_peers w2 a) = (Inr bs, f)" using assms(6) put(2) by simp
  from node_fetch_serves [where roots = roots, OF assms(1) _ assms(7,4) this] assms(3) show ?thesis by (simp add: frame_fits_def)
qed

lemma node_send_delivers:
  assumes "wire_ref at" and "plain_ref at" and "frame_fits at bs" and "w_link w (w_dialled w) = None" and "parse_socket_addr p = Some a"
    and "shard_disk (roots a) (w_peers w a)"
  shows "\<exists>w1. st_send_shard (node_transport roots) p at bs w = (Inr (), w1)"
proof -
  obtain f where "fs_put_shard (roots a) at bs (w_peers w a) = (Inr (), f)"
    using fs_put_succeeds [OF assms(6,2)] by blast
  with assms show ?thesis
    by (simp add: node_transport_def quic_shard_transport_def quic_send_shard_def round_trip_def node_dial_def
        handle_stream_def serve_put fs_blob_anchor_def length_encode_request frame_fits_def io_bind_def io_lift_def io_map_err_def
        io_return_def MAX_FRAME_def)
qed

theorem quic_replica_faithful_witness:
  "\<exists>w1 w3. st_send_shard (node_transport (\<lambda>_. [])) ''10.0.0.1:1''
       \<lparr>sr_namespace = demo_ns, sr_blob_id = BlobId ''b'', sr_index = 7\<rparr> [1, 2] (demo_world 5 []) = (Inr (), w1) \<and>
     st_fetch_shard (node_transport (\<lambda>_. [])) ''10.0.0.1:1''
       \<lparr>sr_namespace = demo_ns, sr_blob_id = BlobId ''b'', sr_index = 7\<rparr> w1 = (Inr [1, 2], w3)"
proof -
  let ?at = "\<lparr>sr_namespace = demo_ns, sr_blob_id = BlobId ''b'', sr_index = 7\<rparr>" and ?w = "demo_world 5 []" and ?a = "SocketV4 (10, 0, 0, 1) 1"
  have key: "shard_key ?at = ''n/b/7''" by code_simp
  moreover have "utf8_valid (as_bytes ''n/b/7'')" by (rule utf8_ascii) simp
  ultimately have at: "wire_ref ?at" "plain_ref ?at" "frame_fits ?at [1, 2]"
    by (simp_all add: wire_ref_def plain_ref_def plain_id_def demo_ns_def frame_fits_def MAX_FRAME_def)
  have disk: "shard_disk [] (w_peers ?w ?a)" "w_link ?w = (\<lambda>_. None)"
    by (simp_all add: demo_world_def shard_disk_def demo_disk_def fs_file_def)
  then obtain w1 where send: "st_send_shard (node_transport (\<lambda>_. [])) ''10.0.0.1:1'' ?at [1, 2] ?w = (Inr (), w1)"
    using node_send_delivers [OF at _ demo_peer, of ?w "\<lambda>_. []"] by auto
  then obtain f where f: "fs_put_shard [] ?at [1, 2] (w_peers ?w ?a) = (Inr (), f)" "w_peers w1 ?a = f"
      "w_link w1 = w_link ?w"
    using node_send_stored [OF at(1,3) demo_peer send] by auto
  have "fs_deny f = fs_deny (w_peers ?w ?a)"
    using f(1) fs_ops_keep_deny by (metis snd_conv)
  then have "fs_deny (w_peers w1 ?a) (shard_path [] ?at) = None"
    using f(2) by (simp add: demo_world_def demo_disk_def)
  with quic_replica_faithful [OF at demo_peer send, of w1] f disk(2) send show ?thesis by auto
qed

end
