(* ===== verification/Vault_Client.thy ===== *)
theory Vault_Client
  imports Node_Service Token_Crypto
begin

text \<open>
  The client library, \<^verbatim>\<open>crates/vault-client\<close>: the base64 helpers (\<^verbatim>\<open>codec.rs\<close>), the data-plane
  client \<^verbatim>\<open>NodeAgentClient\<close> (\<^verbatim>\<open>data_client.rs\<close>) and the control-plane client \<^verbatim>\<open>CoordinatorClient\<close>
  (\<^verbatim>\<open>control_client.rs\<close>).  The network is an argument: it takes a request to a reply or a transport
  error.  \<open>text\<close> renders a reply body as the error text of a failed call.  The lemmas compose the
  data-plane client with the node's router: each call is the use-case behind its route.
\<close>

type_synonym 'w net = "request \<Rightarrow> (string, 'w, reply) act"

section \<open>Base64 (codec.rs)\<close>

definition client_b64_encode :: "b64_engine \<Rightarrow> bytes \<Rightarrow> string" where
  "client_b64_encode b64 bs = b64_encode b64 bs"

definition client_b64_decode :: "b64_engine \<Rightarrow> string \<Rightarrow> client_error + bytes" where
  "client_b64_decode b64 s = map_sum Encoding id (b64_decode b64 s)"

section \<open>Posting JSON (data\_client.rs, control\_client.rs)\<close>

text \<open>
  \<^verbatim>\<open>serde_json::from_str\<close> on the text of a body.  A JSON body is read as its value; the empty text is
  no JSON value, nor are the plain texts the services send.
\<close>

definition from_body :: "(json \<Rightarrow> 'a option) \<Rightarrow> body \<Rightarrow> string + 'a" where
  "from_body dec b = (case b of
       JsonBody j \<Rightarrow> (case dec j of Some x \<Rightarrow> Inr x | None \<Rightarrow> Inl ''invalid data'')
     | NoBody \<Rightarrow> Inl ''EOF while parsing a value at line 1 column 0''
     | _ \<Rightarrow> Inl ''expected value'')"

definition post_json ::
  "'w net \<Rightarrow> (body \<Rightarrow> string) \<Rightarrow> string \<Rightarrow> json \<Rightarrow> (json \<Rightarrow> 'a option) \<Rightarrow> (client_error, 'w, 'a) act" where
  "post_json net text path j dec =
     io_bind (io_map_err Transport (net \<lparr>hr_verb = POST, hr_path = path, hr_body = JsonBody j, hr_fingerprint = None\<rparr>)) (\<lambda>resp.
     if \<not> is_success (resp_status resp)
     then io_throw (Server (word_of_nat (resp_status resp)) (text (resp_body resp)))
     else io_lift (map_sum Encoding id (from_body dec (resp_body resp))))"

section \<open>The data-plane client (data\_client.rs)\<close>

definition client_put ::
  "b64_engine \<Rightarrow> 'w net \<Rightarrow> (body \<Rightarrow> string) \<Rightarrow> namespace_id \<Rightarrow> capability_token \<Rightarrow> bytes \<Rightarrow> (client_error, 'w, blob_id) act" where
  "client_put b64 net text ns tok ciphertext =
     io_bind (post_json net text ''/v1/backups'' (to_json_put_request
       \<lparr>pq_namespace = ns, pq_token = tok, pq_ciphertext_b64 = client_b64_encode b64 ciphertext\<rparr>) of_json_put_response) (\<lambda>resp.
     io_return (pp_blob_id resp))"

definition client_get ::
  "b64_engine \<Rightarrow> 'w net \<Rightarrow> (body \<Rightarrow> string) \<Rightarrow> namespace_id \<Rightarrow> capability_token \<Rightarrow> blob_id \<Rightarrow> (client_error, 'w, bytes) act" where
  "client_get b64 net text ns tok blob =
     io_bind (post_json net text ''/v1/backups/get'' (to_json_get_request
       \<lparr>gq_namespace = ns, gq_token = tok, gq_blob_id = blob\<rparr>) of_json_restored_blob) (\<lambda>resp.
     io_lift (client_b64_decode b64 (rb_ciphertext_b64 resp)))"

definition client_list ::
  "'w net \<Rightarrow> (body \<Rightarrow> string) \<Rightarrow> namespace_id \<Rightarrow> capability_token \<Rightarrow> (client_error, 'w, blob_id list) act" where
  "client_list net text ns tok =
     io_bind (post_json net text ''/v1/backups/list'' (to_json_list_request
       \<lparr>lq_namespace = ns, lq_token = tok\<rparr>) of_json_list_response) (\<lambda>resp.
     io_return (lp_blob_ids resp))"

text \<open>The reply is read as any JSON value (\<^verbatim>\<open>serde_json::Value\<close>).\<close>

definition client_delete ::
  "'w net \<Rightarrow> (body \<Rightarrow> string) \<Rightarrow> namespace_id \<Rightarrow> capability_token \<Rightarrow> blob_id \<Rightarrow> (client_error, 'w, unit) act" where
  "client_delete net text ns tok blob =
     io_bind (post_json net text ''/v1/backups/delete'' (to_json_delete_request
       \<lparr>dq_namespace = ns, dq_token = tok, dq_blob_id = blob\<rparr>) Some) (\<lambda>_.
     io_return ())"

section \<open>The control-plane client (control\_client.rs)\<close>

definition client_register_app ::
  "'w net \<Rightarrow> (body \<Rightarrow> string) \<Rightarrow> string \<Rightarrow> quota \<Rightarrow> retention_policy \<Rightarrow> erasure_params \<Rightarrow> (client_error, 'w, register_app_response) act" where
  "client_register_app net text label q ret er =
     post_json net text ''/v1/apps'' (to_json_register_app_request
       \<lparr>raq_label = label, raq_quota = q, raq_retention = ret, raq_erasure = er\<rparr>) of_json_register_app_response"

definition client_create_namespace ::
  "'w net \<Rightarrow> (body \<Rightarrow> string) \<Rightarrow> app_id \<Rightarrow> (client_error, 'w, create_namespace_response) act" where
  "client_create_namespace net text app =
     post_json net text ''/v1/namespaces'' (to_json_create_namespace_request \<lparr>cnq_app_id = app\<rparr>)
       of_json_create_namespace_response"

definition client_issue_capability ::
  "'w net \<Rightarrow> (body \<Rightarrow> string) \<Rightarrow> app_id \<Rightarrow> namespace_id \<Rightarrow> operation \<Rightarrow> u64 \<Rightarrow> (client_error, 'w, capability_token) act" where
  "client_issue_capability net text app ns oper ttl =
     io_bind (post_json net text ''/v1/capabilities'' (to_json_issue_capability_request
       \<lparr>icq_app_id = app, icq_namespace = ns, icq_operation = oper, icq_ttl_secs = ttl\<rparr>) of_json_issue_capability_response) (\<lambda>resp.
     io_return (icp_token resp))"

section \<open>The client in front of a node\<close>

text \<open>A local network to the node's router: a dropped connection is a transport error.\<close>

definition node_net :: "b64_engine \<Rightarrow> 'w node_app \<Rightarrow> 'w node net" where
  "node_net b64 app q nd =
     (case node_router b64 app q nd of
        (Some (r, headers), nd') \<Rightarrow> (Inr r, nd')
      | (None, nd') \<Rightarrow> (Inl ''connection closed before message completed'', nd'))"

lemma node_paths:
  "path_segments ''/v1/backups'' = [''v1'', ''backups'']"
  "path_segments ''/v1/backups/get'' = [''v1'', ''backups'', ''get'']"
  "path_segments ''/v1/backups/list'' = [''v1'', ''backups'', ''list'']"
  "path_segments ''/v1/backups/delete'' = [''v1'', ''backups'', ''delete'']"
  by code_simp+

lemma node_net_routes:
  "node_net b64 app \<lparr>hr_verb = POST, hr_path = ''/v1/backups'', hr_body = b, hr_fingerprint = f\<rparr> nd =
     (case put_backup_route b64 app b nd of (Some r, nd') \<Rightarrow> (Inr r, nd')
      | (None, nd') \<Rightarrow> (Inl ''connection closed before message completed'', nd'))"
  "node_net b64 app \<lparr>hr_verb = POST, hr_path = ''/v1/backups/get'', hr_body = b, hr_fingerprint = f\<rparr> nd =
     (case get_backup_route b64 app b nd of (Some r, nd') \<Rightarrow> (Inr r, nd')
      | (None, nd') \<Rightarrow> (Inl ''connection closed before message completed'', nd'))"
  "node_net b64 app \<lparr>hr_verb = POST, hr_path = ''/v1/backups/list'', hr_body = b, hr_fingerprint = f\<rparr> nd =
     (case list_backups_route app b nd of (Some r, nd') \<Rightarrow> (Inr r, nd')
      | (None, nd') \<Rightarrow> (Inl ''connection closed before message completed'', nd'))"
  "node_net b64 app \<lparr>hr_verb = POST, hr_path = ''/v1/backups/delete'', hr_body = b, hr_fingerprint = f\<rparr> nd =
     (case delete_backup_route app b nd of (Some r, nd') \<Rightarrow> (Inr r, nd')
      | (None, nd') \<Rightarrow> (Inl ''connection closed before message completed'', nd'))"
  by (simp_all add: node_net_def node_router_def permissive_def node_routes_def node_paths split: prod.splits option.splits)

lemma post_json_cases:
  fixes net :: "'w net"
  defines "q \<equiv> \<lambda>path j. \<lparr>hr_verb = POST, hr_path = path, hr_body = JsonBody j, hr_fingerprint = None\<rparr>"
  shows "net (q path j) w = (Inl e, w') \<Longrightarrow> post_json net text path j dec w = (Inl (Transport e), w')"
    and "net (q path j) w = (Inr r, w') \<Longrightarrow> \<not> is_success (resp_status r) \<Longrightarrow>
      post_json net text path j dec w = (Inl (Server (word_of_nat (resp_status r)) (text (resp_body r))), w')"
    and "net (q path j) w = (Inr (Response 200 (JsonBody v)), w') \<Longrightarrow> dec v = Some x \<Longrightarrow>
      post_json net text path j dec w = (Inr x, w')"
    and "net (q path j) w = (Inr (Response 200 NoBody), w') \<Longrightarrow>
      post_json net text path j dec w = (Inl (Encoding ''EOF while parsing a value at line 1 column 0''), w')"
  by (simp_all add: post_json_def q_def io_bind_def io_map_err_def io_lift_def io_throw_def from_body_def is_success_def)

lemmas route_defs = respond_def json_arg_def on_world_def io_bind_def io_map_err_def io_lift_def io_return_def io_read_def

text \<open>A put through the client is one request the service handles.\<close>

lemma io_bind_return_state: "snd (io_bind m (\<lambda>x. io_return (f x)) w) = snd (m w)"
  by (simp add: io_bind_def io_return_def split: prod.splits sum.splits)

lemma client_put_served: "\<exists>q. snd (client_put b64 (node_net b64' app) text ns tok d nd) = snd (node_router b64' app q nd)"
proof -
  have net: "snd (node_net b64' app q nd) = snd (node_router b64' app q nd)" for q
    by (simp add: node_net_def split: prod.splits option.splits)
  have post: "snd (post_json (node_net b64' app) text path j dec nd) =
      snd (node_net b64' app \<lparr>hr_verb = POST, hr_path = path, hr_body = JsonBody j, hr_fingerprint = None\<rparr> nd)" for path j dec
    by (simp add: post_json_def io_bind_def io_map_err_def io_lift_def io_throw_def split: prod.splits sum.splits)
  show ?thesis by (auto simp: client_put_def io_bind_return_state post net)
qed

text \<open>Each call of the data-plane client is its use-case.\<close>

lemma client_put_runs:
  assumes b64: "b64_correct b64"
  shows "client_put b64 (node_net b64 app) text ns tok d nd =
    (case put_backup_execute (na_put app) ns tok d (nd_world nd) of
       (Inr blob, w) \<Rightarrow> (Inr blob, nd\<lparr>nd_world := w\<rparr>)
     | (Inl (Fail e), w) \<Rightarrow> (Inl (Server (word_of_nat (resp_status (err e))) (text (resp_body (err e)))), nd\<lparr>nd_world := w\<rparr>)
     | (Inl Panic, w) \<Rightarrow> (Inl (Transport ''connection closed before message completed''), nd\<lparr>nd_world := w\<rparr>))"
proof -
  let ?q = "\<lparr>pq_namespace = ns, pq_token = tok, pq_ciphertext_b64 = b64_encode b64 d\<rparr>"
  obtain r w where run: "put_backup_execute (na_put app) ns tok d (nd_world nd) = (r, w)" by force
  have route: "put_backup_route b64 app (JsonBody (to_json_put_request ?q)) nd =
      (case r of Inr blob \<Rightarrow> (Some (Response 200 (JsonBody (to_json_put_response \<lparr>pp_blob_id = blob\<rparr>))), nd\<lparr>nd_world := w\<rparr>)
       | Inl f \<Rightarrow> (fault_reply f, nd\<lparr>nd_world := w\<rparr>))"
    using b64 run by (cases r) (simp_all add: put_backup_route_def route_defs json_simps b64_correct_def)
  note net = node_net_routes(1) [of b64 app "JsonBody (to_json_put_request ?q)" None nd, unfolded route]
  consider (Ok) blob where "r = Inr blob" | (Err) e where "r = Inl (Fail e)" | (Dead) "r = Inl Panic"
    by (cases r; cases "projl r") auto
  then show ?thesis
  proof cases
    case Ok
    with net have "post_json (node_net b64 app) text ''/v1/backups'' (to_json_put_request ?q) of_json_put_response nd =
        (Inr \<lparr>pp_blob_id = blob\<rparr>, nd\<lparr>nd_world := w\<rparr>)"
      by (intro post_json_cases(3), simp) (simp add: json_simps)
    with run Ok show ?thesis by (simp add: client_put_def client_b64_encode_def io_bind_def io_return_def)
  next
    case Err
    with net have "post_json (node_net b64 app) text ''/v1/backups'' (to_json_put_request ?q) of_json_put_response nd =
        (Inl (Server (word_of_nat (resp_status (err e))) (text (resp_body (err e)))), nd\<lparr>nd_world := w\<rparr>)"
      by (intro post_json_cases(2)) (simp_all add: fault_reply_def)
    with run Err show ?thesis by (simp add: client_put_def client_b64_encode_def io_bind_def)
  next
    case Dead
    with net have "post_json (node_net b64 app) text ''/v1/backups'' (to_json_put_request ?q) of_json_put_response nd =
        (Inl (Transport ''connection closed before message completed''), nd\<lparr>nd_world := w\<rparr>)"
      by (intro post_json_cases(1)) (simp add: fault_reply_def)
    with run Dead show ?thesis by (simp add: client_put_def client_b64_encode_def io_bind_def)
  qed
qed

text \<open>A get is a restore; when shards were missing the node has a repair to run afterwards.\<close>

lemma client_get_runs:
  assumes b64: "b64_correct b64"
  shows "client_get b64 (node_net b64 app) text ns tok blob nd =
    (case get_backup_restore (na_get app) ns tok blob (nd_world nd) of
       (Inr out, w) \<Rightarrow> (Inr (ro_ciphertext out), nd\<lparr>nd_world := w,
         nd_tasks := nd_tasks nd @ (if 0 < ro_shards_missing out then [(ns, blob)] else [])\<rparr>)
     | (Inl e, w) \<Rightarrow> (Inl (Server (word_of_nat (resp_status (err e))) (text (resp_body (err e)))), nd\<lparr>nd_world := w\<rparr>))"
proof -
  let ?q = "\<lparr>gq_namespace = ns, gq_token = tok, gq_blob_id = blob\<rparr>"
  obtain r w where run: "get_backup_restore (na_get app) ns tok blob (nd_world nd) = (r, w)" by force
  show ?thesis
  proof (cases r)
    case (Inl e)
    then have "get_backup_route b64 app (JsonBody (to_json_get_request ?q)) nd = (Some (err e), nd\<lparr>nd_world := w\<rparr>)"
      using run by (simp add: get_backup_route_def route_defs json_simps err_reply_def)
    note net = node_net_routes(2) [of b64 app "JsonBody (to_json_get_request ?q)" None nd, unfolded this]
    then have "post_json (node_net b64 app) text ''/v1/backups/get'' (to_json_get_request ?q) of_json_restored_blob nd =
        (Inl (Server (word_of_nat (resp_status (err e))) (text (resp_body (err e)))), nd\<lparr>nd_world := w\<rparr>)"
      by (intro post_json_cases(2)) simp_all
    with run Inl show ?thesis by (simp add: client_get_def io_bind_def)
  next
    case (Inr out)
    let ?rb = "\<lparr>rb_blob_id = blob, rb_ciphertext_b64 = b64_encode b64 (ro_ciphertext out)\<rparr>"
    let ?nd = "nd\<lparr>nd_world := w, nd_tasks := nd_tasks nd @ (if 0 < ro_shards_missing out then [(ns, blob)] else [])\<rparr>"
    have "get_backup_route b64 app (JsonBody (to_json_get_request ?q)) nd =
        (Some (Response 200 (JsonBody (to_json_restored_blob ?rb))), ?nd)"
      using run Inr by (simp add: get_backup_route_def route_defs json_simps spawn_repair_def)
    note net = node_net_routes(2) [of b64 app "JsonBody (to_json_get_request ?q)" None nd, unfolded this]
    then have "post_json (node_net b64 app) text ''/v1/backups/get'' (to_json_get_request ?q) of_json_restored_blob nd =
        (Inr ?rb, ?nd)"
      by (intro post_json_cases(3), simp) (simp add: json_simps)
    with run Inr b64 show ?thesis
      by (simp add: client_get_def io_bind_def io_lift_def client_b64_decode_def b64_correct_def)
  qed
qed

text \<open>
  C35. A delete through the client never reports success.  The node answers a delete that it carried
  out with an empty body (the documents promise \<^verbatim>\<open>ok\<close>), the client insists on a JSON value, and so the
  blob is gone while the caller sees an encoding error.
\<close>

theorem client_delete_never_ok:
  "(case delete_backup_execute (na_delete app) ns tok blob (nd_world nd) of
      (Inr u, w) \<Rightarrow> client_delete (node_net b64 app) text ns tok blob nd =
        (Inl (Encoding ''EOF while parsing a value at line 1 column 0''), nd\<lparr>nd_world := w\<rparr>)
    | (Inl e, w) \<Rightarrow> client_delete (node_net b64 app) text ns tok blob nd =
        (Inl (Server (word_of_nat (resp_status (err e))) (text (resp_body (err e)))), nd\<lparr>nd_world := w\<rparr>))"
proof -
  let ?q = "\<lparr>dq_namespace = ns, dq_token = tok, dq_blob_id = blob\<rparr>"
  let ?post = "post_json (node_net b64 app) text ''/v1/backups/delete'' (to_json_delete_request ?q) Some nd"
  obtain r w where run: "delete_backup_execute (na_delete app) ns tok blob (nd_world nd) = (r, w)" by force
  have "delete_backup_route app (JsonBody (to_json_delete_request ?q)) nd =
      (Some (case r of Inr u \<Rightarrow> Response 200 NoBody | Inl e \<Rightarrow> err e), nd\<lparr>nd_world := w\<rparr>)"
    using run by (cases r) (simp_all add: delete_backup_route_def route_defs json_simps err_reply_def empty_body_def)
  note net = node_net_routes(4) [of b64 app "JsonBody (to_json_delete_request ?q)" None nd, unfolded this]
  show ?thesis
  proof (cases r)
    case (Inl e)
    with net have "?post = (Inl (Server (word_of_nat (resp_status (err e))) (text (resp_body (err e)))), nd\<lparr>nd_world := w\<rparr>)"
      by (intro post_json_cases(2)) simp_all
    with run Inl show ?thesis by (simp add: client_delete_def io_bind_def)
  next
    case (Inr u)
    with net have "?post = (Inl (Encoding ''EOF while parsing a value at line 1 column 0''), nd\<lparr>nd_world := w\<rparr>)"
      by (intro post_json_cases(4)) simp
    with run Inr show ?thesis by (simp add: client_delete_def io_bind_def)
  qed
qed

end
