(* ===== verification/Self_Sovereign.thy ===== *)
theory Self_Sovereign
  imports Ports Std_Net
begin

text \<open>
  The self-hosted trust and naming services of the coordinator: the certificate authority of
  \<^verbatim>\<open>crates/adapter-rcgen-ca\<close> (server, client and leaf certificates, revocation list) and the name registry of
  \<^verbatim>\<open>crates/adapter-ddns\<close>.  The \<^verbatim>\<open>rcgen\<close> crate is an argument; keys and certificates are byte strings,
  and a key pair is a function of the random seed drawn for it.
\<close>

section \<open>The certificate authority (adapter-rcgen-ca)\<close>

datatype extended_key_usage = ServerAuth | ClientAuth
datatype key_usage = DigitalSignature | KeyEncipherment

datatype san_type = IpAddress ip_addr | DnsName string

record cert_params =
  cp_alt_names :: "san_type list"
  cp_is_ca :: bool
  cp_common_name :: string
  cp_extended_key_usages :: "extended_key_usage list"
  cp_key_usages :: "key_usage list"

record rcgen_crate =
  rg_keypair :: "bytes \<Rightarrow> string + bytes"
  rg_params :: "string list \<Rightarrow> string + cert_params"
  rg_self_signed :: "cert_params \<Rightarrow> bytes \<Rightarrow> string + bytes"
  rg_signed_by :: "cert_params \<Rightarrow> bytes \<Rightarrow> bytes \<Rightarrow> bytes \<Rightarrow> string + bytes"
  rg_cert_pem :: "bytes \<Rightarrow> string"
  rg_cert_der :: "bytes \<Rightarrow> bytes"
  rg_key_pem :: "bytes \<Rightarrow> string"
  rg_key_der :: "bytes \<Rightarrow> bytes"
  rg_ia5 :: "string \<Rightarrow> string + string"

definition rcgen_crypto :: "string \<Rightarrow> port_error" where
  "rcgen_crypto e = Crypto (''rcgen-ca: '' @ e)"

text \<open>\<^verbatim>\<open>.map_err(crypto)?\<close> in front of the rest of a function.\<close>

definition crypto_then :: "string + 'a \<Rightarrow> ('a \<Rightarrow> port_error + 'b) \<Rightarrow> port_error + 'b" where
  "crypto_then r f = (case r of Inl e \<Rightarrow> Inl (rcgen_crypto e) | Inr a \<Rightarrow> f a)"

record server_identity =
  si_cert_der :: bytes
  si_key_der :: bytes

record client_identity =
  ci_cert_pem :: string
  ci_key_pem :: string

definition san_of :: "rcgen_crate \<Rightarrow> string \<Rightarrow> port_error + san_type" where
  "san_of rg s =
     (case parse_ip_addr s of
        Some ip \<Rightarrow> Inr (IpAddress ip)
      | None \<Rightarrow> crypto_then (rg_ia5 rg s) (\<lambda>name. Inr (DnsName name)))"

text \<open>\<^verbatim>\<open>collect::<PortResult<_>>\<close>: all names, or the first error.\<close>

fun sans_of :: "rcgen_crate \<Rightarrow> string list \<Rightarrow> port_error + san_type list" where
  "sans_of rg [] = Inr []"
| "sans_of rg (s # sans) =
     (case san_of rg s of Inl e \<Rightarrow> Inl e | Inr x \<Rightarrow> map_sum id ((#) x) (sans_of rg sans))"

record cert_authority =
  ca_cert :: bytes
  ca_key :: bytes
  ca_revoked :: "string set"

definition cert_authority_generate :: "rcgen_crate \<Rightarrow> bytes \<Rightarrow> port_error + cert_authority" where
  "cert_authority_generate rg seed =
     crypto_then (rg_keypair rg seed) (\<lambda>key.
     crypto_then (rg_params rg [''VaultMesh Root CA'']) (\<lambda>params.
     crypto_then (rg_self_signed rg (params\<lparr>cp_is_ca := True\<rparr>) key) (\<lambda>cert.
     Inr \<lparr>ca_cert = cert, ca_key = key, ca_revoked = {}\<rparr>)))"

definition root_pem :: "rcgen_crate \<Rightarrow> cert_authority \<Rightarrow> string" where
  "root_pem rg ca = rg_cert_pem rg (ca_cert ca)"

definition root_cert_der :: "rcgen_crate \<Rightarrow> cert_authority \<Rightarrow> bytes" where
  "root_cert_der rg ca = rg_cert_der rg (ca_cert ca)"

definition issue_server :: "rcgen_crate \<Rightarrow> bytes \<Rightarrow> string list \<Rightarrow> cert_authority \<Rightarrow> port_error + server_identity" where
  "issue_server rg seed sans ca =
     crypto_then (rg_keypair rg seed) (\<lambda>key.
     crypto_then (rg_params rg []) (\<lambda>params.
     case sans_of rg sans of Inl e \<Rightarrow> Inl e | Inr names \<Rightarrow>
     crypto_then (rg_signed_by rg (params\<lparr>cp_alt_names := names, cp_common_name := ''vaultmesh-coordinator'',
       cp_extended_key_usages := [ServerAuth], cp_key_usages := [DigitalSignature, KeyEncipherment]\<rparr>) key (ca_cert ca) (ca_key ca)) (\<lambda>cert.
     Inr \<lparr>si_cert_der = rg_cert_der rg cert, si_key_der = rg_key_der rg key\<rparr>)))"

definition issue_client :: "rcgen_crate \<Rightarrow> bytes \<Rightarrow> string \<Rightarrow> cert_authority \<Rightarrow> port_error + client_identity" where
  "issue_client rg seed subject ca =
     crypto_then (rg_keypair rg seed) (\<lambda>key.
     crypto_then (rg_params rg [subject]) (\<lambda>params.
     crypto_then (rg_signed_by rg (params\<lparr>cp_common_name := subject, cp_extended_key_usages := [ClientAuth],
       cp_key_usages := [DigitalSignature]\<rparr>) key (ca_cert ca) (ca_key ca)) (\<lambda>cert.
     Inr \<lparr>ci_cert_pem = rg_cert_pem rg cert, ci_key_pem = rg_key_pem rg key\<rparr>)))"

definition issue_leaf :: "rcgen_crate \<Rightarrow> bytes \<Rightarrow> string \<Rightarrow> cert_authority \<Rightarrow> port_error + bytes" where
  "issue_leaf rg seed subject ca =
     crypto_then (rg_keypair rg seed) (\<lambda>key.
     crypto_then (rg_params rg [subject]) (\<lambda>params.
     crypto_then (rg_signed_by rg params key (ca_cert ca) (ca_key ca)) (\<lambda>leaf.
     Inr (as_bytes (rg_cert_pem rg leaf) @ as_bytes (rg_key_pem rg key)))))"

definition revoke :: "string \<Rightarrow> cert_authority \<Rightarrow> (port_error + unit) \<times> cert_authority" where
  "revoke serial ca = (Inr (), ca\<lparr>ca_revoked := insert serial (ca_revoked ca)\<rparr>)"

definition is_revoked :: "string \<Rightarrow> cert_authority \<Rightarrow> (port_error + bool) \<times> cert_authority" where
  "is_revoked serial ca = (Inr (serial \<in> ca_revoked ca), ca)"

section \<open>The name registry (adapter-ddns)\<close>

type_synonym name_registry = "(string, string) alist"

definition registry_new :: name_registry where
  "registry_new = DAList.empty"

definition registry_len :: "name_registry \<Rightarrow> nat" where
  "registry_len t = length (DAList.impl_of t)"

definition name_resolve :: "string \<Rightarrow> (name_registry, string) io" where
  "name_resolve n t = (ok_or NotFound (DAList.lookup t n), t)"

definition name_publish :: "string \<Rightarrow> string \<Rightarrow> (name_registry, unit) io" where
  "name_publish n ip t =
     (if n = [] \<or> ip = [] then (Inl (Backend ''empty name or ip''), t)
      else (Inr (), DAList.update n ip t))"

section \<open>Behaviour\<close>

lemma crypto_then_Inr: "crypto_then r f = Inr b \<longleftrightarrow> (\<exists>a. r = Inr a \<and> f a = Inr b)"
  by (auto simp: crypto_then_def split: sum.splits)

text \<open>A client identity is a pair signed by the authority's key, for client authentication only.\<close>

lemma issue_client_signed:
  assumes "issue_client rg seed subject ca = Inr i"
  obtains key params cert where "rg_keypair rg seed = Inr key" and "ci_key_pem i = rg_key_pem rg key"
    and "ci_cert_pem i = rg_cert_pem rg cert" and "rg_signed_by rg params key (ca_cert ca) (ca_key ca) = Inr cert"
    and "cp_common_name params = subject" and "cp_extended_key_usages params = [ClientAuth]"
  using assms by (auto simp: issue_client_def crypto_then_Inr)

text \<open>The names of a server certificate: each text that is an IP address as one, the others as DNS names.\<close>

lemma sans_of_Inr: "sans_of rg sans = Inr names \<longleftrightarrow> list_all2 (\<lambda>s x. san_of rg s = Inr x) sans names"
proof (induction sans arbitrary: names)
  case (Cons s sans)
  then show ?case
    by (cases "sans_of rg sans") (auto simp: list_all2_Cons1 split: sum.splits)
qed auto

lemma issue_server_signed:
  assumes "issue_server rg seed sans ca = Inr i"
  obtains key params cert where "rg_keypair rg seed = Inr key" and "si_key_der i = rg_key_der rg key"
    and "si_cert_der i = rg_cert_der rg cert" and "rg_signed_by rg params key (ca_cert ca) (ca_key ca) = Inr cert"
    and "list_all2 (\<lambda>s x. san_of rg s = Inr x) sans (cp_alt_names params)" and "cp_extended_key_usages params = [ServerAuth]"
  using assms by (cases "sans_of rg sans") (auto simp: issue_server_def crypto_then_Inr sans_of_Inr [symmetric])

lemma resolve_after_publish:
  assumes "name_publish n ip t = (Inr (), t')"
  shows "name_resolve m t' = (if m = n then (Inr ip, t') else (fst (name_resolve m t), t'))"
  using assms by (auto simp: name_publish_def name_resolve_def split: if_splits)

end
