(* ===== verification/Object_Anchor.thy ===== *)
theory Object_Anchor
  imports Ports Http_Api
begin

text \<open>
  The production anchor, \<^verbatim>\<open>crates/adapter-rustfs\<close>: shards as objects of an S3-compatible store.  The
  \<^verbatim>\<open>object_store\<close> crate and the store behind it are an argument; what the adapter relies on is the
  predicate \<open>store_contract\<close>, and under it the adapter satisfies the same interface \<open>anchor_laws\<close> as
  the filesystem anchor.
\<close>

section \<open>The object store\<close>

text \<open>
  An error is \<^verbatim>\<open>NotFound\<close> or another one, each with its text.  \<open>os_path\<close> is \<^verbatim>\<open>ObjPath::from\<close>; \<open>os_list\<close>
  is the stream of a listing, entry by entry.
\<close>

datatype os_error = OsNotFound string | OsOther string

fun show_os_error :: "os_error \<Rightarrow> string" where
  "show_os_error (OsNotFound s) = s"
| "show_os_error (OsOther s) = s"

record 'o object_store =
  os_path :: "string \<Rightarrow> string"
  os_put :: "string \<Rightarrow> bytes \<Rightarrow> (os_error, 'o, unit) act"
  os_get :: "string \<Rightarrow> (os_error, 'o, os_error + bytes) act"
  os_delete :: "string \<Rightarrow> (os_error, 'o, unit) act"
  os_list :: "string \<Rightarrow> 'o \<Rightarrow> (os_error + string) list \<times> 'o"
  os_signed_url :: "verb \<Rightarrow> string \<Rightarrow> u64 \<Rightarrow> (os_error, 'o, string) act"

section \<open>The adapter (lib.rs)\<close>

definition rustfs_backend :: "os_error \<Rightarrow> port_error" where
  "rustfs_backend e = Backend (''rustfs/s3: '' @ show_os_error e)"

definition rustfs_key :: "'o object_store \<Rightarrow> shard_ref \<Rightarrow> string" where
  "rustfs_key os at = os_path os (object_key at)"

definition blob_prefix :: "'o object_store \<Rightarrow> namespace_id \<Rightarrow> blob_id \<Rightarrow> string" where
  "blob_prefix os ns b = os_path os (ns_str ns @ ''/'' @ blob_str b)"

fun delete_listed :: "'o object_store \<Rightarrow> (os_error + string) list \<Rightarrow> ('o, unit) io" where
  "delete_listed os [] = io_return ()"
| "delete_listed os (entry # listing) =
     io_bind (io_lift (map_sum rustfs_backend id entry)) (\<lambda>location.
     io_bind (io_map_err rustfs_backend (os_delete os location)) (\<lambda>_.
     delete_listed os listing))"

definition delete_prefix :: "'o object_store \<Rightarrow> string \<Rightarrow> ('o, unit) io" where
  "delete_prefix os pre = io_bind (io_read (os_list os pre)) (delete_listed os)"

definition presigner_presign :: "'o object_store \<Rightarrow> verb \<Rightarrow> shard_ref \<Rightarrow> u64 \<Rightarrow> ('o, string) io" where
  "presigner_presign os meth at ttl = io_map_err rustfs_backend (os_signed_url os meth (rustfs_key os at) ttl)"

definition presigner_delete_blob :: "'o object_store \<Rightarrow> namespace_id \<Rightarrow> blob_id \<Rightarrow> ('o, unit) io" where
  "presigner_delete_blob os ns b = delete_prefix os (blob_prefix os ns b)"

definition rustfs_put_shard :: "'o object_store \<Rightarrow> shard_ref \<Rightarrow> bytes \<Rightarrow> ('o, unit) io" where
  "rustfs_put_shard os at bs = io_map_err rustfs_backend (os_put os (rustfs_key os at) bs)"

definition rustfs_get_shard :: "'o object_store \<Rightarrow> shard_ref \<Rightarrow> ('o, bytes) io" where
  "rustfs_get_shard os at =
     io_bind (io_attempt (os_get os (rustfs_key os at))) (\<lambda>r.
     case r of
       Inr res \<Rightarrow> io_lift (map_sum rustfs_backend id res)
     | Inl (OsNotFound s) \<Rightarrow> io_throw NotFound
     | Inl e \<Rightarrow> io_throw (rustfs_backend e))"

definition rustfs_blob_anchor :: "'o object_store \<Rightarrow> 'o blob_anchor" where
  "rustfs_blob_anchor os = \<lparr>ba_put_shard = rustfs_put_shard os, ba_get_shard = rustfs_get_shard os,
     ba_delete_blob = (\<lambda>ns b. delete_prefix os (blob_prefix os ns b))\<rparr>"

section \<open>What the adapter relies on\<close>

text \<open>
  Paths of plain segments are kept apart and nested as their texts are; a write that succeeds is visible, one that fails touches
  no other object; a read that succeeds or finds nothing tells the truth; a listing that is complete
  names exactly the objects below the prefix, a broken one only such objects before the error.
\<close>

definition below :: "string \<Rightarrow> string \<Rightarrow> bool" where
  "below p k \<longleftrightarrow> (\<exists>s. k = p @ ''/'' @ s)"

definition key_ok :: "string \<Rightarrow> bool" where
  "key_ok s \<longleftrightarrow> (\<forall>x\<in>set (split_on (CHR ''/'') s). plain_id x)"

definition store_contract :: "'o object_store \<Rightarrow> ('o \<Rightarrow> string \<rightharpoonup> bytes) \<Rightarrow> bool" where
  "store_contract os view \<longleftrightarrow>
     (\<forall>s t. key_ok s \<longrightarrow> key_ok t \<longrightarrow> (os_path os s = os_path os t \<longrightarrow> s = t) \<and>
        (below (os_path os s) (os_path os t) \<longleftrightarrow> below s t)) \<and>
     (\<forall>k x w r w'. os_put os k x w = (r, w') \<longrightarrow> (case r of Inr _ \<Rightarrow> view w' = (view w)(k \<mapsto> x)
        | Inl _ \<Rightarrow> \<forall>k'. k' \<noteq> k \<longrightarrow> view w' k' = view w k')) \<and>
     (\<forall>k w r w'. os_get os k w = (r, w') \<longrightarrow> view w' = view w \<and> (case r of Inr (Inr x) \<Rightarrow> view w k = Some x
        | Inl (OsNotFound _) \<Rightarrow> view w k = None | _ \<Rightarrow> True)) \<and>
     (\<forall>k w r w'. os_delete os k w = (r, w') \<longrightarrow> (case r of Inr _ \<Rightarrow> view w' = (view w)(k := None)
        | Inl _ \<Rightarrow> \<forall>k'. k' \<noteq> k \<longrightarrow> view w' k' = view w k')) \<and>
     (\<forall>p w es w'. os_list os p w = (es, w') \<longrightarrow> view w' = view w \<and> (\<forall>k. Inr k \<in> set es \<longrightarrow> below p k) \<and>
        ((\<forall>e. Inl e \<notin> set es) \<longrightarrow> (\<forall>k. below p k \<longrightarrow> view w k \<noteq> None \<longrightarrow> Inr k \<in> set es)))"

lemma store_contractD:
  assumes "store_contract os view"
  shows "key_ok s \<Longrightarrow> key_ok t \<Longrightarrow> os_path os s = os_path os t \<Longrightarrow> s = t"
    and "key_ok s \<Longrightarrow> key_ok t \<Longrightarrow> below (os_path os s) (os_path os t) \<longleftrightarrow> below s t"
    and "os_put os k x w = (Inr u, w') \<Longrightarrow> view w' = (view w)(k \<mapsto> x)"
    and "os_put os k x w = (Inl e, w') \<Longrightarrow> k' \<noteq> k \<Longrightarrow> view w' k' = view w k'"
    and "os_get os k w = (r, w') \<Longrightarrow> view w' = view w"
    and "os_get os k w = (Inr (Inr x), w') \<Longrightarrow> view w k = Some x"
    and "os_get os k w = (Inl (OsNotFound t), w') \<Longrightarrow> view w k = None"
    and "os_delete os k w = (Inr u, w') \<Longrightarrow> view w' = (view w)(k := None)"
    and "os_delete os k w = (Inl e, w') \<Longrightarrow> k' \<noteq> k \<Longrightarrow> view w' k' = view w k'"
    and "os_list os p w = (es, w') \<Longrightarrow> view w' = view w"
    and "os_list os p w = (es, w') \<Longrightarrow> Inr k \<in> set es \<Longrightarrow> below p k"
    and "os_list os p w = (es, w') \<Longrightarrow> \<forall>e. Inl e \<notin> set es \<Longrightarrow> below p k \<Longrightarrow> view w k \<noteq> None \<Longrightarrow> Inr k \<in> set es"
proof -
  note c = assms [unfolded store_contract_def]
  note put = c [THEN conjunct2, THEN conjunct1, rule_format]
  note get = c [THEN conjunct2, THEN conjunct2, THEN conjunct1, rule_format]
  note del = c [THEN conjunct2, THEN conjunct2, THEN conjunct2, THEN conjunct1, rule_format]
  note lst = c [THEN conjunct2, THEN conjunct2, THEN conjunct2, THEN conjunct2, rule_format]
  show "key_ok s \<Longrightarrow> key_ok t \<Longrightarrow> os_path os s = os_path os t \<Longrightarrow> s = t"
    and "key_ok s \<Longrightarrow> key_ok t \<Longrightarrow> below (os_path os s) (os_path os t) \<longleftrightarrow> below s t"
    using c [THEN conjunct1] by blast+
  show "os_put os k x w = (Inr u, w') \<Longrightarrow> view w' = (view w)(k \<mapsto> x)"
    and "os_put os k x w = (Inl e, w') \<Longrightarrow> k' \<noteq> k \<Longrightarrow> view w' k' = view w k'"
    using put by force+
  show "os_get os k w = (r, w') \<Longrightarrow> view w' = view w"
    and "os_get os k w = (Inr (Inr x), w') \<Longrightarrow> view w k = Some x"
    and "os_get os k w = (Inl (OsNotFound t), w') \<Longrightarrow> view w k = None"
    using get by force+
  show "os_delete os k w = (Inr u, w') \<Longrightarrow> view w' = (view w)(k := None)"
    and "os_delete os k w = (Inl e, w') \<Longrightarrow> k' \<noteq> k \<Longrightarrow> view w' k' = view w k'"
    using del by force+
  show "os_list os p w = (es, w') \<Longrightarrow> view w' = view w"
    and "os_list os p w = (es, w') \<Longrightarrow> Inr k \<in> set es \<Longrightarrow> below p k"
    and "os_list os p w = (es, w') \<Longrightarrow> \<forall>e. Inl e \<notin> set es \<Longrightarrow> below p k \<Longrightarrow> view w k \<noteq> None \<Longrightarrow> Inr k \<in> set es"
    using lst by blast+
qed

section \<open>The adapter is an anchor\<close>

definition rustfs_view :: "'o object_store \<Rightarrow> ('o \<Rightarrow> string \<rightharpoonup> bytes) \<Rightarrow> 'o \<Rightarrow> shard_ref \<rightharpoonup> bytes" where
  "rustfs_view os view w at = (if plain_ref at then view w (rustfs_key os at) else None)"

lemma key_ok_object_key: "plain_ref at \<Longrightarrow> key_ok (object_key at)"
  by (auto simp: key_ok_def split_object_key plain_ref_def plain_id_def)

lemma key_ok_prefix: "plain_id (ns_str ns) \<Longrightarrow> plain_id (blob_str b) \<Longrightarrow> key_ok (ns_str ns @ ''/'' @ blob_str b)"
  by (auto simp: key_ok_def plain_id_def split_on_append split_on_none)

lemma below_prefix:
  assumes "plain_id (ns_str ns)" "plain_id (blob_str b)" "plain_ref at"
  shows "below (ns_str ns @ ''/'' @ blob_str b) (object_key at) \<longleftrightarrow> sr_namespace at = ns \<and> sr_blob_id at = b"
proof
  assume "below (ns_str ns @ ''/'' @ blob_str b) (object_key at)"
  then obtain s where "object_key at = ns_str ns @ ''/'' @ blob_str b @ ''/'' @ s" by (auto simp: below_def)
  then have "split_on (CHR ''/'') (object_key at) = ns_str ns # blob_str b # split_on (CHR ''/'') s"
    using assms(1,2) by (simp add: plain_id_def split_on_append)
  then show "sr_namespace at = ns \<and> sr_blob_id at = b"
    using assms(3) by (auto simp: split_object_key intro: namespace_id.expand blob_id.expand)
next
  assume "sr_namespace at = ns \<and> sr_blob_id at = b"
  then show "below (ns_str ns @ ''/'' @ blob_str b) (object_key at)"
    by (auto simp: below_def object_key_def)
qed

definition got :: "os_error + (os_error + bytes) \<Rightarrow> port_error + bytes" where
  "got x = (case x of Inr res \<Rightarrow> map_sum rustfs_backend id res | Inl (OsNotFound s) \<Rightarrow> Inl NotFound
     | Inl e \<Rightarrow> Inl (rustfs_backend e))"

lemma rustfs_get_eq:
  "rustfs_get_shard os at w = (case os_get os (rustfs_key os at) w of (x, w') \<Rightarrow> (got x, w'))"
  by (simp add: rustfs_get_shard_def got_def io_bind_def io_attempt_def io_lift_def io_throw_def
      split: prod.splits sum.splits os_error.splits)

lemma got_iff: "got x = Inr b \<longleftrightarrow> x = Inr (Inr b)" "got x = Inl NotFound \<longleftrightarrow> (\<exists>s. x = Inl (OsNotFound s))"
  by (auto simp: got_def rustfs_backend_def map_sum_Inl_iff split: sum.splits os_error.splits)

lemma delete_listed_done:
  assumes "store_contract os view" and "delete_listed os es w = (Inr (), w')"
  shows "(\<forall>e. Inl e \<notin> set es) \<and> view w' = (\<lambda>k. if Inr k \<in> set es then None else view w k)"
  using assms(2)
proof (induction es arbitrary: w)
  case (Cons a es)
  then obtain k w1 where a: "a = Inr k" and d: "os_delete os k w = (Inr (), w1)"
    and r: "delete_listed os es w1 = (Inr (), w')"
    by (auto simp: io_inv)
  from Cons.IH [OF r] store_contractD(8) [OF assms(1) d] a show ?case by auto
qed (simp add: io_inv)

lemma delete_listed_failed:
  assumes "store_contract os view" and "delete_listed os es w = (Inl e, w')" and "Inr k \<notin> set es"
  shows "view w' k = view w k"
  using assms(2,3)
proof (induction es arbitrary: w)
  case (Cons a es)
  then consider (Listing) d where "a = Inl d" "w' = w"
    | (Delete) k' d where "a = Inr k'" "os_delete os k' w = (Inl d, w')"
    | (Rest) k' w1 where "a = Inr k'" "os_delete os k' w = (Inr (), w1)" "delete_listed os es w1 = (Inl e, w')"
    by (cases a) (fastforce simp: io_inv map_sum_Inl_iff)+
  then show ?case
  proof cases
    case Delete
    with Cons.prems(2) store_contractD(9) [OF assms(1) Delete(2)] show ?thesis by auto
  next
    case Rest
    with Cons.prems(2) Cons.IH [OF Rest(3)] store_contractD(8) [OF assms(1) Rest(2)] show ?thesis by auto
  qed simp
qed (simp add: io_inv)

lemma rustfs_anchor_laws:
  assumes "store_contract os view"
  shows "anchor_laws (rustfs_blob_anchor os) (rustfs_view os view)"
proof
  note sc = store_contractD [OF assms]
  have inj: "rustfs_key os r = rustfs_key os at \<longleftrightarrow> r = at" if "plain_ref r" "plain_ref at" for r at
    using that sc(1) key_ok_object_key object_key_inj unfolding rustfs_key_def by blast
  note defs = rustfs_blob_anchor_def rustfs_put_shard_def rustfs_get_eq
  show "keeps (rustfs_view os view) (ba_get_shard (rustfs_blob_anchor os) at)" for at
    by (rule keepsI) (auto simp: defs fun_eq_iff rustfs_view_def dest: sc(5) split: prod.splits)
  fix at :: shard_ref and x :: bytes and w w'
  assume at: "plain_ref at"
  show "ba_get_shard (rustfs_blob_anchor os) at w = (Inr x, w') \<Longrightarrow> rustfs_view os view w at = Some x"
    using at by (auto simp: defs got_iff rustfs_view_def dest!: sc(6) split: prod.splits)
  show "ba_get_shard (rustfs_blob_anchor os) at w = (Inl NotFound, w') \<Longrightarrow> rustfs_view os view w at = None"
    using at by (auto simp: defs got_iff rustfs_view_def dest!: sc(7) split: prod.splits)
  show "ba_put_shard (rustfs_blob_anchor os) at x w = (Inr (), w') \<Longrightarrow> rustfs_view os view w' = (rustfs_view os view w)(at \<mapsto> x)"
    using at inj by (auto simp: defs fun_eq_iff rustfs_view_def dest!: sc(3))
  show "rustfs_view os view w' r = rustfs_view os view w r"
    if "ba_put_shard (rustfs_blob_anchor os) at x w = (Inl e, w')" "r \<noteq> at" for r e
    using that at inj sc(4) [of "rustfs_key os at" x w _ w' "rustfs_key os r"] by (auto simp: defs io_inv rustfs_view_def)
next
  note sc = store_contractD [OF assms]
  have pre: "below (blob_prefix os ns b) (rustfs_key os r) \<longleftrightarrow> sr_namespace r = ns \<and> sr_blob_id r = b"
    if "plain_id (ns_str ns)" "plain_id (blob_str b)" "plain_ref r" for ns b r
    using sc(2) [OF key_ok_prefix key_ok_object_key] below_prefix that by (simp add: rustfs_key_def blob_prefix_def)
  fix ns b w w'
  assume p: "plain_id (ns_str ns)" "plain_id (blob_str b)"
  obtain es w1 where l: "os_list os (blob_prefix os ns b) w = (es, w1)" by force
  then have del: "ba_delete_blob (rustfs_blob_anchor os) ns b w = delete_listed os es w1"
    by (simp add: rustfs_blob_anchor_def delete_prefix_def io_simps)
  show "rustfs_view os view w' = drop_blob ns b (rustfs_view os view w)"
    if "ba_delete_blob (rustfs_blob_anchor os) ns b w = (Inr (), w')"
  proof
    fix r
    have d: "\<forall>e. Inl e \<notin> set es" "view w' = (\<lambda>k. if Inr k \<in> set es then None else view w1 k)"
      using delete_listed_done [OF assms that [unfolded del]] by simp_all
    have "view w' (rustfs_key os r) = (if sr_namespace r = ns \<and> sr_blob_id r = b then None else view w (rustfs_key os r))"
      if "plain_ref r"
      using sc(10) [OF l] sc(11) [OF l] sc(12) [OF l d(1), of "rustfs_key os r"] pre [OF p that]
      by (cases "view w (rustfs_key os r)") (auto simp: d(2))
    then show "rustfs_view os view w' r = drop_blob ns b (rustfs_view os view w) r"
      by (simp add: rustfs_view_def drop_blob_def)
  qed
  show "rustfs_view os view w' r = rustfs_view os view w r"
    if "ba_delete_blob (rustfs_blob_anchor os) ns b w = (Inl e, w')" "sr_namespace r \<noteq> ns \<or> sr_blob_id r \<noteq> b" for r e
    using delete_listed_failed [OF assms that(1) [unfolded del]] sc(10) [OF l] sc(11) [OF l] pre [OF p] that(2)
    by (auto simp: rustfs_view_def)
qed

text \<open>
  C23. The production anchor keeps the anchor's contract.  On any object store that behaves as
  documented, shards written through the RustFS adapter are read back, a failed write harms no other
  shard, and deleting a blob removes exactly its shards: everything proved of the use-cases from the
  anchor interface holds on RustFS as well.
\<close>

theorem rustfs_is_anchor:
  assumes "store_contract os view"
  shows "anchor_laws (rustfs_blob_anchor os) (rustfs_view os view)"
  using assms by (rule rustfs_anchor_laws)

text \<open>A bucket held in memory, with the texts themselves as paths.\<close>

definition demo_bucket :: "(string, bytes) alist object_store" where
  "demo_bucket = \<lparr>os_path = id, os_put = (\<lambda>k x w. (Inr (), DAList.update k x w)),
     os_get = (\<lambda>k w. (case DAList.lookup w k of Some x \<Rightarrow> Inr (Inr x) | None \<Rightarrow> Inl (OsNotFound k), w)),
     os_delete = (\<lambda>k w. (Inr (), DAList.delete k w)),
     os_list = (\<lambda>p w. (map Inr (filter (\<lambda>k. take (Suc (length p)) k = p @ ''/'') (map fst (DAList.impl_of w))), w)),
     os_signed_url = (\<lambda>v k ttl w. (Inr k, w))\<rparr>"

lemma below_take: "below p k \<longleftrightarrow> take (Suc (length p)) k = p @ ''/''"
proof
  assume "take (Suc (length p)) k = p @ ''/''"
  then have "k = (p @ ''/'') @ drop (Suc (length p)) k" by (metis append_take_drop_id)
  then show "below p k" unfolding below_def by (metis append_assoc)
qed (auto simp: below_def)

lemma demo_bucket_contract: "store_contract demo_bucket DAList.lookup"
  by (auto simp: store_contract_def demo_bucket_def below_take dom_lookup_alist [unfolded set_map, symmetric] split: option.splits)

theorem rustfs_is_anchor_witness:
  "anchor_laws (rustfs_blob_anchor demo_bucket) (rustfs_view demo_bucket DAList.lookup)"
  by (rule rustfs_is_anchor [OF demo_bucket_contract])

end
