(* ===== verification/Coordinator.thy ===== *)
theory Coordinator
  imports Http_Api Deployment Self_Sovereign Object_Anchor
begin

text \<open>
  The coordinator, \<^verbatim>\<open>bins/coordinator\<close>: its shared state (\<^verbatim>\<open>state.rs\<close>), the handlers of the control
  plane, the metadata plane, the admin plane, enrolment and anchor access (\<^verbatim>\<open>control.rs\<close>, \<^verbatim>\<open>meta.rs\<close>,
  \<^verbatim>\<open>admin.rs\<close>, \<^verbatim>\<open>console.rs\<close>, \<^verbatim>\<open>presign.rs\<close>), and the router with the perimeter in front of every
  route (\<^verbatim>\<open>main.rs\<close>).  Handlers run one after another on the state; within one request no other
  request interferes.
\<close>

section \<open>State (state.rs)\<close>

text \<open>
  The perimeter's part comes first.  \<open>'o\<close> is the state of the object store; clock readings, id bits
  and key seeds are what the environment will answer.
\<close>

record 'o coordinator = perimeter +
  co_meta :: memstore
  co_ca :: cert_authority
  co_names :: name_registry
  co_objects :: 'o
  co_clock :: "nat \<Rightarrow> u64"
  co_ticks :: nat
  co_random :: "nat \<Rightarrow> 128 word"
  co_draws :: nat
  co_seeds :: "nat \<Rightarrow> bytes"
  co_seeded :: nat

text \<open>What is fixed at start-up: the crates, the signing key, the presigner and the two pages.\<close>

record 'o coordinator_app =
  cf_hash :: "bytes \<Rightarrow> string"
  cf_b64 :: b64_engine
  cf_ed :: ed25519_crate
  cf_signing_key :: bytes
  cf_rcgen :: rcgen_crate
  cf_presigner :: "'o object_store option"
  cf_console :: string
  cf_security :: string

definition co_store :: "(memstore, 'a) io \<Rightarrow> ('o coordinator, 'a) io" where
  "co_store m st = (case m (co_meta st) of (r, s) \<Rightarrow> (r, st\<lparr>co_meta := s\<rparr>))"

definition co_metadata :: "'o coordinator metadata_store" where
  "co_metadata =
     \<lparr>ms_register_app = (\<lambda>c. co_store (mem_register_app c)),
      ms_get_contract = (\<lambda>a. co_store (mem_get_contract a)),
      ms_create_namespace = (\<lambda>n. co_store (mem_create_namespace n)),
      ms_get_namespace = (\<lambda>ns. co_store (mem_get_namespace ns)),
      ms_namespace_usage = (\<lambda>ns. co_store (mem_namespace_usage ns)),
      ms_list_namespaces = co_store mem_list_namespaces,
      ms_put_manifest = (\<lambda>m. co_store (mem_put_manifest m)),
      ms_get_manifest = (\<lambda>ns b. co_store (mem_get_manifest ns b)),
      ms_list_blobs = (\<lambda>ns. co_store (mem_list_blobs ns)),
      ms_delete_manifest = (\<lambda>ns b. co_store (mem_delete_manifest ns b))\<rparr>"

definition co_system_clock :: "'o coordinator clock" where
  "co_system_clock = \<lparr>ck_now = (\<lambda>st. (Timestamp (co_clock st (co_ticks st)), st\<lparr>co_ticks := Suc (co_ticks st)\<rparr>))\<rparr>"

definition co_ids :: "'o coordinator id_source" where
  "co_ids = \<lparr>is_new_id = (\<lambda>s st. (s @ ''-'' @ uuid_simple (co_random st (co_draws st)), st\<lparr>co_draws := Suc (co_draws st)\<rparr>))\<rparr>"

text \<open>Fresh key material of the operating system.\<close>

definition co_seed :: "'o coordinator \<Rightarrow> bytes \<times> 'o coordinator" where
  "co_seed st = (co_seeds st (co_seeded st), st\<lparr>co_seeded := Suc (co_seeded st)\<rparr>)"

definition on_names :: "(name_registry, 'a) io \<Rightarrow> ('o coordinator, 'a) io" where
  "on_names m st = (case m (co_names st) of (r, t) \<Rightarrow> (r, st\<lparr>co_names := t\<rparr>))"

definition on_objects :: "('o, 'a) io \<Rightarrow> ('o coordinator, 'a) io" where
  "on_objects m st = (case m (co_objects st) of (r, s) \<Rightarrow> (r, st\<lparr>co_objects := s\<rparr>))"

text \<open>The state at start-up, once the root certificate exists.\<close>

definition coordinator_in_memory ::
  "rcgen_crate \<Rightarrow> bytes \<Rightarrow> 'o \<Rightarrow> (nat \<Rightarrow> u64) \<Rightarrow> (nat \<Rightarrow> 128 word) \<Rightarrow> (nat \<Rightarrow> bytes) \<Rightarrow> port_error + 'o coordinator" where
  "coordinator_in_memory rg seed objects clk rnd seeds =
     map_sum id (\<lambda>ca. \<lparr>pm_responder = responder_defaults, pm_intrusions = [], co_meta = memstore_new, co_ca = ca,
       co_names = registry_new, co_objects = objects, co_clock = clk, co_ticks = 0, co_random = rnd, co_draws = 0,
       co_seeds = seeds, co_seeded = 0\<rparr>) (cert_authority_generate rg seed)"

section \<open>Control plane (control.rs)\<close>

type_synonym 'o endpoint = "body \<Rightarrow> 'o coordinator \<Rightarrow> reply \<times> 'o coordinator"

abbreviation answer :: "('a \<Rightarrow> body) \<Rightarrow> (reply, 'w, 'a) act \<Rightarrow> 'w \<Rightarrow> reply \<times> 'w" where
  "answer \<equiv> respond id"

definition body_json :: "(json \<Rightarrow> 'a option) \<Rightarrow> body \<Rightarrow> (reply, 'w, 'a) act" where
  "body_json dec b = io_lift (extract_json dec b)"

definition co_health :: "'o endpoint" where
  "co_health b st = (Response 200 (TextBody ''ok''), st)"

definition co_protocol :: "'o endpoint" where
  "co_protocol b st = (Response 200 (JsonBody (JObj [(''version'', to_json_version PROTOCOL_CURRENT)])), st)"

definition co_pubkey :: "'o coordinator_app \<Rightarrow> 'o endpoint" where
  "co_pubkey app b st = (Response 200 (JsonBody (to_json_coordinator_key
     \<lparr>ck_public_key_b64 = b64_encode (cf_b64 app) (cs_public_key (ed25519_signer (cf_ed app) (cf_signing_key app)))\<rparr>)), st)"

definition co_register_app :: "'o coordinator_app \<Rightarrow> 'o endpoint" where
  "co_register_app app b = answer (\<lambda>r. JsonBody (to_json_register_app_response r)) (
     io_bind (body_json of_json_register_app_request b) (\<lambda>q.
     io_bind (io_map_err err (register_app_execute co_metadata co_ids (raq_quota q) (raq_retention q) (raq_erasure q))) (\<lambda>contract.
     io_bind (io_read co_seed) (\<lambda>app_key.
     io_return \<lparr>rap_app_id = ac_app_id contract, rap_contract = contract,
       rap_app_signing_public_key_b64 = b64_encode (cf_b64 app) (cs_public_key (ed25519_signer (cf_ed app) app_key))\<rparr>))))"

definition co_create_namespace :: "'o endpoint" where
  "co_create_namespace b = answer (\<lambda>r. JsonBody (to_json_create_namespace_response r)) (
     io_bind (body_json of_json_create_namespace_request b) (\<lambda>q.
     io_bind (io_map_err err (create_namespace_execute co_metadata co_ids (cnq_app_id q))) (\<lambda>n.
     io_return \<lparr>cnp_namespace_id = nsp_id n\<rparr>)))"

definition co_issue_capability :: "'o coordinator_app \<Rightarrow> 'o endpoint" where
  "co_issue_capability app b = answer (\<lambda>r. JsonBody (to_json_issue_capability_response r)) (
     io_bind (body_json of_json_issue_capability_request b) (\<lambda>q.
     io_bind (io_map_err err (issue_capability_execute co_metadata (ed25519_signer (cf_ed app) (cf_signing_key app)) co_ids
       co_system_clock (icq_app_id q) (icq_namespace q) (icq_operation q) (icq_ttl_secs q))) (\<lambda>tok.
     io_return \<lparr>icp_token = tok\<rparr>)))"

section \<open>Metadata plane (meta.rs)\<close>

text \<open>A metadata operation as a handler: its error or its value.\<close>

definition meta_reply :: "('a \<Rightarrow> body) \<Rightarrow> ('w, 'a) io \<Rightarrow> 'w \<Rightarrow> reply \<times> 'w" where
  "meta_reply f m = answer f (io_map_err err m)"

definition cap :: "nat \<Rightarrow> string list \<Rightarrow> string" where
  "cap i caps = (if i < length caps then caps ! i else [])"

definition co_meta_list_namespaces :: "'o endpoint" where
  "co_meta_list_namespaces b =
     meta_reply (\<lambda>ids. JsonBody (to_list (\<lambda>ns. JStr (ns_str ns)) ids)) (ms_list_namespaces co_metadata)"

definition co_meta_get_contract :: "string list \<Rightarrow> 'o endpoint" where
  "co_meta_get_contract caps b =
     meta_reply (\<lambda>c. JsonBody (to_option to_json_contract c)) (ms_get_contract co_metadata (AppId (cap 0 caps)))"

definition co_meta_create_namespace :: "'o endpoint" where
  "co_meta_create_namespace b = answer empty_body (
     io_bind (body_json of_json_namespace b) (\<lambda>n. io_map_err err (ms_create_namespace co_metadata n)))"

definition co_meta_get_namespace :: "string list \<Rightarrow> 'o endpoint" where
  "co_meta_get_namespace caps b =
     meta_reply (\<lambda>n. JsonBody (to_option to_json_namespace n)) (ms_get_namespace co_metadata (NamespaceId (cap 0 caps)))"

definition co_meta_namespace_usage :: "string list \<Rightarrow> 'o endpoint" where
  "co_meta_namespace_usage caps b =
     meta_reply (\<lambda>u. JsonBody (to_json_usage u)) (ms_namespace_usage co_metadata (NamespaceId (cap 0 caps)))"

definition co_meta_put_manifest :: "'o endpoint" where
  "co_meta_put_manifest b = answer empty_body (
     io_bind (body_json of_json_manifest b) (\<lambda>m. io_map_err err (ms_put_manifest co_metadata m)))"

definition co_meta_get_manifest :: "string list \<Rightarrow> 'o endpoint" where
  "co_meta_get_manifest caps b = meta_reply (\<lambda>m. JsonBody (to_option to_json_manifest m))
     (ms_get_manifest co_metadata (NamespaceId (cap 0 caps)) (BlobId (cap 1 caps)))"

definition co_meta_list_blobs :: "string list \<Rightarrow> 'o endpoint" where
  "co_meta_list_blobs caps b = meta_reply (\<lambda>bs. JsonBody (to_list (\<lambda>x. JStr (blob_str x)) bs))
     (ms_list_blobs co_metadata (NamespaceId (cap 0 caps)))"

record set_name_request =
  sn_name_enc :: string
  sn_object_id :: "string option"

definition of_json_set_name_request :: "json \<Rightarrow> set_name_request option" where
  "of_json_set_name_request = of_object (\<lambda>fs. do {
     n \<leftarrow> required ''name_enc'' of_str fs;
     oid \<leftarrow> defaulted ''object_id'' None (of_option of_str) fs;
     Some \<lparr>sn_name_enc = n, sn_object_id = oid\<rparr> })"

text \<open>Two operations of the store: the manifest is read, changed and written back whole.\<close>

definition co_meta_set_manifest_name :: "string list \<Rightarrow> 'o endpoint" where
  "co_meta_set_manifest_name caps b = answer empty_body (
     io_bind (body_json of_json_set_name_request b) (\<lambda>q.
     io_bind (io_map_err err (ms_get_manifest co_metadata (NamespaceId (cap 0 caps)) (BlobId (cap 1 caps)))) (\<lambda>found.
     io_bind (io_lift (ok_or (err NotFound) found)) (\<lambda>m.
     (let m1 = m\<lparr>mf_name_enc := Some (sn_name_enc q)\<rparr>;
          m2 = (if sn_object_id q \<noteq> None then m1\<lparr>mf_object_id := sn_object_id q\<rparr> else m1)
      in io_map_err err (ms_put_manifest co_metadata m2))))))"

definition co_meta_delete_manifest :: "string list \<Rightarrow> 'o endpoint" where
  "co_meta_delete_manifest caps b =
     meta_reply empty_body (ms_delete_manifest co_metadata (NamespaceId (cap 0 caps)) (BlobId (cap 1 caps)))"

section \<open>Admin plane (admin.rs)\<close>

definition to_json_intrusion :: "intrusion_record \<Rightarrow> json" where
  "to_json_intrusion r = JObj [(''source_ip'', JStr (ir_source_ip r)), (''ja3'', to_option JStr (ir_ja3 r)),
     (''attack_class'', JStr (ir_attack_class r)), (''rejection_reason'', JStr (ir_rejection_reason r)),
     (''at_millis'', to_word (ir_at_millis r))]"

definition to_json_ledger_entry :: "ledger_entry \<Rightarrow> json" where
  "to_json_ledger_entry e = JObj [(''seq'', to_word (le_seq e)), (''record'', to_json_intrusion (le_record e)),
     (''prev_hash'', JStr (le_prev_hash e)), (''hash'', JStr (le_hash e))]"

text \<open>\<^verbatim>\<open>blocked()\<close> lists the hash set in some order; \<open>order\<close> is that order.\<close>

definition co_intrusions :: "'o coordinator_app \<Rightarrow> (string set \<Rightarrow> string list) \<Rightarrow> 'o endpoint" where
  "co_intrusions app order b st = (Response 200 (JsonBody (JObj [
     (''entries'', to_list to_json_ledger_entry (pm_intrusions st)),
     (''chain_valid'', JBool (ledger_verify (cf_hash app) (pm_intrusions st))),
     (''blocked'', to_list JStr (order (rsp_blocked (pm_responder st))))])), st)"

record simulate_request =
  sq_fingerprint :: "string option"
  sq_strikes :: "u32 option"

definition of_json_simulate_request :: "json \<Rightarrow> simulate_request option" where
  "of_json_simulate_request = of_object (\<lambda>fs. do {
     f \<leftarrow> defaulted ''fingerprint'' None (of_option of_str) fs;
     n \<leftarrow> defaulted ''strikes'' None (of_option of_word) fs;
     Some \<lparr>sq_fingerprint = f, sq_strikes = n\<rparr> })"

definition clamp_strikes :: "u32 \<Rightarrow> u32" where
  "clamp_strikes n = (if n < 1 then 1 else if 20 < n then 20 else n)"

definition simulated_record :: "string \<Rightarrow> threat_decision \<Rightarrow> u64 \<Rightarrow> intrusion_record" where
  "simulated_record fp decision now = \<lparr>ir_source_ip = fp, ir_ja3 = Some fp, ir_attack_class = ''authorization_violation'',
     ir_rejection_reason = ''simulated attack; decision='' @ show_decision decision, ir_at_millis = now\<rparr>"

fun simulate_strikes ::
  "(bytes \<Rightarrow> string) \<Rightarrow> string \<Rightarrow> u64 \<Rightarrow> nat \<Rightarrow> string list \<Rightarrow> 'o coordinator \<Rightarrow> string list \<times> 'o coordinator" where
  "simulate_strikes hash fp now 0 decisions st = (decisions, st)"
| "simulate_strikes hash fp now (Suc n) decisions st =
     (case assess fp ''authorization_violation'' (pm_responder st) of (decision, rsp) \<Rightarrow>
      simulate_strikes hash fp now n (decisions @ [show_decision decision])
        (record_intrusion hash (simulated_record fp decision now) (st\<lparr>pm_responder := rsp\<rparr>)))"

definition co_perimeter_simulate :: "'o coordinator_app \<Rightarrow> 'o endpoint" where
  "co_perimeter_simulate app b = answer (\<lambda>(fp, n, blocked, decisions). JsonBody (JObj [(''fingerprint'', JStr fp),
       (''strikes'', to_word n), (''blocked'', JBool blocked), (''decisions'', to_list JStr decisions)])) (
     io_bind (body_json of_json_simulate_request b) (\<lambda>q.
     io_bind (case sq_fingerprint q of
         Some s \<Rightarrow> if trim s \<noteq> [] then io_return s else io_read (is_new_id co_ids ''sim-attacker'')
       | None \<Rightarrow> io_read (is_new_id co_ids ''sim-attacker'')) (\<lambda>fp.
     (let n = clamp_strikes (case sq_strikes q of Some n \<Rightarrow> n | None \<Rightarrow> 3) in
      io_bind (io_read (ck_now co_system_clock)) (\<lambda>now.
      io_bind (io_read (simulate_strikes (cf_hash app) fp (as_millis now) (unat n) [])) (\<lambda>decisions.
      io_bind (io_read (\<lambda>st. (is_blocked (pm_responder st) fp, st))) (\<lambda>blocked.
      io_return (fp, n, blocked, decisions))))))))"

definition co_status :: "'o coordinator_app \<Rightarrow> 'o endpoint" where
  "co_status app b = answer JsonBody (
     io_bind (io_map_err err (ms_list_namespaces co_metadata)) (\<lambda>nss.
     io_read (\<lambda>st. (JObj [(''protocol_version'', JStr (show_protocol_version PROTOCOL_CURRENT)),
       (''namespaces'', JNum (int (length nss))), (''intrusion_count'', JNum (int (length (pm_intrusions st)))),
       (''intrusion_chain_valid'', JBool (ledger_verify (cf_hash app) (pm_intrusions st))),
       (''blocked_fingerprints'', JNum (int (card (rsp_blocked (pm_responder st)))))], st))))"

definition to_json_usage_statement :: "usage_statement \<Rightarrow> json" where
  "to_json_usage_statement s = JObj [(''app_id'', JStr (app_str (us_app_id s))),
     (''lines'', to_list (\<lambda>l. JObj [(''namespace'', JStr (ns_str (nl_namespace l))), (''bytes'', to_word (nl_bytes l)),
       (''objects'', to_word (nl_objects l))]) (us_lines s)),
     (''total_bytes'', to_word (us_total_bytes s)), (''total_objects'', to_word (us_total_objects s)),
     (''quota_max_bytes'', to_word (us_quota_max_bytes s)),
     (''estimated_cost_micros'', to_word (us_estimated_cost_micros s))]"

definition co_usage :: "string list \<Rightarrow> 'o endpoint" where
  "co_usage caps b = meta_reply (\<lambda>s. JsonBody (to_json_usage_statement s)) (usage_report_execute co_metadata (AppId (cap 0 caps)))"

definition co_ca_root :: "'o coordinator_app \<Rightarrow> 'o endpoint" where
  "co_ca_root app b st = (Response 200 (TextBody (root_pem (cf_rcgen app) (co_ca st))), st)"

text \<open>An action of the authority that draws a fresh key pair.\<close>

definition on_ca :: "(bytes \<Rightarrow> cert_authority \<Rightarrow> port_error + 'a) \<Rightarrow> ('o coordinator, 'a) io" where
  "on_ca f st = (case co_seed st of (seed, st') \<Rightarrow> (f seed (co_ca st'), st'))"

definition of_json_issue_leaf_request :: "json \<Rightarrow> string option" where
  "of_json_issue_leaf_request = of_object (required ''subject'' of_str)"

definition co_ca_issue :: "'o coordinator_app \<Rightarrow> 'o endpoint" where
  "co_ca_issue app b = answer (\<lambda>pem. JsonBody (JObj [(''pem'', JStr pem)])) (
     io_bind (body_json of_json_issue_leaf_request b) (\<lambda>subject.
     io_bind (io_map_err err (on_ca (\<lambda>seed. issue_leaf (cf_rcgen app) seed subject))) (\<lambda>bs.
     case from_utf8 bs of
       Some pem \<Rightarrow> io_return pem
     | None \<Rightarrow> io_throw (err (Crypto ''invalid utf-8 sequence'')))))"

definition of_json_publish_name :: "json \<Rightarrow> (string \<times> string) option" where
  "of_json_publish_name = of_object (\<lambda>fs. do {
     n \<leftarrow> required ''name'' of_str fs;
     ip \<leftarrow> required ''current_ip'' of_str fs;
     Some (n, ip) })"

definition co_naming_publish :: "'o endpoint" where
  "co_naming_publish b = answer empty_body (
     io_bind (body_json of_json_publish_name b) (\<lambda>(n, ip). io_map_err err (on_names (name_publish n ip))))"

definition co_naming_resolve :: "string list \<Rightarrow> 'o endpoint" where
  "co_naming_resolve caps b =
     meta_reply (\<lambda>ip. JsonBody (JObj [(''current_ip'', JStr ip)])) (on_names (name_resolve (cap 0 caps)))"

section \<open>Enrolment (console.rs)\<close>

definition co_console :: "'o coordinator_app \<Rightarrow> 'o endpoint" where
  "co_console app b st = (Response 200 (TextBody (cf_console app)), st)"

definition co_security :: "'o coordinator_app \<Rightarrow> 'o endpoint" where
  "co_security app b st = (Response 200 (TextBody (cf_security app)), st)"

record enroll_request =
  en_label :: string
  en_quota_bytes :: "u64 option"
  en_max_objects :: "u64 option"
  en_keep_versions :: "u32 option"
  en_min_days :: "u32 option"
  en_erasure_k :: "u8 option"
  en_erasure_n :: "u8 option"

definition of_json_enroll_request :: "json \<Rightarrow> enroll_request option" where
  "of_json_enroll_request = of_object (\<lambda>fs. do {
     l \<leftarrow> defaulted ''label'' [] of_str fs;
     qb \<leftarrow> defaulted ''quota_bytes'' None (of_option of_word) fs;
     mo \<leftarrow> defaulted ''max_objects'' None (of_option of_word) fs;
     kv \<leftarrow> defaulted ''keep_versions'' None (of_option of_word) fs;
     md \<leftarrow> defaulted ''min_days'' None (of_option of_word) fs;
     k \<leftarrow> defaulted ''erasure_k'' None (of_option of_word) fs;
     n \<leftarrow> defaulted ''erasure_n'' None (of_option of_word) fs;
     Some \<lparr>en_label = l, en_quota_bytes = qb, en_max_objects = mo, en_keep_versions = kv, en_min_days = md,
       en_erasure_k = k, en_erasure_n = n\<rparr> })"

definition unwrap_or :: "'a \<Rightarrow> 'a option \<Rightarrow> 'a" where
  "unwrap_or d x = (case x of Some a \<Rightarrow> a | None \<Rightarrow> d)"

record enroll_response =
  ep_label :: string
  ep_app_id :: string
  ep_namespace :: string
  ep_client_cert_pem :: string
  ep_client_key_pem :: string
  ep_ca_root_pem :: string
  ep_quota_bytes :: u64
  ep_max_objects :: u64
  ep_keep_versions :: u32
  ep_min_days :: u32
  ep_erasure_k :: u8
  ep_erasure_n :: u8

definition to_json_enroll_response :: "enroll_response \<Rightarrow> json" where
  "to_json_enroll_response r = JObj [(''label'', JStr (ep_label r)), (''app_id'', JStr (ep_app_id r)),
     (''namespace'', JStr (ep_namespace r)), (''client_cert_pem'', JStr (ep_client_cert_pem r)),
     (''client_key_pem'', JStr (ep_client_key_pem r)), (''ca_root_pem'', JStr (ep_ca_root_pem r)),
     (''quota_bytes'', to_word (ep_quota_bytes r)), (''max_objects'', to_word (ep_max_objects r)),
     (''keep_versions'', to_word (ep_keep_versions r)), (''min_days'', to_word (ep_min_days r)),
     (''erasure_k'', to_word (ep_erasure_k r)), (''erasure_n'', to_word (ep_erasure_n r))]"

definition enroll_label :: "enroll_request \<Rightarrow> string" where
  "enroll_label q = (if trim (en_label q) = [] then ''node'' else trim (en_label q))"

definition enroll_execute :: "'o coordinator_app \<Rightarrow> enroll_request \<Rightarrow> ('o coordinator, enroll_response) io" where
  "enroll_execute app q =
     (let label = enroll_label q;
          quota = \<lparr>q_max_bytes = unwrap_or (2 ^ 30) (en_quota_bytes q), q_max_objects = unwrap_or 10000 (en_max_objects q)\<rparr>;
          retention = \<lparr>rp_keep_versions = unwrap_or 3 (en_keep_versions q), rp_min_days = unwrap_or 30 (en_min_days q)\<rparr>
      in io_bind (io_lift (map_sum DomainErr id
           (erasure_params_new (unwrap_or 4 (en_erasure_k q)) (unwrap_or 6 (en_erasure_n q))))) (\<lambda>erasure.
      io_bind (register_app_execute co_metadata co_ids quota retention erasure) (\<lambda>contract.
      io_bind (create_namespace_execute co_metadata co_ids (ac_app_id contract)) (\<lambda>ns.
      io_bind (on_ca (\<lambda>seed. issue_client (cf_rcgen app) seed label)) (\<lambda>identity.
      io_read (\<lambda>st. (\<lparr>ep_label = label, ep_app_id = app_str (ac_app_id contract), ep_namespace = ns_str (nsp_id ns),
        ep_client_cert_pem = ci_cert_pem identity, ep_client_key_pem = ci_key_pem identity,
        ep_ca_root_pem = root_pem (cf_rcgen app) (co_ca st), ep_quota_bytes = q_max_bytes (ac_quota contract),
        ep_max_objects = q_max_objects (ac_quota contract), ep_keep_versions = rp_keep_versions (ac_retention contract),
        ep_min_days = rp_min_days (ac_retention contract), ep_erasure_k = ep_k (ac_erasure contract),
        ep_erasure_n = ep_n (ac_erasure contract)\<rparr>, st)))))))"

definition co_enroll :: "'o coordinator_app \<Rightarrow> 'o endpoint" where
  "co_enroll app b = answer (\<lambda>r. JsonBody (to_json_enroll_response r)) (
     io_bind (body_json of_json_enroll_request b) (\<lambda>q. io_map_err err (enroll_execute app q)))"

section \<open>Anchor access (presign.rs)\<close>

definition PRESIGN_TTL_SECS :: u64 where
  "PRESIGN_TTL_SECS = 300"

definition no_store :: reply where
  "no_store = err (Unavailable ''presign: no object store configured (set VAULT_S3_*)'')"

definition co_presign :: "'o coordinator_app \<Rightarrow> 'o endpoint" where
  "co_presign app b = answer (\<lambda>r. JsonBody (to_json_presign_response r)) (
     io_bind (body_json of_json_presign_request b) (\<lambda>q.
     io_bind (io_lift (ok_or no_store (cf_presigner app))) (\<lambda>presigner.
     (let at = shard_ref_new (psq_namespace q) (psq_blob_id q) (psq_index q);
          meth = (case psq_op q of PresignPut \<Rightarrow> PUT | PresignGet \<Rightarrow> GET)
      in io_bind (io_map_err err (on_objects (presigner_presign presigner meth at PRESIGN_TTL_SECS))) (\<lambda>url.
      io_return \<lparr>psp_url = url, psp_expires_secs = PRESIGN_TTL_SECS\<rparr>)))))"

definition co_delete_blob :: "'o coordinator_app \<Rightarrow> 'o endpoint" where
  "co_delete_blob app b = answer empty_body (
     io_bind (body_json of_json_delete_blob_request b) (\<lambda>q.
     io_bind (io_lift (ok_or no_store (cf_presigner app))) (\<lambda>presigner.
     io_map_err err (on_objects (presigner_delete_blob presigner (dbq_namespace q) (dbq_blob_id q))))))"

section \<open>The router (main.rs)\<close>

text \<open>\<open>order\<close> is the order in which the blocklist's hash set is listed.\<close>

definition coordinator_routes :: "'o coordinator_app \<Rightarrow> (string set \<Rightarrow> string list) \<Rightarrow> (reply, 'o coordinator) routes" where
  "coordinator_routes app order =
     [([Lit []], [(GET, \<lambda>_. co_console app)]),
      ([Lit ''security''], [(GET, \<lambda>_. co_security app)]),
      ([Lit ''v1'', Lit ''admin'', Lit ''enroll''], [(POST, \<lambda>_. co_enroll app)]),
      ([Lit ''health''], [(GET, \<lambda>_. co_health)]),
      ([Lit ''v1'', Lit ''protocol''], [(GET, \<lambda>_. co_protocol)]),
      ([Lit ''v1'', Lit ''coordinator'', Lit ''pubkey''], [(GET, \<lambda>_. co_pubkey app)]),
      ([Lit ''v1'', Lit ''apps''], [(POST, \<lambda>_. co_register_app app)]),
      ([Lit ''v1'', Lit ''namespaces''], [(POST, \<lambda>_. co_create_namespace)]),
      ([Lit ''v1'', Lit ''capabilities''], [(POST, \<lambda>_. co_issue_capability app)]),
      ([Lit ''v1'', Lit ''meta'', Lit ''contracts'', Cap], [(GET, co_meta_get_contract)]),
      ([Lit ''v1'', Lit ''meta'', Lit ''namespaces''],
        [(POST, \<lambda>_. co_meta_create_namespace), (GET, \<lambda>_. co_meta_list_namespaces)]),
      ([Lit ''v1'', Lit ''meta'', Lit ''namespaces'', Cap], [(GET, co_meta_get_namespace)]),
      ([Lit ''v1'', Lit ''meta'', Lit ''namespaces'', Cap, Lit ''usage''], [(GET, co_meta_namespace_usage)]),
      ([Lit ''v1'', Lit ''meta'', Lit ''namespaces'', Cap, Lit ''blobs''], [(GET, co_meta_list_blobs)]),
      ([Lit ''v1'', Lit ''meta'', Lit ''manifests''], [(POST, \<lambda>_. co_meta_put_manifest)]),
      ([Lit ''v1'', Lit ''meta'', Lit ''namespaces'', Cap, Lit ''manifests'', Cap], [(GET, co_meta_get_manifest)]),
      ([Lit ''v1'', Lit ''meta'', Lit ''namespaces'', Cap, Lit ''manifests'', Cap, Lit ''name''],
        [(POST, co_meta_set_manifest_name)]),
      ([Lit ''v1'', Lit ''meta'', Lit ''namespaces'', Cap, Lit ''manifests'', Cap, Lit ''delete''],
        [(POST, co_meta_delete_manifest)]),
      ([Lit ''v1'', Lit ''admin'', Lit ''status''], [(GET, \<lambda>_. co_status app)]),
      ([Lit ''v1'', Lit ''admin'', Lit ''intrusions''], [(GET, \<lambda>_. co_intrusions app order)]),
      ([Lit ''v1'', Lit ''admin'', Lit ''perimeter'', Lit ''simulate''], [(POST, \<lambda>_. co_perimeter_simulate app)]),
      ([Lit ''v1'', Lit ''usage'', Cap], [(GET, co_usage)]),
      ([Lit ''v1'', Lit ''anchor'', Lit ''presign''], [(POST, \<lambda>_. co_presign app)]),
      ([Lit ''v1'', Lit ''anchor'', Lit ''delete-blob''], [(POST, \<lambda>_. co_delete_blob app)]),
      ([Lit ''v1'', Lit ''ca'', Lit ''root''], [(GET, \<lambda>_. co_ca_root app)]),
      ([Lit ''v1'', Lit ''admin'', Lit ''ca'', Lit ''leaf''], [(POST, \<lambda>_. co_ca_issue app)]),
      ([Lit ''v1'', Lit ''naming''], [(POST, \<lambda>_. co_naming_publish)]),
      ([Lit ''v1'', Lit ''naming'', Cap], [(GET, co_naming_resolve)])]"

definition blocked_body :: body where
  "blocked_body = JsonBody (to_json_wire_error \<lparr>we_code = ''blocked'', we_message = ''fingerprint is blocked''\<rparr>)"

text \<open>The perimeter reads the clock, and then stands in front of every route.\<close>

definition coordinator_router ::
  "'o coordinator_app \<Rightarrow> (string set \<Rightarrow> string list) \<Rightarrow> request \<Rightarrow> 'o coordinator \<Rightarrow> reply \<times> 'o coordinator" where
  "coordinator_router app order q st =
     (case ck_now co_system_clock st of (now, st1) \<Rightarrow>
      perimeter_guard (cf_hash app) blocked_body
        (dispatch id (coordinator_routes app order) (hr_verb q) (path_segments (hr_path q)) (hr_body q))
        (hr_fingerprint q) (hr_path q) (as_millis now) st1)"

end
