(* ===== verification/Coordinator_Runs.thy ===== *)
theory Coordinator_Runs
  imports Coordinator "HOL-Library.Sublist"
begin

text \<open>
  Runs of the coordinator: sequences of requests served from the state at start-up.  The lemmas show
  what each handler leaves alone and how the perimeter evolves over a run; the properties connect the
  blocklist to the ledger and state what enrolment does.
\<close>

section \<open>The perimeter over a run\<close>

text \<open>The footprints that count as strikes: all but those of callers already blocked.\<close>

definition offences :: "ledger_entry list \<Rightarrow> (string \<times> string) list" where
  "offences es = map (\<lambda>e. (ir_source_ip (le_record e), ir_attack_class (le_record e)))
     (filter (\<lambda>e. ir_attack_class (le_record e) \<noteq> ''blocked_fingerprint'') es)"

definition audited :: "(bytes \<Rightarrow> string) \<Rightarrow> 'a perimeter_scheme \<Rightarrow> bool" where
  "audited hash st \<longleftrightarrow> ledger_verify hash (pm_intrusions st) \<and> pm_responder st = responder_run 3 (offences (pm_intrusions st))"

text \<open>How the perimeter may change: audits stay valid, nothing is unblocked, no footprint is lost.\<close>

definition evolves :: "(bytes \<Rightarrow> string) \<Rightarrow> 'a perimeter_scheme \<Rightarrow> 'a perimeter_scheme \<Rightarrow> bool" where
  "evolves hash st st' \<longleftrightarrow> (audited hash st \<longrightarrow> audited hash st') \<and>
     rsp_blocked (pm_responder st) \<subseteq> rsp_blocked (pm_responder st') \<and> prefix (pm_intrusions st) (pm_intrusions st')"

lemma evolves_refl [simp]: "evolves hash st st"
  by (simp add: evolves_def)

lemma evolves_trans: "evolves hash st1 st2 \<Longrightarrow> evolves hash st2 st3 \<Longrightarrow> evolves hash st1 st3"
  using prefix_order.trans by (auto simp: evolves_def)

lemma evolves_same:
  "pm_responder st' = pm_responder st \<Longrightarrow> pm_intrusions st' = pm_intrusions st \<Longrightarrow> evolves hash st st'"
  by (simp add: evolves_def audited_def)

lemma offences_append: "offences (ledger_append hash r es) =
    offences es @ (if ir_attack_class r = ''blocked_fingerprint'' then [] else [(ir_source_ip r, ir_attack_class r)])"
  by (simp add: offences_def ledger_append_def Let_def)

lemma prefix_ledger_append: "prefix es (ledger_append hash r es)"
  by (simp add: ledger_append_def Let_def)

lemma assess_blocks_more: "rsp_blocked r \<subseteq> rsp_blocked (snd (assess fp cls r))"
  by (auto simp: assess_def Let_def)

lemma responder_run_snoc: "snd (assess fp cls (responder_run n calls)) = responder_run n (calls @ [(fp, cls)])"
  by (simp add: responder_run_def)

text \<open>The two ways a footprint is written.\<close>

lemma evolves_footprint:
  assumes "ir_attack_class r = ''blocked_fingerprint''"
  shows "evolves hash st (record_intrusion hash r st)"
  using assms ledger_append_verifies by (auto simp: evolves_def audited_def record_intrusion_def offences_append prefix_ledger_append)

lemma evolves_strike:
  assumes "assess fp cls (pm_responder st) = (d, rsp)" and "ir_source_ip r = fp" and "ir_attack_class r = cls"
    and "cls \<noteq> ''blocked_fingerprint''"
  shows "evolves hash st (record_intrusion hash r (st\<lparr>pm_responder := rsp\<rparr>))"
proof -
  have "rsp = snd (assess fp cls (pm_responder st))" by (simp add: assms(1))
  then show ?thesis
    using assms(2-4) assess_blocks_more ledger_append_verifies
    by (auto simp: evolves_def audited_def record_intrusion_def offences_append prefix_ledger_append responder_run_snoc)
qed

lemma classify_strike: "classify status \<noteq> ''blocked_fingerprint''"
  by (simp add: classify_def)

lemma evolves_guard:
  assumes "\<And>st. evolves hash st (snd (next_run st))"
  shows "evolves hash st (snd (perimeter_guard hash body next_run header path now st))"
proof -
  obtain resp st1 where n: "next_run st = (resp, st1)" by force
  with assms [of st] have next_ok: "evolves hash st st1" by simp
  obtain d rsp where a: "assess (fingerprint header) (classify (resp_status resp)) (pm_responder st1) = (d, rsp)" by force
  note strike = evolves_trans [OF next_ok evolves_strike [OF a _ _ classify_strike]]
  show ?thesis
    using next_ok n a by (auto simp: perimeter_guard_def Let_def intro!: evolves_footprint strike)
qed

section \<open>The handlers and the perimeter\<close>

text \<open>What the handlers leave alone: the perimeter, and what the clock will read.\<close>

abbreviation perim :: "'o coordinator \<Rightarrow> responder \<times> ledger_entry list \<times> (nat \<Rightarrow> u64)" where
  "perim st \<equiv> (pm_responder st, pm_intrusions st, co_clock st)"

lemma keeps_respond [frame_rules]: "keeps v m \<Longrightarrow> keeps v (respond lift f m)"
  by (simp add: keeps_def respond_def split: prod.splits sum.splits) (metis snd_conv)

lemma keeps_co [frame_rules]:
  "keeps perim (co_store m)" "keeps perim (is_new_id co_ids s)" "keeps perim (ck_now co_system_clock)"
  "keeps perim co_seed" "keeps perim (on_names m2)" "keeps perim (on_objects m3)" "keeps perim (on_ca f)"
  by (simp_all add: keeps_def co_store_def co_ids_def co_system_clock_def co_seed_def on_names_def on_objects_def
      on_ca_def split: prod.splits)

lemma keeps_metadata [frame_rules]:
  "keeps perim (ms_register_app co_metadata c)" "keeps perim (ms_get_contract co_metadata a)"
  "keeps perim (ms_create_namespace co_metadata n)" "keeps perim (ms_get_namespace co_metadata ns)"
  "keeps perim (ms_namespace_usage co_metadata ns)" "keeps perim (ms_list_namespaces co_metadata)"
  "keeps perim (ms_put_manifest co_metadata m)" "keeps perim (ms_get_manifest co_metadata ns b)"
  "keeps perim (ms_list_blobs co_metadata ns)" "keeps perim (ms_delete_manifest co_metadata ns b)"
  by (simp_all add: co_metadata_def keeps_co)

lemma keeps_co_nonce [frame_rules]: "keeps perim (new_nonce co_ids)"
  by (simp add: keeps_def new_nonce_def co_ids_def split: prod.splits)

lemma keeps_usage_lines [frame_rules]: "keeps perim (usage_lines co_metadata app nss ls tb tob)"
  by (induction nss arbitrary: ls tb tob) (auto intro!: frame_rules split: option.splits)

lemma keeps_use_cases [frame_rules]:
  "keeps perim (register_app_execute co_metadata co_ids q ret er)"
  "keeps perim (create_namespace_execute co_metadata co_ids app)"
  "keeps perim (issue_capability_execute co_metadata signer co_ids co_system_clock app ns oper ttl)"
  "keeps perim (usage_report_execute co_metadata app)"
  by (auto simp: register_app_execute_def create_namespace_execute_def issue_capability_execute_def
      usage_report_execute_def Let_def intro!: frame_rules split: prod.splits)

lemma keeps_peek [frame_rules]: "keeps v (\<lambda>st. (f st, st))"
  by (simp add: keeps_def)

lemma keeps_enroll [frame_rules]: "keeps perim (enroll_execute app q)"
  unfolding enroll_execute_def Let_def by (intro frame_rules)

lemma keeps_body_json [frame_rules]: "keeps v (body_json dec b)"
  by (simp add: body_json_def)

lemma keeps_endpoints:
  "keeps perim (co_console app b)" "keeps perim (co_security app b)" "keeps perim (co_health b)" "keeps perim (co_protocol b)"
  "keeps perim (co_pubkey app b)" "keeps perim (co_intrusions app order b)" "keeps perim (co_ca_root app b)"
  by (simp_all add: keeps_def co_console_def co_security_def co_health_def co_protocol_def co_pubkey_def
      co_intrusions_def co_ca_root_def)

lemma keeps_control_endpoints:
  "keeps perim (co_register_app app b)" "keeps perim (co_create_namespace b)" "keeps perim (co_issue_capability app b)"
  "keeps perim (co_enroll app b)" "keeps perim (co_status app b)" "keeps perim (co_usage caps b)"
  unfolding co_register_app_def co_create_namespace_def co_issue_capability_def co_enroll_def co_status_def
    co_usage_def meta_reply_def
  by (intro frame_rules)+

lemma keeps_meta_endpoints:
  "keeps perim (co_meta_list_namespaces b)" "keeps perim (co_meta_get_contract caps b)"
  "keeps perim (co_meta_create_namespace b)" "keeps perim (co_meta_get_namespace caps b)"
  "keeps perim (co_meta_namespace_usage caps b)" "keeps perim (co_meta_put_manifest b)"
  "keeps perim (co_meta_get_manifest caps b)" "keeps perim (co_meta_list_blobs caps b)"
  "keeps perim (co_meta_set_manifest_name caps b)" "keeps perim (co_meta_delete_manifest caps b)"
  unfolding co_meta_list_namespaces_def co_meta_get_contract_def co_meta_create_namespace_def co_meta_get_namespace_def
    co_meta_namespace_usage_def co_meta_put_manifest_def co_meta_get_manifest_def co_meta_list_blobs_def
    co_meta_set_manifest_name_def co_meta_delete_manifest_def meta_reply_def Let_def
  by (intro frame_rules)+

lemma keeps_from_utf8: "keeps v (case from_utf8 bs of Some pem \<Rightarrow> io_return pem | None \<Rightarrow> io_throw e)"
  by (simp split: option.splits)

lemma keeps_other_endpoints:
  "keeps perim (co_presign app b)" "keeps perim (co_delete_blob app b)" "keeps perim (co_ca_issue app b)"
  "keeps perim (co_naming_publish b)" "keeps perim (co_naming_resolve caps b)"
  unfolding co_presign_def co_delete_blob_def co_ca_issue_def co_naming_publish_def co_naming_resolve_def
    meta_reply_def Let_def split_beta
  by (intro frame_rules keeps_from_utf8)+

text \<open>Only a drill touches the perimeter itself, and it does so as real offences would.\<close>

lemma simulate_evolves: "evolves hash st (snd (simulate_strikes hash fp now n ds st))"
proof (induction n arbitrary: ds st)
  case (Suc n)
  obtain d rsp where a: "assess fp ''authorization_violation'' (pm_responder st) = (d, rsp)" by force
  have "evolves hash st (record_intrusion hash (simulated_record fp d now) (st\<lparr>pm_responder := rsp\<rparr>))"
    by (rule evolves_strike [OF a]) (simp_all add: simulated_record_def)
  from evolves_trans [OF this Suc.IH] show ?case by (simp add: a)
qed simp

lemma simulate_responder:
  "pm_responder st = responder_run k calls \<Longrightarrow> pm_responder (snd (simulate_strikes hash fp now n ds st)) =
     responder_run k (calls @ replicate n (fp, ''authorization_violation''))"
proof (induction n arbitrary: ds st calls)
  case (Suc n)
  then show ?case
    using responder_run_snoc [of fp "''authorization_violation''" k calls]
    by (simp add: record_intrusion_def split_beta Suc.IH [of _ "calls @ [(fp, ''authorization_violation'')]"])
qed simp

lemma evolves_keeps: "keeps perim m \<Longrightarrow> evolves hash st (snd (m st))"
  by (intro evolves_same) (simp_all add: keeps_def)

lemma evolves_bind:
  assumes "\<And>st. evolves hash st (snd (m st))" and "\<And>a st. evolves hash st (snd (f a st))"
  shows "evolves hash st (snd (io_bind m f st))"
proof (cases "m st")
  case (Pair r st1)
  have "evolves hash st st1" using assms(1) [of st] by (simp add: Pair)
  then show ?thesis
    using evolves_trans [OF _ assms(2)] by (cases r) (auto simp: io_bind_def Pair)
qed

lemma evolves_respond: "(\<And>st. evolves hash st (snd (m st))) \<Longrightarrow> evolves hash st (snd (respond lift f m st))"
  by (cases "m st"; cases "fst (m st)") (auto simp: respond_def, (metis snd_conv)+)

lemma evolves_read: "evolves hash st (snd (g st)) \<Longrightarrow> evolves hash st (snd (io_read g st))"
  by (simp add: io_read_def split_beta)

lemma evolves_drill: "evolves (cf_hash app) st (snd (co_perimeter_simulate app b st))"
proof -
  have id: "keeps perim (case f of Some s \<Rightarrow> if trim s \<noteq> [] then io_return s else io_read (is_new_id co_ids ''sim-attacker'')
      | None \<Rightarrow> io_read (is_new_id co_ids ''sim-attacker''))" for f
    by (auto intro!: frame_rules split: option.splits)
  show ?thesis
    unfolding co_perimeter_simulate_def Let_def
    by (intro evolves_respond evolves_bind evolves_read simulate_evolves evolves_keeps [OF id] evolves_keeps frame_rules)
qed

lemma evolves_dispatch:
  assumes "\<And>pat hs v h caps b st. (pat, hs) \<in> set rs \<Longrightarrow> (v, h) \<in> set hs \<Longrightarrow> evolves hash st (snd (h caps b st))"
  shows "evolves hash st (snd (dispatch lift rs v segs b st))"
  using assms
proof (induction rs)
  case (Cons r rs)
  obtain pat hs where r: "r = (pat, hs)" by force
  have rest: "evolves hash st (snd (dispatch lift rs v segs b st))" using Cons by (meson list.set_intros(2))
  have here: "evolves hash st (snd (h caps b st))" if "map_of hs v = Some h" for h caps
    using Cons.prems [of pat hs v h] map_of_SomeD [OF that] r by simp
  show ?case using rest here by (auto simp: r split: option.splits)
qed simp

lemmas evolves_endpoints =
  keeps_endpoints [THEN evolves_keeps] keeps_control_endpoints [THEN evolves_keeps]
  keeps_meta_endpoints [THEN evolves_keeps] keeps_other_endpoints [THEN evolves_keeps] evolves_drill

lemma evolves_router: "evolves (cf_hash app) st (snd (coordinator_router app order q st))"
proof -
  have d: "evolves (cf_hash app) st (snd (dispatch id (coordinator_routes app order) v segs b st))" for st v segs b
    by (rule evolves_dispatch) (auto simp: coordinator_routes_def intro: evolves_endpoints)
  obtain now st1 where c: "ck_now co_system_clock st = (now, st1)" by force
  then have "evolves (cf_hash app) st st1" using evolves_keeps [OF keeps_co(3)] by (metis snd_conv)
  from evolves_trans [OF this evolves_guard [OF d]] show ?thesis by (simp add: coordinator_router_def c)
qed

section \<open>Runs\<close>

definition serve_all ::
  "'o coordinator_app \<Rightarrow> (string set \<Rightarrow> string list) \<Rightarrow> request list \<Rightarrow> 'o coordinator \<Rightarrow> 'o coordinator" where
  "serve_all app order qs st = fold (\<lambda>q st. snd (coordinator_router app order q st)) qs st"

lemma evolves_serve_all: "evolves (cf_hash app) st (serve_all app order qs st)"
  by (induction qs arbitrary: st) (auto simp: serve_all_def intro: evolves_trans [OF evolves_router])

lemma blocked_after_three: "is_blocked (responder_run 3 calls) fp \<longleftrightarrow> 3 \<le> strikes_of fp calls"
proof -
  have "unat (max 3 1 :: u32) = 3" by code_simp
  then show ?thesis
    using responder_run_inv [of 3 calls] unfolding responder_inv_def is_blocked_def by metis
qed

lemma in_memory_audited: "coordinator_in_memory rg seed objs clk rnd seeds = Inr st \<Longrightarrow> audited hash st"
  by (cases "cert_authority_generate rg seed")
    (auto simp: coordinator_in_memory_def audited_def offences_def ledger_verify_def responder_run_def responder_defaults_def)

text \<open>
  C12. The blocklist is justified by the ledger.  After any sequence of requests to a freshly started
  coordinator the ledger verifies, and a fingerprint is blocked exactly when the ledger holds at
  least three footprints of its offences; nobody is blocked without a trace, and nobody with three
  offences escapes.
\<close>

theorem blocklist_justified:
  assumes "coordinator_in_memory rg seed objs clk rnd seeds = Inr st0"
  shows "ledger_verify (cf_hash app) (pm_intrusions (serve_all app order qs st0)) \<and>
    (is_blocked (pm_responder (serve_all app order qs st0)) fp \<longleftrightarrow>
       3 \<le> strikes_of fp (offences (pm_intrusions (serve_all app order qs st0))))"
proof -
  let ?st = "serve_all app order qs st0"
  have "audited (cf_hash app) ?st"
    using evolves_serve_all [of app st0 order qs] in_memory_audited [OF assms] by (simp add: evolves_def)
  then show ?thesis
    using blocked_after_three [of "offences (pm_intrusions ?st)"] by (simp add: audited_def)
qed

text \<open>A coordinator whose crates do the least: one key, certificates made of their subject.\<close>

definition demo_rcgen :: rcgen_crate where
  "demo_rcgen = \<lparr>rg_keypair = Inr, rg_params = (\<lambda>ns. Inr \<lparr>cp_alt_names = map DnsName ns, cp_is_ca = False, cp_common_name = [],
       cp_extended_key_usages = [], cp_key_usages = []\<rparr>),
     rg_self_signed = (\<lambda>p k. Inr k), rg_signed_by = (\<lambda>p k c ck. Inr (as_bytes (cp_common_name p))),
     rg_cert_pem = of_bytes, rg_cert_der = id, rg_key_pem = of_bytes, rg_key_der = id, rg_ia5 = Inr\<rparr>"

definition demo_coordinator_app :: "unit coordinator_app" where
  "demo_coordinator_app = \<lparr>cf_hash = demo_hash, cf_b64 = \<lparr>b64_encode = of_bytes, b64_decode = (\<lambda>s. Inr (as_bytes s))\<rparr>,
     cf_ed = demo_ed, cf_signing_key = [], cf_rcgen = demo_rcgen, cf_presigner = None, cf_console = [], cf_security = []\<rparr>"

definition demo_coordinator :: "unit coordinator" where
  "demo_coordinator = \<lparr>pm_responder = responder_defaults, pm_intrusions = [], co_meta = memstore_new,
     co_ca = \<lparr>ca_cert = [], ca_key = [], ca_revoked = {}\<rparr>, co_names = registry_new, co_objects = (), co_clock = (\<lambda>_. 5),
     co_ticks = 0, co_random = (\<lambda>_. 0), co_draws = 0, co_seeds = (\<lambda>_. []), co_seeded = 0\<rparr>"

lemma demo_coordinator_starts:
  "coordinator_in_memory demo_rcgen [] () (\<lambda>_. 5) (\<lambda>_. 0) (\<lambda>_. []) = Inr demo_coordinator"
  by (simp add: coordinator_in_memory_def cert_authority_generate_def crypto_then_def demo_rcgen_def demo_coordinator_def)

definition demo_drill :: request where
  "demo_drill = \<lparr>hr_verb = POST, hr_path = ''/v1/admin/perimeter/simulate'', hr_body = JsonBody (JObj [(''fingerprint'', JStr ''x'')]),
     hr_fingerprint = None\<rparr>"

lemma demo_drill_body: "of_json_simulate_request (JObj [(''fingerprint'', JStr ''x'')]) = Some \<lparr>sq_fingerprint = Some ''x'', sq_strikes = None\<rparr>"
  by code_simp

lemma demo_drill_blocks:
  "is_blocked (pm_responder (snd (coordinator_router demo_coordinator_app (\<lambda>_. []) demo_drill demo_coordinator))) ''x''"
proof -
  let ?st = "demo_coordinator\<lparr>co_ticks := Suc 0\<rparr>" and ?b = "JsonBody (JObj [(''fingerprint'', JStr ''x'')])"
  have segs: "path_segments ''/v1/admin/perimeter/simulate'' = [''v1'', ''admin'', ''perimeter'', ''simulate'']" by code_simp
  have n: "clamp_strikes 3 = 3" "trim ''x'' = ''x''" "unat (3 :: u32) = 3" by code_simp+
  obtain ds st2 where s: "simulate_strikes (cf_hash demo_coordinator_app) ''x'' 5 3 [] (?st\<lparr>co_ticks := Suc (Suc 0)\<rparr>) = (ds, st2)"
    by force
  then have "''x'' \<in> rsp_blocked (pm_responder st2)"
    using simulate_responder [of "?st\<lparr>co_ticks := Suc (Suc 0)\<rparr>" 3 "[]" "cf_hash demo_coordinator_app" "''x''" 5 3 "[]"]
      blocked_after_three [of "replicate 3 (''x'', ''authorization_violation'')" "''x''"]
    by (simp add: demo_coordinator_def responder_defaults_def responder_run_def is_blocked_def strikes_of_def)
  moreover have "\<exists>r. co_perimeter_simulate demo_coordinator_app ?b ?st = (Response 200 r, st2)"
    using s by (simp add: co_perimeter_simulate_def respond_def io_bind_def body_json_def io_lift_def demo_drill_body io_return_def
        io_read_def n Let_def co_system_clock_def demo_coordinator_def del: simulate_strikes.simps)
  ultimately show ?thesis
    by (auto simp: coordinator_router_def co_system_clock_def demo_drill_def segs coordinator_routes_def perimeter_guard_def
        is_blocked_def fingerprint_def demo_coordinator_def responder_defaults_def responder_new_def)
qed

theorem blocklist_justified_witness:
  "3 \<le> strikes_of ''x'' (offences (pm_intrusions (serve_all demo_coordinator_app (\<lambda>_. []) [demo_drill] demo_coordinator))) \<and>
   is_blocked (pm_responder (serve_all demo_coordinator_app (\<lambda>_. []) [demo_drill] demo_coordinator)) ''x''"
proof -
  have "is_blocked (pm_responder (serve_all demo_coordinator_app (\<lambda>_. []) [demo_drill] demo_coordinator)) ''x''"
    using demo_drill_blocks by (simp add: serve_all_def)
  with blocklist_justified [OF demo_coordinator_starts, of demo_coordinator_app "\<lambda>_. []" "[demo_drill]" "''x''"]
  show ?thesis by simp
qed

section \<open>Enrolment\<close>

lemma mem_view_ops:
  "mem_view (snd (mem_register_app c s)) = add_contract c (mem_view s)"
  "mem_view (snd (mem_create_namespace n s)) = add_namespace n (mem_view s)"
  by (simp_all add: mem_defs store_simps meta_view_updates)

lemma enroll_eq:
  assumes "erasure_params_new (unwrap_or 4 (en_erasure_k q)) (unwrap_or 6 (en_erasure_n q)) = Inr er"
    and "a = AppId (''app-'' @ uuid_simple (co_random st (co_draws st)))"
    and "i = NamespaceId (''ns-'' @ uuid_simple (co_random st (Suc (co_draws st))))"
    and "ct = app_contract_new a
      \<lparr>q_max_bytes = unwrap_or (2 ^ 30) (en_quota_bytes q), q_max_objects = unwrap_or 10000 (en_max_objects q)\<rparr>
      \<lparr>rp_keep_versions = unwrap_or 3 (en_keep_versions q), rp_min_days = unwrap_or 30 (en_min_days q)\<rparr> er"
    and "st' = st\<lparr>co_meta := snd (mem_create_namespace \<lparr>nsp_id = i, nsp_app_id = a\<rparr> (snd (mem_register_app ct (co_meta st)))),
       co_draws := Suc (Suc (co_draws st)), co_seeded := Suc (co_seeded st)\<rparr>"
  shows "enroll_execute app q st =
    (case issue_client (cf_rcgen app) (co_seeds st (co_seeded st)) (enroll_label q) (co_ca st) of
       Inl e \<Rightarrow> (Inl e, st')
     | Inr identity \<Rightarrow> (Inr \<lparr>ep_label = enroll_label q, ep_app_id = app_str a, ep_namespace = ns_str i,
         ep_client_cert_pem = ci_cert_pem identity, ep_client_key_pem = ci_key_pem identity,
         ep_ca_root_pem = root_pem (cf_rcgen app) (co_ca st), ep_quota_bytes = q_max_bytes (ac_quota ct),
         ep_max_objects = q_max_objects (ac_quota ct), ep_keep_versions = rp_keep_versions (ac_retention ct),
         ep_min_days = rp_min_days (ac_retention ct), ep_erasure_k = ep_k er, ep_erasure_n = ep_n er\<rparr>, st'))"
  by (simp add: enroll_execute_def assms Let_def register_app_execute_def create_namespace_execute_def io_bind_def
      io_lift_def io_read_def io_return_def co_metadata_def co_store_def co_ids_def mem_defs on_ca_def co_seed_def
      app_contract_new_def split: sum.splits)

text \<open>
  C33. Enrolment, on every branch.  A success has registered exactly one new contract, with valid
  erasure parameters and the terms asked for or their defaults, and one namespace that belongs to it,
  and echoes those terms.  Invalid erasure parameters are refused and nothing changes.  The only
  other failure is that of the certificate: then contract and namespace are registered all the same.
\<close>

theorem enroll_exact:
  "case enroll_execute app q st of
     (Inr r, st') \<Rightarrow> ep_erasure_k r \<noteq> 0 \<and> ep_erasure_k r \<le> ep_erasure_n r \<and>
       ep_quota_bytes r = unwrap_or (2 ^ 30) (en_quota_bytes q) \<and> ep_max_objects r = unwrap_or 10000 (en_max_objects q) \<and>
       ep_keep_versions r = unwrap_or 3 (en_keep_versions q) \<and> ep_min_days r = unwrap_or 30 (en_min_days q) \<and>
       ep_erasure_k r = unwrap_or 4 (en_erasure_k q) \<and> ep_erasure_n r = unwrap_or 6 (en_erasure_n q) \<and>
       mem_view (co_meta st') =
         add_namespace \<lparr>nsp_id = NamespaceId (ep_namespace r), nsp_app_id = AppId (ep_app_id r)\<rparr>
           (add_contract (app_contract_new (AppId (ep_app_id r)) \<lparr>q_max_bytes = ep_quota_bytes r, q_max_objects = ep_max_objects r\<rparr>
              \<lparr>rp_keep_versions = ep_keep_versions r, rp_min_days = ep_min_days r\<rparr>
              \<lparr>ep_k = ep_erasure_k r, ep_n = ep_erasure_n r\<rparr>) (mem_view (co_meta st)))
   | (Inl e, st') \<Rightarrow>
       e = DomainErr (InvalidErasureParams (unwrap_or 4 (en_erasure_k q)) (unwrap_or 6 (en_erasure_n q))) \<and> st' = st \<or>
       issue_client (cf_rcgen app) (co_seeds st (co_seeded st)) (enroll_label q) (co_ca st) = Inl e \<and>
       (\<exists>ct n. nsp_app_id n = ac_app_id ct \<and> mem_view (co_meta st') = add_namespace n (add_contract ct (mem_view (co_meta st))))"
proof (cases "erasure_params_new (unwrap_or 4 (en_erasure_k q)) (unwrap_or 6 (en_erasure_n q))")
  case (Inl e)
  then have "e = InvalidErasureParams (unwrap_or 4 (en_erasure_k q)) (unwrap_or 6 (en_erasure_n q))"
    by (simp add: erasure_params_new_def split: if_splits)
  then show ?thesis by (simp add: enroll_execute_def Inl Let_def io_bind_def io_lift_def)
next
  case (Inr er)
  then have er: "er = \<lparr>ep_k = unwrap_or 4 (en_erasure_k q), ep_n = unwrap_or 6 (en_erasure_n q)\<rparr>" "ep_k er \<noteq> 0" "ep_k er \<le> ep_n er"
    by (auto simp: erasure_params_new_def not_less split: if_splits)
  show ?thesis
  proof (cases "issue_client (cf_rcgen app) (co_seeds st (co_seeded st)) (enroll_label q) (co_ca st)")
    case (Inl e)
    show ?thesis
      by (simp add: enroll_eq [OF Inr refl refl refl refl] Inl mem_view_ops)
        (rule disjI2, rule exI, rule exI, rule conjI [rotated], rule refl, simp add: app_contract_new_def)
  next
    case (Inr identity)
    show ?thesis
      using er by (simp add: enroll_eq [OF \<open>erasure_params_new _ _ = Inr er\<close> refl refl refl refl] Inr mem_view_ops
          app_contract_new_def)
  qed
qed

end
