(* ===== verification/Remote_Meta.thy ===== *)
theory Remote_Meta
  imports Coordinator_Runs Vault_Client
begin

text \<open>
  The node-agent's metadata store, \<^verbatim>\<open>bins/node-agent/src/remote_meta.rs\<close>: every operation of the
  \<^verbatim>\<open>MetadataStore\<close> port is an HTTP call to the coordinator.  The lemmas run such a call through the
  coordinator's router, its perimeter and its handlers; the refinement says that the store the data
  plane is verified against (\<open>node_meta\<close>) is what this stack implements.
\<close>

section \<open>The adapter (remote\_meta.rs)\<close>

definition status_error :: "nat \<Rightarrow> port_error" where
  "status_error status = (if status = 404 then NotFound else Backend (''coordinator returned '' @ show_status status))"

definition remote_send :: "'w net \<Rightarrow> verb \<Rightarrow> string \<Rightarrow> body \<Rightarrow> ('w, reply) io" where
  "remote_send net v path b = io_map_err (\<lambda>e. Unavailable (''coordinator: '' @ e))
     (net \<lparr>hr_verb = v, hr_path = path, hr_body = b, hr_fingerprint = None\<rparr>)"

definition remote_parse :: "(json \<Rightarrow> 'a option) \<Rightarrow> reply \<Rightarrow> port_error + 'a" where
  "remote_parse dec resp =
     (if \<not> is_success (resp_status resp) then Inl (status_error (resp_status resp))
      else map_sum (\<lambda>_. Serialization ''error decoding response body'') id (from_body dec (resp_body resp)))"

definition remote_get :: "'w net \<Rightarrow> string \<Rightarrow> (json \<Rightarrow> 'a option) \<Rightarrow> ('w, 'a) io" where
  "remote_get net path dec = io_bind (remote_send net GET path NoBody) (\<lambda>resp. io_lift (remote_parse dec resp))"

definition remote_post :: "'w net \<Rightarrow> string \<Rightarrow> json \<Rightarrow> ('w, unit) io" where
  "remote_post net path j = io_bind (remote_send net POST path (JsonBody j)) (\<lambda>resp.
     if is_success (resp_status resp) then io_return () else io_throw (status_error (resp_status resp)))"

definition remote_register_app :: "app_contract \<Rightarrow> ('w, unit) io" where
  "remote_register_app c =
     io_throw (Unavailable ''app registration is a control-plane operation, not available to the node-agent'')"

definition of_json_ns_id :: "json \<Rightarrow> namespace_id option" where
  "of_json_ns_id j = map_option NamespaceId (of_str j)"

definition of_json_blob_id :: "json \<Rightarrow> blob_id option" where
  "of_json_blob_id j = map_option BlobId (of_str j)"

definition remote_metadata_store :: "'w net \<Rightarrow> 'w metadata_store" where
  "remote_metadata_store net =
     \<lparr>ms_register_app = remote_register_app,
      ms_get_contract = (\<lambda>app. remote_get net (''/v1/meta/contracts/'' @ app_str app) (of_option of_json_contract)),
      ms_create_namespace = (\<lambda>n. remote_post net ''/v1/meta/namespaces'' (to_json_namespace n)),
      ms_get_namespace = (\<lambda>ns. remote_get net (''/v1/meta/namespaces/'' @ ns_str ns) (of_option of_json_namespace)),
      ms_namespace_usage = (\<lambda>ns. remote_get net (''/v1/meta/namespaces/'' @ ns_str ns @ ''/usage'') of_json_usage),
      ms_list_namespaces = remote_get net ''/v1/meta/namespaces'' (of_list of_json_ns_id),
      ms_put_manifest = (\<lambda>m. remote_post net ''/v1/meta/manifests'' (to_json_manifest m)),
      ms_get_manifest = (\<lambda>ns b. remote_get net
        (''/v1/meta/namespaces/'' @ ns_str ns @ ''/manifests/'' @ blob_str b) (of_option of_json_manifest)),
      ms_list_blobs = (\<lambda>ns. remote_get net (''/v1/meta/namespaces/'' @ ns_str ns @ ''/blobs'') (of_list of_json_blob_id)),
      ms_delete_manifest = (\<lambda>ns b. remote_post net
        (''/v1/meta/namespaces/'' @ ns_str ns @ ''/manifests/'' @ blob_str b @ ''/delete'') JNull)\<rparr>"

section \<open>The coordinator behind the network\<close>

text \<open>
  The coordinator's state beside the node's world; the fate of a call is that of the world.
\<close>

definition coordinator_net ::
  "'o coordinator_app \<Rightarrow> (string set \<Rightarrow> string list) \<Rightarrow> ('o coordinator \<times> world) net" where
  "coordinator_net app order q cw = (case cw of (c, w) \<Rightarrow>
     let w' = w\<lparr>w_called := Suc (w_called w)\<rparr> in
     case w_calls w (w_called w) of
       RequestLost e \<Rightarrow> (Inl e, (c, w'))
     | ReplyLost e \<Rightarrow> (Inl e, (snd (coordinator_router app order q c), w'))
     | Delivered \<Rightarrow> (case coordinator_router app order q c of (r, c') \<Rightarrow> (Inr r, (c', w'))))"

text \<open>The world as the data plane sees it: the coordinator's store is its metadata.\<close>

definition meta_abs :: "'o coordinator \<times> world \<Rightarrow> world" where
  "meta_abs cw = (case cw of (c, w) \<Rightarrow> w\<lparr>w_meta := co_meta c\<rparr>)"

section \<open>Routes of the metadata plane\<close>

lemma meta_paths:
  "path_segments ''/v1/meta/namespaces'' = [''v1'', ''meta'', ''namespaces'']"
  "path_segments ''/v1/meta/manifests'' = [''v1'', ''meta'', ''manifests'']"
  "url_safe a \<Longrightarrow> path_segments (''/v1/meta/contracts/'' @ a) = [''v1'', ''meta'', ''contracts'', a]"
  "url_safe a \<Longrightarrow> path_segments (''/v1/meta/namespaces/'' @ a) = [''v1'', ''meta'', ''namespaces'', a]"
  "url_safe a \<Longrightarrow> path_segments (''/v1/meta/namespaces/'' @ a @ ''/usage'') = [''v1'', ''meta'', ''namespaces'', a, ''usage'']"
  "url_safe a \<Longrightarrow> path_segments (''/v1/meta/namespaces/'' @ a @ ''/blobs'') = [''v1'', ''meta'', ''namespaces'', a, ''blobs'']"
  "url_safe a \<Longrightarrow> url_safe b \<Longrightarrow> path_segments (''/v1/meta/namespaces/'' @ a @ ''/manifests/'' @ b) =
     [''v1'', ''meta'', ''namespaces'', a, ''manifests'', b]"
  "url_safe a \<Longrightarrow> url_safe b \<Longrightarrow> path_segments (''/v1/meta/namespaces/'' @ a @ ''/manifests/'' @ b @ ''/delete'') =
     [''v1'', ''meta'', ''namespaces'', a, ''manifests'', b, ''delete'']"
  by (simp_all add: path_segments_def path_segments_simps)

text \<open>An unblocked anonymous caller gets a successful answer as the handler gave it.\<close>

lemma router_passes:
  assumes "\<not> is_blocked (pm_responder c) ''anonymous''"
    and "dispatch id (coordinator_routes app order) v (path_segments path) b (c\<lparr>co_ticks := Suc (co_ticks c)\<rparr>) = (Response 200 x, c')"
  shows "coordinator_router app order \<lparr>hr_verb = v, hr_path = path, hr_body = b, hr_fingerprint = None\<rparr> c = (Response 200 x, c')"
  using assms by (simp add: coordinator_router_def co_system_clock_def perimeter_guard_def fingerprint_def)

section \<open>Refinement\<close>

text \<open>
  At a state of coordinator and world, the remote action gives the same answer as the abstract one,
  reaches the same abstract world, and leaves the perimeter as it was.
\<close>

definition refines_at :: "('o coordinator \<times> world, 'a) io \<Rightarrow> (world, 'a) io \<Rightarrow> 'o coordinator \<times> world \<Rightarrow> bool" where
  "refines_at m m' cw \<longleftrightarrow> m' (meta_abs cw) = map_prod id meta_abs (m cw) \<and> perim (fst (snd (m cw))) = perim (fst cw)"

lemma meta_reply_store:
  assumes "m (co_meta c) = (Inr x, s)"
  shows "meta_reply f (co_store m) (c\<lparr>co_ticks := n\<rparr>) = (Response 200 (f x), c\<lparr>co_ticks := n, co_meta := s\<rparr>)"
  using assms by (simp add: meta_reply_def respond_def io_map_err_def co_store_def)

lemma remote_get_refines:
  assumes "\<not> is_blocked (pm_responder c) ''anonymous''"
    and "dispatch id (coordinator_routes app order) GET (path_segments path) NoBody = meta_reply (\<lambda>x. JsonBody (enc x)) (co_store m)"
    and "\<And>x. dec (enc x) = Some x" and "\<And>s. \<exists>x s'. m s = (Inr x, s')"
  shows "refines_at (remote_get (coordinator_net app order) path dec) (on_meta m) (c, w)"
proof -
  obtain x s where m: "m (co_meta c) = (Inr x, s)" using assms(4) by blast
  have "coordinator_router app order \<lparr>hr_verb = GET, hr_path = path, hr_body = NoBody, hr_fingerprint = None\<rparr> c =
      (Response 200 (JsonBody (enc x)), c\<lparr>co_ticks := Suc (co_ticks c), co_meta := s\<rparr>)"
    by (rule router_passes [OF assms(1)]) (simp add: assms(2) meta_reply_store [where m = m and c = c, OF m])
  then show ?thesis
    by (cases "w_calls w (w_called w)")
      (simp_all add: refines_at_def remote_get_def remote_send_def coordinator_net_def meta_abs_def on_meta_def Let_def m
        io_bind_def io_map_err_def io_lift_def remote_parse_def from_body_def is_success_def assms(3))
qed

lemma remote_post_refines:
  assumes "\<not> is_blocked (pm_responder c) ''anonymous''"
    and "dispatch id (coordinator_routes app order) POST (path_segments path) (JsonBody j) = meta_reply empty_body (co_store m)"
    and "\<And>s. \<exists>s'. m s = (Inr (), s')"
  shows "refines_at (remote_post (coordinator_net app order) path j) (on_meta m) (c, w)"
proof -
  obtain s where m: "m (co_meta c) = (Inr (), s)" using assms(3) by blast
  have "coordinator_router app order \<lparr>hr_verb = POST, hr_path = path, hr_body = JsonBody j, hr_fingerprint = None\<rparr> c =
      (Response 200 (empty_body ()), c\<lparr>co_ticks := Suc (co_ticks c), co_meta := s\<rparr>)"
    by (rule router_passes [OF assms(1)]) (simp add: assms(2) meta_reply_store [where m = m and c = c, OF m])
  then show ?thesis
    by (cases "w_calls w (w_called w)")
      (simp_all add: refines_at_def remote_post_def remote_send_def coordinator_net_def meta_abs_def on_meta_def Let_def m
        io_bind_def io_map_err_def io_return_def is_success_def)
qed

lemma meta_routes:
  "dispatch id (coordinator_routes app order) GET [''v1'', ''meta'', ''namespaces''] b = co_meta_list_namespaces b"
  "dispatch id (coordinator_routes app order) POST [''v1'', ''meta'', ''namespaces''] b = co_meta_create_namespace b"
  "dispatch id (coordinator_routes app order) POST [''v1'', ''meta'', ''manifests''] b = co_meta_put_manifest b"
  "x \<noteq> [] \<Longrightarrow> dispatch id (coordinator_routes app order) GET [''v1'', ''meta'', ''contracts'', x] b = co_meta_get_contract [x] b"
  "x \<noteq> [] \<Longrightarrow> dispatch id (coordinator_routes app order) GET [''v1'', ''meta'', ''namespaces'', x] b = co_meta_get_namespace [x] b"
  "x \<noteq> [] \<Longrightarrow> dispatch id (coordinator_routes app order) GET [''v1'', ''meta'', ''namespaces'', x, ''usage''] b = co_meta_namespace_usage [x] b"
  "x \<noteq> [] \<Longrightarrow> dispatch id (coordinator_routes app order) GET [''v1'', ''meta'', ''namespaces'', x, ''blobs''] b = co_meta_list_blobs [x] b"
  "x \<noteq> [] \<Longrightarrow> y \<noteq> [] \<Longrightarrow> dispatch id (coordinator_routes app order) GET [''v1'', ''meta'', ''namespaces'', x, ''manifests'', y] b =
     co_meta_get_manifest [x, y] b"
  "x \<noteq> [] \<Longrightarrow> y \<noteq> [] \<Longrightarrow> dispatch id (coordinator_routes app order) POST [''v1'', ''meta'', ''namespaces'', x, ''manifests'', y, ''delete''] b =
     co_meta_delete_manifest [x, y] b"
  by (simp_all add: coordinator_routes_def fun_eq_iff)

lemma id_codecs: "of_list of_json_ns_id (to_list (\<lambda>ns. JStr (ns_str ns)) nss) = Some nss"
  "of_list of_json_blob_id (to_list (\<lambda>b. JStr (blob_str b)) bs) = Some bs"
  by (induction nss; simp add: of_list_def to_list_def of_json_ns_id_def of_str_def split: option.splits)
    (induction bs; simp add: of_list_def to_list_def of_json_blob_id_def of_str_def split: option.splits)

lemma mem_total:
  "\<exists>x s'. mem_get_contract a s = (Inr x, s')" "\<exists>x s'. mem_get_namespace ns s = (Inr x, s')"
  "\<exists>x s'. mem_namespace_usage ns s = (Inr x, s')" "\<exists>x s'. mem_list_namespaces s = (Inr x, s')"
  "\<exists>x s'. mem_get_manifest ns b s = (Inr x, s')" "\<exists>x s'. mem_list_blobs ns s = (Inr x, s')"
  "\<exists>s'. mem_create_namespace n s = (Inr (), s')" "\<exists>s'. mem_put_manifest m s = (Inr (), s')"
  "\<exists>s'. mem_delete_manifest ns b s = (Inr (), s')"
  by (simp_all add: mem_defs mem_list_blobs_def mem_namespace_usage_def)

lemmas meta_handler_defs = co_meta_list_namespaces_def co_meta_get_contract_def co_meta_get_namespace_def
  co_meta_namespace_usage_def co_meta_get_manifest_def co_meta_list_blobs_def co_meta_delete_manifest_def
  co_metadata_def cap_def

lemma meta_write_handlers:
  "co_meta_create_namespace (JsonBody (to_json_namespace n)) = meta_reply empty_body (co_store (mem_create_namespace n))"
  "co_meta_put_manifest (JsonBody (to_json_manifest m)) = meta_reply empty_body (co_store (mem_put_manifest m))"
  by (simp_all add: co_meta_create_namespace_def co_meta_put_manifest_def meta_reply_def body_json_def json_simps
      io_bind_def io_lift_def co_metadata_def)

lemma remote_ops_refine:
  assumes "\<not> is_blocked (pm_responder c) ''anonymous''"
    and "url_safe (app_str a)" and "url_safe (ns_str ns)" and "url_safe (blob_str b)"
  shows "let rm = remote_metadata_store (coordinator_net app order) in
    refines_at (ms_get_contract rm a) (ms_get_contract node_meta a) (c, w) \<and>
    refines_at (ms_create_namespace rm n) (ms_create_namespace node_meta n) (c, w) \<and>
    refines_at (ms_get_namespace rm ns) (ms_get_namespace node_meta ns) (c, w) \<and>
    refines_at (ms_namespace_usage rm ns) (ms_namespace_usage node_meta ns) (c, w) \<and>
    refines_at (ms_list_namespaces rm) (ms_list_namespaces node_meta) (c, w) \<and>
    refines_at (ms_put_manifest rm m) (ms_put_manifest node_meta m) (c, w) \<and>
    refines_at (ms_get_manifest rm ns b) (ms_get_manifest node_meta ns b) (c, w) \<and>
    refines_at (ms_list_blobs rm ns) (ms_list_blobs node_meta ns) (c, w) \<and>
    refines_at (ms_delete_manifest rm ns b) (ms_delete_manifest node_meta ns b) (c, w)"
proof -
  note get = remote_get_refines [OF assms(1)] and post = remote_post_refines [OF assms(1)]
  note paths = meta_paths(1,2) meta_paths(3) [OF assms(2)] meta_paths(4-6) [OF assms(3)] meta_paths(7,8) [OF assms(3,4)]
  note paths = paths [simplified]
  note routes = meta_routes url_safe_nonempty [OF assms(2)] url_safe_nonempty [OF assms(3)] url_safe_nonempty [OF assms(4)]
  let ?net = "coordinator_net app order" and ?ns = "''/v1/meta/namespaces/'' @ ns_str ns"
  have "refines_at (remote_get ?net (''/v1/meta/contracts/'' @ app_str a) (of_option of_json_contract)) (on_meta (mem_get_contract a)) (c, w)"
    by (rule get [where enc = "to_option to_json_contract"])
      (simp_all add: paths routes meta_handler_defs json_simps mem_total)
  moreover have "refines_at (remote_get ?net ?ns (of_option of_json_namespace)) (on_meta (mem_get_namespace ns)) (c, w)"
    by (rule get [where enc = "to_option to_json_namespace"])
      (simp_all add: paths routes meta_handler_defs json_simps mem_total)
  moreover have "refines_at (remote_get ?net (?ns @ ''/usage'') of_json_usage) (on_meta (mem_namespace_usage ns)) (c, w)"
    by (rule get [where enc = to_json_usage])
      (simp_all add: paths routes meta_handler_defs json_simps mem_total)
  moreover have "refines_at (remote_get ?net ''/v1/meta/namespaces'' (of_list of_json_ns_id)) (on_meta mem_list_namespaces) (c, w)"
    by (rule get [where enc = "to_list (\<lambda>ns. JStr (ns_str ns))"])
      (simp_all add: paths routes meta_handler_defs id_codecs mem_total)
  moreover have "refines_at (remote_get ?net (?ns @ ''/manifests/'' @ blob_str b) (of_option of_json_manifest))
      (on_meta (mem_get_manifest ns b)) (c, w)"
    by (rule get [where enc = "to_option to_json_manifest"])
      (simp_all add: paths routes meta_handler_defs json_simps mem_total)
  moreover have "refines_at (remote_get ?net (?ns @ ''/blobs'') (of_list of_json_blob_id)) (on_meta (mem_list_blobs ns)) (c, w)"
    by (rule get [where enc = "to_list (\<lambda>b. JStr (blob_str b))"])
      (simp_all add: paths routes meta_handler_defs id_codecs mem_total)
  moreover have "refines_at (remote_post ?net ''/v1/meta/namespaces'' (to_json_namespace n)) (on_meta (mem_create_namespace n)) (c, w)"
    by (rule post) (simp_all add: paths routes meta_write_handlers mem_total)
  moreover have "refines_at (remote_post ?net ''/v1/meta/manifests'' (to_json_manifest m)) (on_meta (mem_put_manifest m)) (c, w)"
    by (rule post) (simp_all add: paths routes meta_write_handlers mem_total)
  moreover have "refines_at (remote_post ?net (?ns @ ''/manifests/'' @ blob_str b @ ''/delete'') JNull)
      (on_meta (mem_delete_manifest ns b)) (c, w)"
    by (rule post) (simp_all add: paths routes meta_handler_defs mem_total)
  ultimately show ?thesis
    by (simp add: Let_def remote_metadata_store_def node_meta_def)
qed

text \<open>
  The metadata store the data plane is verified against is the one that runs.  While the
  coordinator has not blocked header-less callers, and for ids that travel in a URL as they are,
  each operation of the node-agent's HTTP store, through JSON, router, perimeter and handler, answers
  exactly as the abstract store does on the coordinator's data, whatever calls the network loses,
  and no such call counts as an offence.
\<close>

theorem remote_meta_refines:
  assumes "\<not> is_blocked (pm_responder c) ''anonymous''"
    and "url_safe (app_str a)" and "url_safe (ns_str ns)" and "url_safe (blob_str b)"
  shows "let rm = remote_metadata_store (coordinator_net app order) in
    refines_at (ms_get_contract rm a) (ms_get_contract node_meta a) (c, w) \<and>
    refines_at (ms_create_namespace rm n) (ms_create_namespace node_meta n) (c, w) \<and>
    refines_at (ms_get_namespace rm ns) (ms_get_namespace node_meta ns) (c, w) \<and>
    refines_at (ms_namespace_usage rm ns) (ms_namespace_usage node_meta ns) (c, w) \<and>
    refines_at (ms_list_namespaces rm) (ms_list_namespaces node_meta) (c, w) \<and>
    refines_at (ms_put_manifest rm m) (ms_put_manifest node_meta m) (c, w) \<and>
    refines_at (ms_get_manifest rm ns b) (ms_get_manifest node_meta ns b) (c, w) \<and>
    refines_at (ms_list_blobs rm ns) (ms_list_blobs node_meta ns) (c, w) \<and>
    refines_at (ms_delete_manifest rm ns b) (ms_delete_manifest node_meta ns b) (c, w)"
  using assms by (rule remote_ops_refine)

text \<open>A coordinator that has just started, asked by a node.\<close>

theorem remote_meta_refines_witness:
  "\<not> is_blocked (pm_responder demo_coordinator) ''anonymous'' \<and>
   refines_at (ms_get_namespace (remote_metadata_store (coordinator_net demo_coordinator_app (\<lambda>_. []))) demo_ns)
     (ms_get_namespace node_meta demo_ns) (demo_coordinator, demo_world 5 [])"
proof -
  have u: "\<not> is_blocked (pm_responder demo_coordinator) ''anonymous''" by code_simp
  have "url_safe (app_str (AppId ''a''))" "url_safe (ns_str demo_ns)" "url_safe (blob_str (BlobId ''b''))"
    by code_simp+
  from remote_meta_refines [OF u this, where app = demo_coordinator_app and order = "\<lambda>_. []" and w = "demo_world 5 []"] u
  show ?thesis by (simp add: Let_def)
qed

section \<open>The anonymous fingerprint\<close>

text \<open>A capability request for a namespace of another app, without a fingerprint header.\<close>

definition denied_request :: "app_id \<Rightarrow> namespace_id \<Rightarrow> operation \<Rightarrow> u64 \<Rightarrow> request" where
  "denied_request a ns oper ttl = \<lparr>hr_verb = POST, hr_path = ''/v1/capabilities'',
     hr_body = JsonBody (to_json_issue_capability_request \<lparr>icq_app_id = a, icq_namespace = ns, icq_operation = oper, icq_ttl_secs = ttl\<rparr>),
     hr_fingerprint = None\<rparr>"

definition struck :: "nat \<Rightarrow> 'o coordinator \<Rightarrow> bool" where
  "struck k c \<longleftrightarrow> (\<exists>calls. pm_responder c = responder_run 3 calls \<and> k \<le> strikes_of ''anonymous'' calls)"

lemma struck_three: "struck 3 c \<Longrightarrow> is_blocked (pm_responder c) ''anonymous''"
  by (auto simp: struck_def blocked_after_three)

lemma router_blocked:
  assumes "is_blocked (pm_responder c) ''anonymous''" and "hr_fingerprint q = None"
  shows "\<exists>es. coordinator_router app order q c = (Response 403 blocked_body, c\<lparr>co_ticks := Suc (co_ticks c), pm_intrusions := es\<rparr>)"
  using assms by (auto simp: coordinator_router_def co_system_clock_def perimeter_guard_def fingerprint_def record_intrusion_def Let_def)

lemma denied_strikes:
  assumes "struck k c" and "mv_namespaces (mem_view (co_meta c)) ns = Some n" and "nsp_app_id n \<noteq> a" and "k < 3"
  shows "struck (Suc k) (snd (coordinator_router app order (denied_request a ns oper ttl) c)) \<and>
    co_meta (snd (coordinator_router app order (denied_request a ns oper ttl) c)) = co_meta c"
proof -
  obtain calls where calls: "pm_responder c = responder_run 3 calls" "k \<le> strikes_of ''anonymous'' calls"
    using assms(1) by (auto simp: struck_def)
  show ?thesis
  proof (cases "is_blocked (pm_responder c) ''anonymous''")
    case True
    then obtain es where r: "coordinator_router app order (denied_request a ns oper ttl) c =
        (Response 403 blocked_body, c\<lparr>co_ticks := Suc (co_ticks c), pm_intrusions := es\<rparr>)"
      using router_blocked [of c "denied_request a ns oper ttl" app order] by (auto simp: denied_request_def)
    have "Suc k \<le> strikes_of ''anonymous'' calls" using True calls(1) assms(4) by (simp add: blocked_after_three)
    with r calls show ?thesis by (auto simp: struck_def)
  next
    case False
    let ?b = "JsonBody (to_json_issue_capability_request \<lparr>icq_app_id = a, icq_namespace = ns, icq_operation = oper, icq_ttl_secs = ttl\<rparr>)"
    let ?c = "c\<lparr>co_ticks := Suc (co_ticks c)\<rparr>"
    have segs: "path_segments ''/v1/capabilities'' = [''v1'', ''capabilities'']" by code_simp
    have "co_issue_capability app ?b ?c = (err (DomainErr Unauthorized), ?c)"
      using assms(2,3) by (simp add: co_issue_capability_def respond_def body_json_def json_simps issue_capability_execute_def
          io_bind_def io_lift_def io_map_err_def io_throw_def co_metadata_def co_store_def mem_get_namespace_def store_simps owned_by_def)
    then have d: "dispatch id (coordinator_routes app order) POST (path_segments ''/v1/capabilities'') ?b ?c =
        (err (DomainErr Unauthorized), ?c)"
      by (simp add: segs coordinator_routes_def)
    have "resp_status (err (DomainErr Unauthorized)) = 403" by (simp add: err_def wire_error_reply_def)
    with d False have "pm_responder (snd (coordinator_router app order (denied_request a ns oper ttl) c)) =
        responder_run 3 (calls @ [(''anonymous'', classify 403)]) \<and>
        co_meta (snd (coordinator_router app order (denied_request a ns oper ttl) c)) = co_meta c"
      by (simp add: coordinator_router_def co_system_clock_def perimeter_guard_def fingerprint_def denied_request_def calls(1)
          record_intrusion_def split_beta Let_def responder_run_snoc)
    then show ?thesis using calls(2) by (auto simp: struck_def strikes_of_def)
  qed
qed

lemma serve_all_append: "serve_all app order (qs @ qs') c = serve_all app order qs' (serve_all app order qs c)"
  by (simp add: serve_all_def)

lemma three_denied_block:
  assumes "struck 0 c" and "mv_namespaces (mem_view (co_meta c)) ns = Some n" and "nsp_app_id n \<noteq> a"
  shows "is_blocked (pm_responder (serve_all app order (replicate 3 (denied_request a ns oper ttl)) c)) ''anonymous''"
proof -
  let ?step = "\<lambda>c. snd (coordinator_router app order (denied_request a ns oper ttl) c)"
  have s: "struck (Suc k) (?step c') \<and> co_meta (?step c') = co_meta c"
    if "struck k c'" "co_meta c' = co_meta c" "k < 3" for k c'
    using denied_strikes [OF that(1) _ assms(3) that(3), of ns app order oper ttl] assms(2) that(2) by simp
  have 1: "struck (Suc 0) (?step c) \<and> co_meta (?step c) = co_meta c" using s [OF assms(1)] by simp
  then have 2: "struck (Suc (Suc 0)) (?step (?step c)) \<and> co_meta (?step (?step c)) = co_meta c"
    using s [of "Suc 0" "?step c"] by simp
  then have "struck (Suc (Suc (Suc 0))) (?step (?step (?step c)))" using s [of "Suc (Suc 0)" "?step (?step c)"] by simp
  then have "struck 3 (?step (?step (?step c)))" by (simp add: numeral_3_eq_3)
  then show ?thesis using struck_three by (simp add: serve_all_def numeral_3_eq_3)
qed

lemma blocked_forever:
  "is_blocked (pm_responder c) fp \<Longrightarrow> is_blocked (pm_responder (serve_all app order qs c)) fp"
  using evolves_serve_all [of app c order qs] by (auto simp: evolves_def is_blocked_def)


definition demo_namespace_request :: request where
  "demo_namespace_request = \<lparr>hr_verb = POST, hr_path = ''/v1/meta/namespaces'',
     hr_body = JsonBody (to_json_namespace \<lparr>nsp_id = demo_ns, nsp_app_id = AppId ''a''\<rparr>), hr_fingerprint = None\<rparr>"

lemma demo_namespace_served:
  "mv_namespaces (mem_view (co_meta (serve_all demo_coordinator_app order [demo_namespace_request] demo_coordinator))) demo_ns =
     Some \<lparr>nsp_id = demo_ns, nsp_app_id = AppId ''a''\<rparr>"
proof -
  let ?c = demo_coordinator and ?n = "\<lparr>nsp_id = demo_ns, nsp_app_id = AppId ''a''\<rparr>"
  have "\<not> is_blocked (pm_responder ?c) ''anonymous''" by code_simp
  then have "coordinator_router demo_coordinator_app order demo_namespace_request ?c =
      (Response 200 (empty_body ()), ?c\<lparr>co_ticks := Suc (co_ticks ?c), co_meta := snd (mem_create_namespace ?n (co_meta ?c))\<rparr>)"
    unfolding demo_namespace_request_def
    by (rule router_passes) (simp add: meta_paths meta_routes meta_write_handlers meta_reply_def respond_def io_map_err_def
        co_store_def mem_create_namespace_def)
  then show ?thesis by (simp add: serve_all_def mem_view_ops add_namespace_def)
qed


end
