(* ===== verification/Peer_Http.thy ===== *)
theory Peer_Http
  imports Vault_Client Deployment
begin

text \<open>
  The default peer transport, \<^verbatim>\<open>crates/adapter-peer-http\<close>: shards travel to and from the peer routes of
  another node-agent.  The lemmas run a call through the peer's router down to its anchor.
\<close>

section \<open>The adapter (lib.rs)\<close>

text \<open>The network of peers: a base URL names the node that answers.\<close>

type_synonym 'w peer_net = "string \<Rightarrow> 'w net"

definition trim_end_slashes :: "string \<Rightarrow> string" where
  "trim_end_slashes s = rev (dropWhile (\<lambda>c. c = CHR ''/'') (rev s))"

definition peer_path :: "shard_ref \<Rightarrow> string" where
  "peer_path at = ''/v1/peer/shards/'' @ ns_str (sr_namespace at) @ ''/'' @ blob_str (sr_blob_id at) @ ''/'' @
     show_pad5 (unat (sr_index at))"

definition peer_call :: "'w peer_net \<Rightarrow> verb \<Rightarrow> string \<Rightarrow> shard_ref \<Rightarrow> body \<Rightarrow> ('w, reply) io" where
  "peer_call net v peer at b = io_map_err (\<lambda>e. Unavailable (''peer '' @ peer @ '': '' @ e))
     (net (trim_end_slashes peer) \<lparr>hr_verb = v, hr_path = peer_path at, hr_body = b, hr_fingerprint = None\<rparr>)"

definition peer_returned :: "string \<Rightarrow> nat \<Rightarrow> port_error" where
  "peer_returned peer status = Backend (''peer '' @ peer @ '' returned '' @ show_status status)"

definition peer_http_send :: "'w peer_net \<Rightarrow> string \<Rightarrow> shard_ref \<Rightarrow> bytes \<Rightarrow> ('w, unit) io" where
  "peer_http_send net peer at bs =
     io_bind (peer_call net PUT peer at (BytesBody bs)) (\<lambda>resp.
     if is_success (resp_status resp) then io_return () else io_throw (peer_returned peer (resp_status resp)))"

definition body_bytes :: "body \<Rightarrow> bytes" where
  "body_bytes b = (case b of BytesBody bs \<Rightarrow> bs | TextBody s \<Rightarrow> as_bytes s | _ \<Rightarrow> [])"

definition peer_http_fetch :: "'w peer_net \<Rightarrow> string \<Rightarrow> shard_ref \<Rightarrow> ('w, bytes) io" where
  "peer_http_fetch net peer at =
     io_bind (peer_call net GET peer at NoBody) (\<lambda>resp.
     if is_success (resp_status resp) then io_return (body_bytes (resp_body resp))
     else if resp_status resp = 404 then io_throw NotFound
     else io_throw (peer_returned peer (resp_status resp)))"

definition peer_http_transport :: "'w peer_net \<Rightarrow> 'w shard_transport" where
  "peer_http_transport net = \<lparr>st_send_shard = peer_http_send net, st_fetch_shard = peer_http_fetch net\<rparr>"

section \<open>Peers that are node-agents\<close>

definition peer_nodes :: "b64_engine \<Rightarrow> (string \<Rightarrow> 'w node_app) \<Rightarrow> (string \<Rightarrow> 'w node) peer_net" where
  "peer_nodes b64 apps base q nodes =
     (case node_net b64 (apps base) q (nodes base) of (r, nd) \<Rightarrow> (r, nodes(base := nd)))"

lemma parse_u16_pad5: "parse_u16 (show_pad5 (unat (i :: u16))) = Some i"
proof -
  have "hd (show_pad5 (unat i)) \<in> set (show_pad5 (unat i))" by (rule hd_in_set) simp
  then have "is_digit (hd (show_pad5 (unat i)))" by (rule show_pad5_digits)
  then have "hd (show_pad5 (unat i)) \<noteq> CHR ''+''" by (auto simp: is_digit_def)
  moreover have "read_digits 0 (show_pad5 (unat i)) = Some (unat i)"
    by (simp add: show_pad5_def Let_def read_digits_zeros)
  moreover have "unat i < 2 ^ 16" using unsigned_less [of i, where ?'a = nat] by simp
  ultimately show ?thesis by (simp add: parse_u16_digits)
qed

definition url_ref :: "shard_ref \<Rightarrow> bool" where
  "url_ref at \<longleftrightarrow> url_safe (ns_str (sr_namespace at)) \<and> url_safe (blob_str (sr_blob_id at))"

lemma peer_segments:
  "url_ref at \<Longrightarrow> path_segments (peer_path at) =
     [''v1'', ''peer'', ''shards'', ns_str (sr_namespace at), blob_str (sr_blob_id at), show_pad5 (unat (sr_index at))]"
  by (simp add: url_ref_def peer_path_def path_segments_def path_segments_simps split_on_none)

lemma peer_shard_arg:
  "shard_path_arg [ns_str (sr_namespace at), blob_str (sr_blob_id at), show_pad5 (unat (sr_index at))] = io_return at"
  by (cases at) (simp add: shard_path_arg_def parse_u16_pad5 shard_ref_new_def)

lemma peer_node_routes:
  assumes "url_ref at"
  shows "node_net b64 app \<lparr>hr_verb = PUT, hr_path = peer_path at, hr_body = BytesBody bs, hr_fingerprint = None\<rparr> nd =
      (case ba_put_shard (na_anchor app) at bs (nd_world nd) of
         (Inr u, w) \<Rightarrow> (Inr (Response 200 NoBody), nd\<lparr>nd_world := w\<rparr>) | (Inl e, w) \<Rightarrow> (Inr (err e), nd\<lparr>nd_world := w\<rparr>))"
    and "node_net b64 app \<lparr>hr_verb = GET, hr_path = peer_path at, hr_body = NoBody, hr_fingerprint = None\<rparr> nd =
      (case ba_get_shard (na_anchor app) at (nd_world nd) of
         (Inr bs, w) \<Rightarrow> (Inr (Response 200 (BytesBody bs)), nd\<lparr>nd_world := w\<rparr>) | (Inl e, w) \<Rightarrow> (Inr (err e), nd\<lparr>nd_world := w\<rparr>))"
proof -
  have ne: "ns_str (sr_namespace at) \<noteq> []" "blob_str (sr_blob_id at) \<noteq> []" using assms by (simp_all add: url_ref_def)
  show "node_net b64 app \<lparr>hr_verb = PUT, hr_path = peer_path at, hr_body = BytesBody bs, hr_fingerprint = None\<rparr> nd =
      (case ba_put_shard (na_anchor app) at bs (nd_world nd) of
         (Inr u, w) \<Rightarrow> (Inr (Response 200 NoBody), nd\<lparr>nd_world := w\<rparr>) | (Inl e, w) \<Rightarrow> (Inr (err e), nd\<lparr>nd_world := w\<rparr>))"
    by (simp add: node_net_def node_router_def permissive_def node_routes_def peer_segments [OF assms] ne peer_put_shard_def
        peer_shard_arg route_defs err_reply_def empty_body_def split: prod.splits sum.splits)
  show "node_net b64 app \<lparr>hr_verb = GET, hr_path = peer_path at, hr_body = NoBody, hr_fingerprint = None\<rparr> nd =
      (case ba_get_shard (na_anchor app) at (nd_world nd) of
         (Inr bs, w) \<Rightarrow> (Inr (Response 200 (BytesBody bs)), nd\<lparr>nd_world := w\<rparr>) | (Inl e, w) \<Rightarrow> (Inr (err e), nd\<lparr>nd_world := w\<rparr>))"
    by (simp add: node_net_def node_router_def permissive_def node_routes_def peer_segments [OF assms] ne peer_get_shard_def
        peer_shard_arg route_defs err_reply_def split: prod.splits sum.splits)
qed

lemma peer_http_send_eq:
  assumes "url_ref at"
  shows "peer_http_send (peer_nodes b64 apps) peer at bs nodes =
    (let base = trim_end_slashes peer in
     case ba_put_shard (na_anchor (apps base)) at bs (nd_world (nodes base)) of
       (Inr u, w) \<Rightarrow> (Inr (), nodes(base := (nodes base)\<lparr>nd_world := w\<rparr>))
     | (Inl e, w) \<Rightarrow> (Inl (peer_returned peer (resp_status (err e))), nodes(base := (nodes base)\<lparr>nd_world := w\<rparr>)))"
  by (simp add: peer_http_send_def peer_call_def peer_nodes_def peer_node_routes [OF assms] Let_def io_bind_def io_map_err_def
      io_return_def io_throw_def is_success_def [of 200] split: prod.splits sum.splits)

lemma peer_http_fetch_eq:
  assumes "url_ref at"
  shows "peer_http_fetch (peer_nodes b64 apps) peer at nodes =
    (let base = trim_end_slashes peer in
     case ba_get_shard (na_anchor (apps base)) at (nd_world (nodes base)) of
       (Inr bs, w) \<Rightarrow> (Inr bs, nodes(base := (nodes base)\<lparr>nd_world := w\<rparr>))
     | (Inl e, w) \<Rightarrow> (Inl (if resp_status (err e) = 404 then NotFound else peer_returned peer (resp_status (err e))),
         nodes(base := (nodes base)\<lparr>nd_world := w\<rparr>)))"
  by (simp add: peer_http_fetch_def peer_call_def peer_nodes_def peer_node_routes [OF assms] Let_def io_bind_def io_map_err_def
      io_return_def io_throw_def is_success_def [of 200] body_bytes_def split: prod.splits sum.splits)

lemma err_404: "resp_status (err e) = 404 \<longleftrightarrow> e = NotFound"
proof -
  have "fst (domain_status d) \<noteq> 404" for d by (cases d) simp_all
  then show ?thesis by (cases e) (auto simp: err_def wire_error_reply_def split: prod.splits, metis fst_conv)
qed

text \<open>
  C26. Peer replicas over HTTP.  A shard a peer accepted over the HTTP transport is, while the peer's
  shards stay as they are, fetched back from it unchanged: a fetch that succeeds returns those bytes
  and never reports the shard as missing.  Sending touches no other node.
\<close>

theorem peer_http_faithful:
  assumes "url_ref at" and "plain_ref at" and "anchor_laws (na_anchor (apps (trim_end_slashes peer))) aview"
    and "st_send_shard (peer_http_transport (peer_nodes b64 apps)) peer at bs nodes = (Inr (), nodes1)"
    and "aview (nd_world (nodes2 (trim_end_slashes peer))) = aview (nd_world (nodes1 (trim_end_slashes peer)))"
    and "st_fetch_shard (peer_http_transport (peer_nodes b64 apps)) peer at nodes2 = (r, nodes3)"
  shows "r \<noteq> Inl NotFound \<and> (\<forall>x. r = Inr x \<longrightarrow> x = bs) \<and> (\<forall>p. p \<noteq> trim_end_slashes peer \<longrightarrow> nodes1 p = nodes p)"
proof -
  let ?base = "trim_end_slashes peer"
  let ?ba = "na_anchor (apps ?base)"
  obtain w where put: "ba_put_shard ?ba at bs (nd_world (nodes ?base)) = (Inr (), w)"
    and n1: "nodes1 = nodes(?base := (nodes ?base)\<lparr>nd_world := w\<rparr>)"
    using assms(4) by (auto simp: peer_http_transport_def peer_http_send_eq [OF assms(1)] Let_def split: prod.splits sum.splits)
  have stored: "aview (nd_world (nodes2 ?base)) at = Some bs"
    using anchor_laws.put_stored [OF assms(3,2) put] assms(5) n1 by simp
  obtain g w2 where get: "ba_get_shard ?ba at (nd_world (nodes2 ?base)) = (g, w2)" by force
  have "g \<noteq> Inl NotFound" and "g = Inr x \<Longrightarrow> x = bs" for x
    using anchor_laws.get_missing [OF assms(3,2)] anchor_laws.get_found [OF assms(3,2)] get stored by fastforce+
  then have "r \<noteq> Inl NotFound \<and> (\<forall>x. r = Inr x \<longrightarrow> x = bs)"
    using assms(6) get by (auto simp: peer_http_transport_def peer_http_fetch_eq [OF assms(1)] Let_def err_404 peer_returned_def
        split: sum.splits if_splits)
  with n1 show ?thesis by simp
qed

end
