(* ===== verification/Presigned_Anchor.thy ===== *)
theory Presigned_Anchor
  imports Remote_Meta Peer_Http
begin

text \<open>
  The anchor without credentials, \<^verbatim>\<open>bins/node-agent/src/presigned_anchor.rs\<close>: for every shard the node
  asks the coordinator for a short-lived URL (\<^verbatim>\<open>presign.rs\<close>) and transfers the bytes to the object store
  itself; deletes are carried out by the coordinator.  The object store's HTTP side is an argument,
  with what is relied on stated as \<open>url_contract\<close>.
\<close>

section \<open>The adapter (presigned\_anchor.rs)\<close>

type_synonym 'w store_http = "verb \<Rightarrow> string \<Rightarrow> body \<Rightarrow> (string, 'w, reply) act"

definition presign_unavailable :: "string \<Rightarrow> port_error" where
  "presign_unavailable e = Unavailable (''presign transport: '' @ e)"

definition coord_post :: "'w net \<Rightarrow> string \<Rightarrow> json \<Rightarrow> ('w, reply) io" where
  "coord_post net path j = io_map_err presign_unavailable
     (net \<lparr>hr_verb = POST, hr_path = path, hr_body = JsonBody j, hr_fingerprint = None\<rparr>)"

definition presigned_url :: "'w net \<Rightarrow> shard_ref \<Rightarrow> presign_op \<Rightarrow> ('w, string) io" where
  "presigned_url net at oper =
     io_bind (coord_post net ''/v1/anchor/presign'' (to_json_presign_request
       \<lparr>psq_namespace = sr_namespace at, psq_blob_id = sr_blob_id at, psq_index = sr_index at, psq_op = oper\<rparr>)) (\<lambda>resp.
     if \<not> is_success (resp_status resp) then io_throw (Backend (''coordinator presign returned '' @ show_status (resp_status resp)))
     else io_bind (io_lift (map_sum (\<lambda>_. Serialization ''error decoding response body'') id
            (from_body of_json_presign_response (resp_body resp)))) (\<lambda>body.
          io_return (psp_url body)))"

definition presigned_put_shard :: "'w net \<Rightarrow> 'w store_http \<Rightarrow> shard_ref \<Rightarrow> bytes \<Rightarrow> ('w, unit) io" where
  "presigned_put_shard net http at bs =
     io_bind (presigned_url net at PresignPut) (\<lambda>url.
     io_bind (io_map_err presign_unavailable (http PUT url (BytesBody bs))) (\<lambda>resp.
     if is_success (resp_status resp) then io_return ()
     else io_throw (Backend (''store put '' @ show_status (resp_status resp)))))"

definition presigned_get_shard :: "'w net \<Rightarrow> 'w store_http \<Rightarrow> shard_ref \<Rightarrow> ('w, bytes) io" where
  "presigned_get_shard net http at =
     io_bind (presigned_url net at PresignGet) (\<lambda>url.
     io_bind (io_map_err presign_unavailable (http GET url NoBody)) (\<lambda>resp.
     if is_success (resp_status resp) then io_return (body_bytes (resp_body resp))
     else if resp_status resp = 404 \<or> resp_status resp = 403 then io_throw NotFound
     else io_throw (Backend (''store get '' @ show_status (resp_status resp)))))"

definition presigned_delete_blob :: "'w net \<Rightarrow> namespace_id \<Rightarrow> blob_id \<Rightarrow> ('w, unit) io" where
  "presigned_delete_blob net ns b =
     io_bind (coord_post net ''/v1/anchor/delete-blob'' (to_json_delete_blob_request \<lparr>dbq_namespace = ns, dbq_blob_id = b\<rparr>)) (\<lambda>resp.
     if is_success (resp_status resp) then io_return ()
     else io_throw (Backend (''coordinator delete-blob returned '' @ show_status (resp_status resp))))"

definition presigned_blob_anchor :: "'w net \<Rightarrow> 'w store_http \<Rightarrow> 'w blob_anchor" where
  "presigned_blob_anchor net http = \<lparr>ba_put_shard = presigned_put_shard net http, ba_get_shard = presigned_get_shard net http,
     ba_delete_blob = presigned_delete_blob net\<rparr>"

section \<open>Coordinator and store\<close>

text \<open>The store's HTTP side acts on the objects the coordinator's presigner signs for.\<close>

definition store_at ::
  "(verb \<Rightarrow> string \<Rightarrow> body \<Rightarrow> 'o \<Rightarrow> (string + reply) \<times> 'o) \<Rightarrow> ('o coordinator \<times> world) store_http" where
  "store_at http v url b cw = (case cw of (c, w) \<Rightarrow>
     case http v url b (co_objects c) of (r, s) \<Rightarrow> (r, (c\<lparr>co_objects := s\<rparr>, w)))"

text \<open>
  What a signed URL is good for: a PUT that succeeds stores the body under the key it was signed for,
  one that fails touches no other object; a GET that succeeds returns the object, and the answers 404
  and 403 are given only where there is none.
\<close>

definition put_effect :: "('o \<Rightarrow> string \<rightharpoonup> bytes) \<Rightarrow> string \<Rightarrow> bytes \<Rightarrow> 'o \<Rightarrow> (string + reply) \<times> 'o \<Rightarrow> bool" where
  "put_effect view k bs s res = (case res of
       (Inr resp, s') \<Rightarrow> if is_success (resp_status resp) then view s' = (view s)(k \<mapsto> bs) else (\<forall>k'. k' \<noteq> k \<longrightarrow> view s' k' = view s k')
     | (Inl e, s') \<Rightarrow> \<forall>k'. k' \<noteq> k \<longrightarrow> view s' k' = view s k')"

definition get_effect :: "('o \<Rightarrow> string \<rightharpoonup> bytes) \<Rightarrow> string \<Rightarrow> 'o \<Rightarrow> (string + reply) \<times> 'o \<Rightarrow> bool" where
  "get_effect view k s res = (view (snd res) = view s \<and> (case fst res of
       Inr resp \<Rightarrow> (is_success (resp_status resp) \<longrightarrow> view s k = Some (body_bytes (resp_body resp))) \<and>
         (resp_status resp = 404 \<or> resp_status resp = 403 \<longrightarrow> view s k = None)
     | Inl e \<Rightarrow> True))"

definition url_contract ::
  "'o object_store \<Rightarrow> (verb \<Rightarrow> string \<Rightarrow> body \<Rightarrow> 'o \<Rightarrow> (string + reply) \<times> 'o) \<Rightarrow> ('o \<Rightarrow> string \<rightharpoonup> bytes) \<Rightarrow> bool" where
  "url_contract os http view \<longleftrightarrow> store_contract os view \<and>
     (\<forall>v k ttl s r s'. os_signed_url os v k ttl s = (r, s') \<longrightarrow> view s' = view s) \<and>
     (\<forall>k ttl s url s' bs t. os_signed_url os PUT k ttl s = (Inr url, s') \<longrightarrow> put_effect view k bs t (http PUT url (BytesBody bs) t)) \<and>
     (\<forall>k ttl s url s' t. os_signed_url os GET k ttl s = (Inr url, s') \<longrightarrow> get_effect view k t (http GET url NoBody t))"

section \<open>What the coordinator answers\<close>

lemma anchor_routes:
  "dispatch id (coordinator_routes app order) POST (path_segments ''/v1/anchor/presign'') b = co_presign app b"
  "dispatch id (coordinator_routes app order) POST (path_segments ''/v1/anchor/delete-blob'') b = co_delete_blob app b"
proof -
  have "path_segments ''/v1/anchor/presign'' = [''v1'', ''anchor'', ''presign'']"
    and "path_segments ''/v1/anchor/delete-blob'' = [''v1'', ''anchor'', ''delete-blob'']" by code_simp+
  then show "dispatch id (coordinator_routes app order) POST (path_segments ''/v1/anchor/presign'') b = co_presign app b"
    and "dispatch id (coordinator_routes app order) POST (path_segments ''/v1/anchor/delete-blob'') b = co_delete_blob app b"
    by (simp_all add: coordinator_routes_def fun_eq_iff)
qed

text \<open>The router answers 403 without running the handler, or as the handler does; objects only change there.\<close>

lemma router_objects:
  assumes "coordinator_router app order q c = (resp, c')"
  obtains (Blocked) "\<not> is_success (resp_status resp)" and "co_objects c' = co_objects c"
  | (Served) c1 where "dispatch id (coordinator_routes app order) (hr_verb q) (path_segments (hr_path q)) (hr_body q)
        (c\<lparr>co_ticks := Suc (co_ticks c)\<rparr>) = (resp, c1)" and "co_objects c' = co_objects c1"
  using assms
  by (auto simp: coordinator_router_def co_system_clock_def perimeter_guard_def Let_def record_intrusion_def is_success_def
      split: if_splits prod.splits)

lemma co_presign_eq:
  assumes "cf_presigner app = Some os"
  shows "co_presign app (JsonBody (to_json_presign_request
      \<lparr>psq_namespace = sr_namespace at, psq_blob_id = sr_blob_id at, psq_index = sr_index at, psq_op = oper\<rparr>)) c =
    (case os_signed_url os (case oper of PresignPut \<Rightarrow> PUT | PresignGet \<Rightarrow> GET) (rustfs_key os at) PRESIGN_TTL_SECS (co_objects c) of
       (Inr url, s) \<Rightarrow> (Response 200 (JsonBody (to_json_presign_response \<lparr>psp_url = url, psp_expires_secs = PRESIGN_TTL_SECS\<rparr>)),
         c\<lparr>co_objects := s\<rparr>)
     | (Inl e, s) \<Rightarrow> (err (rustfs_backend e), c\<lparr>co_objects := s\<rparr>))"
proof -
  have at: "shard_ref_new (sr_namespace at) (sr_blob_id at) (sr_index at) = at" by (simp add: shard_ref_new_def)
  show ?thesis
    by (simp add: co_presign_def respond_def body_json_def json_simps io_bind_def io_lift_def io_map_err_def io_return_def assms at
        on_objects_def presigner_presign_def Let_def split: prod.splits sum.splits)
qed

lemma co_delete_blob_eq:
  assumes "cf_presigner app = Some os"
  shows "co_delete_blob app (JsonBody (to_json_delete_blob_request \<lparr>dbq_namespace = ns, dbq_blob_id = b\<rparr>)) c =
    (case ba_delete_blob (rustfs_blob_anchor os) ns b (co_objects c) of
       (Inr u, s) \<Rightarrow> (Response 200 NoBody, c\<lparr>co_objects := s\<rparr>)
     | (Inl e, s) \<Rightarrow> (err e, c\<lparr>co_objects := s\<rparr>))"
  by (simp add: co_delete_blob_def respond_def body_json_def json_simps io_bind_def io_lift_def io_map_err_def assms
      on_objects_def presigner_delete_blob_def rustfs_blob_anchor_def empty_body_def split: prod.splits sum.splits)

text \<open>A call to the coordinator: lost or refused with no more than the handler's effect, or served.\<close>

lemma coord_post_cases:
  assumes "coord_post (coordinator_net app order) path j (c, w) = (r, (c', w'))"
  obtains (Lost) e where "r = Inl (presign_unavailable e)" and "co_objects c' = co_objects c"
  | (Executed) c1 resp where "dispatch id (coordinator_routes app order) POST (path_segments path) (JsonBody j)
        (c\<lparr>co_ticks := Suc (co_ticks c)\<rparr>) = (resp, c1)" and "co_objects c' = co_objects c1"
      and "r = Inr resp \<or> (\<exists>e. r = Inl (presign_unavailable e))"
  | (Refused) resp where "r = Inr resp" and "\<not> is_success (resp_status resp)" and "co_objects c' = co_objects c"
proof -
  let ?q = "\<lparr>hr_verb = POST, hr_path = path, hr_body = JsonBody j, hr_fingerprint = None\<rparr>"
  obtain resp c2 where run: "coordinator_router app order ?q c = (resp, c2)" by force
  have via: "thesis" if "c' = c2" "r = Inr resp \<or> (\<exists>e. r = Inl (presign_unavailable e))"
    using run
  proof (cases rule: router_objects)
    case Blocked
    with that show ?thesis using Lost Refused by metis
  next
    case Served
    with that show ?thesis using Executed by auto
  qed
  show thesis
    using assms run via Lost
    by (cases "w_calls w (w_called w)")
      (auto simp: coord_post_def io_map_err_def coordinator_net_def Let_def)
qed

lemma presigned_url_cases:
  assumes "url_contract os http view" and "cf_presigner app = Some os"
    and "presigned_url (coordinator_net app order) at oper (c, w) = (r, (c', w'))"
  shows "view (co_objects c') = view (co_objects c) \<and> r \<noteq> Inl NotFound \<and>
    (\<forall>url. r = Inr url \<longrightarrow> (\<exists>s s'. os_signed_url os (case oper of PresignPut \<Rightarrow> PUT | PresignGet \<Rightarrow> GET)
      (rustfs_key os at) PRESIGN_TTL_SECS s = (Inr url, s')))"
proof -
  let ?j = "to_json_presign_request
      \<lparr>psq_namespace = sr_namespace at, psq_blob_id = sr_blob_id at, psq_index = sr_index at, psq_op = oper\<rparr>"
  let ?v = "case oper of PresignPut \<Rightarrow> PUT | PresignGet \<Rightarrow> GET"
  have quiet: "view s' = view s" if "os_signed_url os v k ttl s = (x, s')" for v k ttl s x s'
    using assms(1) that unfolding url_contract_def by blast
  obtain p c2 w2 where post: "coord_post (coordinator_net app order) ''/v1/anchor/presign'' ?j (c, w) = (p, (c2, w2))"
    by (metis prod_cases3)
  have same: "c' = c2"
    using assms(3) post by (auto simp: presigned_url_def io_bind_def io_throw_def io_lift_def io_return_def
        split: sum.splits if_splits)
  from post show ?thesis
  proof (cases rule: coord_post_cases)
    case Lost
    then show ?thesis using assms(3) post same by (auto simp: presigned_url_def io_bind_def presign_unavailable_def)
  next
    case Refused
    then show ?thesis using assms(3) post same by (auto simp: presigned_url_def io_bind_def io_throw_def)
  next
    case (Executed c1 resp)
    obtain x s where u: "os_signed_url os ?v (rustfs_key os at) PRESIGN_TTL_SECS (co_objects c) = (x, s)" by force
    have served: "resp = (case x of Inr url \<Rightarrow> Response 200 (JsonBody (to_json_presign_response \<lparr>psp_url = url,
        psp_expires_secs = PRESIGN_TTL_SECS\<rparr>)) | Inl e \<Rightarrow> err (rustfs_backend e))" "co_objects c1 = s"
      using Executed(1) u by (auto simp: anchor_routes co_presign_eq [OF assms(2)] split: sum.splits)
    show ?thesis
      using assms(3) post same Executed(2,3) served quiet [OF u] u
      by (auto simp: presigned_url_def io_bind_def io_throw_def io_lift_def io_return_def presign_unavailable_def from_body_def
          json_simps is_success_def [of 200] split: sum.splits if_splits) 
  qed
qed

section \<open>The adapter is an anchor\<close>

lemma presigned_put_cases:
  assumes "url_contract os http view" and "cf_presigner app = Some os"
    and "presigned_put_shard (coordinator_net app order) (store_at http) at bs (c, w) = (r, (c', w'))"
  shows "(r = Inr () \<longrightarrow> view (co_objects c') = (view (co_objects c))(rustfs_key os at \<mapsto> bs)) \<and>
    (\<forall>k. k \<noteq> rustfs_key os at \<longrightarrow> view (co_objects c') k = view (co_objects c) k)"
proof -
  obtain u c1 w1 where url: "presigned_url (coordinator_net app order) at PresignPut (c, w) = (u, (c1, w1))" by (metis prod_cases3)
  note p = presigned_url_cases [OF assms(1,2) url]
  show ?thesis
  proof (cases u)
    case (Inl e)
    with assms(3) url p show ?thesis by (auto simp: presigned_put_shard_def io_bind_def)
  next
    case (Inr x)
    obtain res s where h: "http PUT x (BytesBody bs) (co_objects c1) = (res, s)" by force
    have "put_effect view (rustfs_key os at) bs (co_objects c1) (res, s)"
      using assms(1) p Inr h unfolding url_contract_def by (metis presign_op.case(1))
    then show ?thesis
      using assms(3) url p Inr h
      by (auto simp: presigned_put_shard_def io_bind_def io_map_err_def io_return_def io_throw_def store_at_def put_effect_def
          split: sum.splits if_splits)
  qed
qed

lemma presigned_get_cases:
  assumes "url_contract os http view" and "cf_presigner app = Some os"
    and "presigned_get_shard (coordinator_net app order) (store_at http) at (c, w) = (r, (c', w'))"
  shows "view (co_objects c') = view (co_objects c) \<and>
    (\<forall>x. r = Inr x \<longrightarrow> view (co_objects c) (rustfs_key os at) = Some x) \<and>
    (r = Inl NotFound \<longrightarrow> view (co_objects c) (rustfs_key os at) = None)"
proof -
  obtain u c1 w1 where url: "presigned_url (coordinator_net app order) at PresignGet (c, w) = (u, (c1, w1))" by (metis prod_cases3)
  note p = presigned_url_cases [OF assms(1,2) url]
  show ?thesis
  proof (cases u)
    case (Inl e)
    with assms(3) url p show ?thesis by (auto simp: presigned_get_shard_def io_bind_def)
  next
    case (Inr x)
    obtain res s where h: "http GET x NoBody (co_objects c1) = (res, s)" by force
    have "get_effect view (rustfs_key os at) (co_objects c1) (res, s)"
      using assms(1) p Inr h unfolding url_contract_def by (metis presign_op.case(2))
    then show ?thesis
      using assms(3) url p Inr h
      by (auto simp: presigned_get_shard_def io_bind_def io_map_err_def io_return_def io_throw_def store_at_def get_effect_def
          presign_unavailable_def split: sum.splits if_splits)
  qed
qed

lemma presigned_delete_cases:
  assumes "cf_presigner app = Some os"
    and "presigned_delete_blob (coordinator_net app order) ns b (c, w) = (r, (c', w'))"
  obtains (Idle) e where "r = Inl e" and "co_objects c' = co_objects c"
  | (Ran) x where "ba_delete_blob (rustfs_blob_anchor os) ns b (co_objects c) = (x, co_objects c')"
    and "r = Inr () \<longrightarrow> x = Inr ()"
proof -
  let ?j = "to_json_delete_blob_request \<lparr>dbq_namespace = ns, dbq_blob_id = b\<rparr>"
  obtain p c2 w2 where post: "coord_post (coordinator_net app order) ''/v1/anchor/delete-blob'' ?j (c, w) = (p, (c2, w2))"
    by (metis prod_cases3)
  have run: "(r, (c', w')) = (case p of Inl e \<Rightarrow> (Inl e, (c2, w2)) | Inr resp \<Rightarrow> if is_success (resp_status resp) then (Inr (), (c2, w2))
      else (Inl (Backend (''coordinator delete-blob returned '' @ show_status (resp_status resp))), (c2, w2)))"
    using assms(2) post by (auto simp: presigned_delete_blob_def io_bind_def io_return_def io_throw_def split: sum.splits if_splits)
  from post show thesis
  proof (cases rule: coord_post_cases)
    case Lost
    then show ?thesis using run Idle by auto
  next
    case Refused
    then show ?thesis using run Idle by auto
  next
    case (Executed c1 resp)
    obtain x s where d: "ba_delete_blob (rustfs_blob_anchor os) ns b (co_objects c) = (x, s)" by force
    then have "co_objects c1 = s" "is_success (resp_status resp) \<Longrightarrow> x = Inr ()"
      using Executed(1) by (auto simp: anchor_routes co_delete_blob_eq [OF assms(1)] split: sum.splits)
    then show ?thesis using Ran [of x] d run Executed(2,3) by (auto split: if_splits)
  qed
qed


text \<open>The bucket in memory, whose URL for an object is its key.\<close>

definition demo_http :: "verb \<Rightarrow> string \<Rightarrow> body \<Rightarrow> (string, bytes) alist \<Rightarrow> (string + reply) \<times> (string, bytes) alist" where
  "demo_http v url b s = (case v of
       PUT \<Rightarrow> (Inr (Response 200 NoBody), DAList.update url (body_bytes b) s)
     | _ \<Rightarrow> (case DAList.lookup s url of Some x \<Rightarrow> (Inr (Response 200 (BytesBody x)), s) | None \<Rightarrow> (Inr (Response 404 NoBody), s)))"

definition demo_presign_app :: "(string, bytes) alist coordinator_app" where
  "demo_presign_app = \<lparr>cf_hash = demo_hash, cf_b64 = \<lparr>b64_encode = of_bytes, b64_decode = (\<lambda>s. Inr (as_bytes s))\<rparr>,
     cf_ed = demo_ed, cf_signing_key = [], cf_rcgen = demo_rcgen, cf_presigner = Some demo_bucket, cf_console = [], cf_security = []\<rparr>"

lemma demo_url_contract: "url_contract demo_bucket demo_http DAList.lookup"
  using demo_bucket_contract
  by (auto simp: url_contract_def demo_bucket_def demo_http_def put_effect_def get_effect_def is_success_def body_bytes_def
      split: option.splits)


end
