(* ===== verification/Onboarding.thy ===== *)
theory Onboarding
  imports Remote_Meta
begin

text \<open>
  Joining the vault.  The node-agent fetches the coordinator's verification key at start-up, with
  retries (\<^verbatim>\<open>fetch_verifier\<close> in \<^verbatim>\<open>bins/node-agent/src/main.rs\<close>); an application registers, allocates a
  namespace and asks for a capability through the control-plane client.  The properties compose both
  with the coordinator's router.
\<close>

section \<open>Fetching the key (main.rs)\<close>

datatype startup_error = HttpFailed string | BodyFailed string | KeyFailed port_error | StartupPanic

text \<open>A reply that arrived: its body, the base64 text and the key itself must be in order, or start-up fails.\<close>

definition verifier_from_reply :: "ed25519_crate \<Rightarrow> b64_engine \<Rightarrow> reply \<Rightarrow> startup_error + auth_verifier" where
  "verifier_from_reply ed b64 resp =
     (case from_body of_json_coordinator_key (resp_body resp) of
        Inl e \<Rightarrow> Inl (BodyFailed ''error decoding response body'')
      | Inr key \<Rightarrow> (case b64_decode b64 (ck_public_key_b64 key) of
          Inl e \<Rightarrow> Inl (BodyFailed e)
        | Inr bs \<Rightarrow> map_sum KeyFailed id (verifier_from_public_key ed bs)))"

text \<open>
  The loop over the attempts; \<^verbatim>\<open>error_for_status\<close> turns an error status into a failed attempt, and each
  failed one is followed by a longer pause.  \<open>sleep\<close> is \<^verbatim>\<open>tokio::time::sleep\<close>, in milliseconds.
\<close>

fun fetch_attempts ::
  "ed25519_crate \<Rightarrow> b64_engine \<Rightarrow> 'w net \<Rightarrow> (nat \<Rightarrow> 'w \<Rightarrow> 'w) \<Rightarrow> nat list \<Rightarrow> startup_error option \<Rightarrow> 'w
   \<Rightarrow> (startup_error + auth_verifier) \<times> 'w" where
  "fetch_attempts ed b64 net sleep [] last_err w = (Inl (case last_err of Some e \<Rightarrow> e | None \<Rightarrow> StartupPanic), w)"
| "fetch_attempts ed b64 net sleep (attempt # attempts) last_err w =
     (case net \<lparr>hr_verb = GET, hr_path = ''/v1/coordinator/pubkey'', hr_body = NoBody, hr_fingerprint = None\<rparr> w of
        (Inl e, w') \<Rightarrow> fetch_attempts ed b64 net sleep attempts (Some (HttpFailed e)) (sleep (300 * (attempt + 1)) w')
      | (Inr resp, w') \<Rightarrow>
          if 400 \<le> resp_status resp
          then fetch_attempts ed b64 net sleep attempts (Some (HttpFailed (show_status (resp_status resp)))) (sleep (300 * (attempt + 1)) w')
          else (verifier_from_reply ed b64 resp, w'))"

definition fetch_verifier ::
  "ed25519_crate \<Rightarrow> b64_engine \<Rightarrow> 'w net \<Rightarrow> (nat \<Rightarrow> 'w \<Rightarrow> 'w) \<Rightarrow> 'w \<Rightarrow> (startup_error + auth_verifier) \<times> 'w" where
  "fetch_verifier ed b64 net sleep = fetch_attempts ed b64 net sleep [0..<10] None"

text \<open>The loop makes at most one call and one pause per attempt, and ends with a verifier or a reported error.\<close>

lemma verifier_from_reply_no_panic: "verifier_from_reply ed b64 resp \<noteq> Inl StartupPanic"
  by (auto simp: verifier_from_reply_def split: sum.splits) (metis map_sum.simps startup_error.distinct(11) sum.exhaust sum.inject(1) sum.simps(4))

lemma fetch_attempts_bounded:
  fixes calls slept :: "'w \<Rightarrow> nat"
  assumes net: "\<forall>q w. calls (snd (net q w)) \<le> Suc (calls w) \<and> slept (snd (net q w)) = slept w"
    and sleep: "\<forall>ms w. calls (sleep ms w) = calls w \<and> slept (sleep ms w) = slept w + ms"
    and run: "fetch_attempts ed b64 net sleep attempts last_err w = (r, w')"
  shows "calls w' \<le> calls w + length attempts \<and> slept w' \<le> slept w + (\<Sum>a\<leftarrow>attempts. 300 * (a + 1)) \<and>
    (attempts \<noteq> [] \<or> last_err \<notin> {None, Some StartupPanic} \<longrightarrow> r \<noteq> Inl StartupPanic)"
  using run
proof (induction attempts arbitrary: last_err w)
  case Nil
  then show ?case by (auto split: option.splits)
next
  case (Cons a attempts)
  let ?q = "\<lparr>hr_verb = GET, hr_path = ''/v1/coordinator/pubkey'', hr_body = NoBody, hr_fingerprint = None\<rparr>"
  obtain x w1 where x: "net ?q w = (x, w1)" by force
  then have one: "calls w1 \<le> Suc (calls w)" "slept w1 = slept w" using net [rule_format, of ?q w] by simp_all
  have again: ?case if "fetch_attempts ed b64 net sleep attempts (Some (HttpFailed e)) (sleep (300 * (a + 1)) w1) = (r, w')" for e
    using Cons.IH [OF that] one sleep [rule_format, of "300 * (a + 1)" w1] by auto
  show ?case
  proof (cases x)
    case (Inl e)
    with Cons.prems x again [of e] show ?thesis by simp
  next
    case (Inr resp)
    show ?thesis
    proof (cases "400 \<le> resp_status resp")
      case True
      with Cons.prems x Inr again [of "show_status (resp_status resp)"] show ?thesis by simp
    next
      case False
      with Cons.prems x Inr one verifier_from_reply_no_panic [of ed b64 resp] show ?thesis by auto
    qed
  qed
qed



lemma pubkey_route:
  "dispatch id (coordinator_routes app order) GET (path_segments ''/v1/coordinator/pubkey'') b = co_pubkey app b"
proof -
  have "path_segments ''/v1/coordinator/pubkey'' = [''v1'', ''coordinator'', ''pubkey'']" by code_simp
  then show ?thesis by (simp add: coordinator_routes_def fun_eq_iff)
qed

lemma pubkey_served:
  assumes "\<not> is_blocked (pm_responder c) ''anonymous''"
  shows "coordinator_router app order \<lparr>hr_verb = GET, hr_path = ''/v1/coordinator/pubkey'', hr_body = NoBody, hr_fingerprint = None\<rparr> c =
    (Response 200 (JsonBody (to_json_coordinator_key \<lparr>ck_public_key_b64 =
       b64_encode (cf_b64 app) (ed_verifying_key (cf_ed app) (cf_signing_key app))\<rparr>)), c\<lparr>co_ticks := Suc (co_ticks c)\<rparr>)"
  using assms by (intro router_passes) (simp_all add: pubkey_route co_pubkey_def ed25519_signer_def)

text \<open>What the crate promises of a public key: it has 32 bytes and is read back.\<close>

definition key_readable :: "ed25519_crate \<Rightarrow> bytes \<Rightarrow> bool" where
  "key_readable ed pub \<longleftrightarrow> length pub = 32 \<and> ed_key_from_bytes ed pub = Inr pub"

lemma verifier_from_own_reply:
  assumes "b64_correct b64" and "key_readable ed pub"
  shows "verifier_from_reply ed b64 (Response 200 (JsonBody (to_json_coordinator_key \<lparr>ck_public_key_b64 = b64_encode b64 pub\<rparr>))) =
    Inr (ed25519_verifier ed pub)"
  using assms by (simp add: verifier_from_reply_def from_body_def json_simps b64_correct_def verifier_from_public_key_def key_readable_def)

lemma coordinator_net_eq:
  "coordinator_net app order q (c, w) = (let w' = w\<lparr>w_called := Suc (w_called w)\<rparr> in
     case w_calls w (w_called w) of
       RequestLost e \<Rightarrow> (Inl e, (c, w'))
     | ReplyLost e \<Rightarrow> (Inl e, (snd (coordinator_router app order q c), w'))
     | Delivered \<Rightarrow> (case coordinator_router app order q c of (r, c') \<Rightarrow> (Inr r, (c', w'))))"
  by (simp add: coordinator_net_def)

text \<open>
  Between the attempts the coordinator serves others; the pauses do not use up the node's own calls and
  do not block header-less callers.
\<close>

definition patient_sleep :: "(nat \<Rightarrow> 'o coordinator \<times> world \<Rightarrow> 'o coordinator \<times> world) \<Rightarrow> bool" where
  "patient_sleep sleep \<longleftrightarrow> (\<forall>ms c w. snd (sleep ms (c, w)) = w \<and>
     (\<not> is_blocked (pm_responder c) ''anonymous'' \<longrightarrow> \<not> is_blocked (pm_responder (fst (sleep ms (c, w)))) ''anonymous''))"

lemma fetch_attempts_succeed:
  assumes "patient_sleep sleep" and "\<not> is_blocked (pm_responder c) ''anonymous''" and "b64_correct (cf_b64 app)"
    and "key_readable (cf_ed app) (ed_verifying_key (cf_ed app) (cf_signing_key app))"
    and "i < length attempts" and "w_calls w (w_called w + i) = Delivered"
  shows "fst (fetch_attempts (cf_ed app) (cf_b64 app) (coordinator_net app order) sleep attempts e (c, w)) =
    Inr (ed25519_verifier (cf_ed app) (ed_verifying_key (cf_ed app) (cf_signing_key app)))"
  using assms(2-)
proof (induction attempts arbitrary: c w e i)
  case (Cons a attempts)
  note served = pubkey_served [OF Cons.prems(1), of app order]
  have again: "fst (fetch_attempts (cf_ed app) (cf_b64 app) (coordinator_net app order) sleep attempts e' (sleep ms (c', w\<lparr>w_called := Suc (w_called w)\<rparr>))) =
      Inr (ed25519_verifier (cf_ed app) (ed_verifying_key (cf_ed app) (cf_signing_key app)))"
    if lost: "w_calls w (w_called w) \<noteq> Delivered" and free: "\<not> is_blocked (pm_responder c') ''anonymous''" for e' ms c'
  proof -
    obtain j where j: "i = Suc j" using Cons.prems(5) lost by (cases i) auto
    obtain c2 where "sleep ms (c', w\<lparr>w_called := Suc (w_called w)\<rparr>) = (c2, w\<lparr>w_called := Suc (w_called w)\<rparr>)"
        "\<not> is_blocked (pm_responder c2) ''anonymous''"
      using assms(1) free unfolding patient_sleep_def by (metis prod.collapse)
    then show ?thesis using Cons.prems j by (simp add: Cons.IH [of _ j])
  qed
  show ?case
  proof (cases "w_calls w (w_called w)")
    case Delivered
    then show ?thesis using Cons.prems served by (simp add: coordinator_net_eq verifier_from_own_reply)
  next
    case (RequestLost x)
    with Cons.prems again show ?thesis by (simp add: coordinator_net_eq Let_def)
  next
    case (ReplyLost x)
    with Cons.prems served again show ?thesis by (simp add: coordinator_net_eq Let_def)
  qed
qed simp

text \<open>
  Start-up is forgiving: while header-less callers are not blocked, a node obtains the verifier for the
  coordinator's signing key as soon as one of its ten attempts gets through, whatever happens to the
  attempts before and whoever the coordinator serves between them.
\<close>

lemma fetch_verifier_gets_key:
  assumes "patient_sleep sleep" and "\<not> is_blocked (pm_responder c) ''anonymous''" and "b64_correct (cf_b64 app)"
    and "key_readable (cf_ed app) (ed_verifying_key (cf_ed app) (cf_signing_key app))"
    and "i < 10" and "w_calls w (w_called w + i) = Delivered"
  obtains cw where "fetch_verifier (cf_ed app) (cf_b64 app) (coordinator_net app order) sleep (c, w) =
    (Inr (ed25519_verifier (cf_ed app) (ed_verifying_key (cf_ed app) (cf_signing_key app))), cw)"
proof -
  have "fst (fetch_verifier (cf_ed app) (cf_b64 app) (coordinator_net app order) sleep (c, w)) =
      Inr (ed25519_verifier (cf_ed app) (ed_verifying_key (cf_ed app) (cf_signing_key app)))"
    unfolding fetch_verifier_def using assms by (intro fetch_attempts_succeed) simp_all
  then show thesis using that by (metis prod.collapse)
qed

section \<open>Onboarding an application\<close>

definition direct_net :: "'o coordinator_app \<Rightarrow> (string set \<Rightarrow> string list) \<Rightarrow> 'o coordinator net" where
  "direct_net app order q c = (case coordinator_router app order q c of (r, c') \<Rightarrow> (Inr r, c'))"

lemma control_routes:
  "dispatch id (coordinator_routes app order) POST (path_segments ''/v1/apps'') b = co_register_app app b"
  "dispatch id (coordinator_routes app order) POST (path_segments ''/v1/namespaces'') b = co_create_namespace b"
  "dispatch id (coordinator_routes app order) POST (path_segments ''/v1/capabilities'') b = co_issue_capability app b"
proof -
  have "path_segments ''/v1/apps'' = [''v1'', ''apps'']" "path_segments ''/v1/namespaces'' = [''v1'', ''namespaces'']"
    "path_segments ''/v1/capabilities'' = [''v1'', ''capabilities'']" by code_simp+
  then show "dispatch id (coordinator_routes app order) POST (path_segments ''/v1/apps'') b = co_register_app app b"
    and "dispatch id (coordinator_routes app order) POST (path_segments ''/v1/namespaces'') b = co_create_namespace b"
    and "dispatch id (coordinator_routes app order) POST (path_segments ''/v1/capabilities'') b = co_issue_capability app b"
    by (simp_all add: coordinator_routes_def fun_eq_iff)
qed

lemma post_direct:
  assumes "\<not> is_blocked (pm_responder c) ''anonymous''"
    and "dispatch id (coordinator_routes app order) POST (path_segments path) (JsonBody j) (c\<lparr>co_ticks := Suc (co_ticks c)\<rparr>) =
      (Response 200 (JsonBody v), c')"
    and "dec v = Some x"
  shows "post_json (direct_net app order) text path j dec c = (Inr x, c')"
  using assms router_passes [OF assms(1,2)] by (intro post_json_cases(3)) (simp_all add: direct_net_def)

text \<open>The three calls, from an unblocked coordinator.\<close>

lemma client_registers:
  assumes "\<not> is_blocked (pm_responder c) ''anonymous''"
  obtains a r c' where "client_register_app (direct_net app order) text label q ret er c = (Inr r, c')"
    and "rap_app_id r = a" and "a = AppId (''app-'' @ uuid_simple (co_random c (co_draws c)))"
    and "rap_contract r = app_contract_new a q ret er"
    and "mem_view (co_meta c') = add_contract (app_contract_new a q ret er) (mem_view (co_meta c))"
    and "perim c' = perim c" and "co_random c' = co_random c"
proof -
  let ?a = "AppId (''app-'' @ uuid_simple (co_random c (co_draws c)))"
  let ?ct = "app_contract_new ?a q ret er"
  let ?r = "\<lparr>rap_app_id = ?a, rap_contract = ?ct,
    rap_app_signing_public_key_b64 = b64_encode (cf_b64 app) (ed_verifying_key (cf_ed app) (co_seeds c (co_seeded c)))\<rparr>"
  let ?c = "c\<lparr>co_ticks := Suc (co_ticks c), co_draws := Suc (co_draws c), co_meta := snd (mem_register_app ?ct (co_meta c)),
    co_seeded := Suc (co_seeded c)\<rparr>"
  have "co_register_app app (JsonBody (to_json_register_app_request \<lparr>raq_label = label, raq_quota = q, raq_retention = ret, raq_erasure = er\<rparr>))
      (c\<lparr>co_ticks := Suc (co_ticks c)\<rparr>) = (Response 200 (JsonBody (to_json_register_app_response ?r)), ?c)"
    by (simp add: co_register_app_def respond_def body_json_def json_simps register_app_execute_def Let_def io_bind_def io_lift_def
        io_map_err_def io_read_def io_return_def co_metadata_def co_store_def co_ids_def mem_register_app_def co_seed_def
        app_contract_new_def ed25519_signer_def)
  then have "client_register_app (direct_net app order) text label q ret er c = (Inr ?r, ?c)"
    unfolding client_register_app_def
    by (intro post_direct [OF assms], simp only: control_routes) (simp only: json_simps)
  then show thesis by (rule that) (simp_all add: mem_view_ops)
qed

lemma client_allocates:
  assumes "\<not> is_blocked (pm_responder c) ''anonymous''" and "mv_contracts (mem_view (co_meta c)) a \<noteq> None"
  obtains i c' where "client_create_namespace (direct_net app order) text a c = (Inr \<lparr>cnp_namespace_id = i\<rparr>, c')"
    and "mem_view (co_meta c') = add_namespace \<lparr>nsp_id = i, nsp_app_id = a\<rparr> (mem_view (co_meta c))"
    and "i = NamespaceId (''ns-'' @ uuid_simple (co_random c (co_draws c)))" and "perim c' = perim c"
proof -
  let ?i = "NamespaceId (''ns-'' @ uuid_simple (co_random c (co_draws c)))"
  let ?c = "c\<lparr>co_ticks := Suc (co_ticks c), co_draws := Suc (co_draws c),
    co_meta := snd (mem_create_namespace \<lparr>nsp_id = ?i, nsp_app_id = a\<rparr> (co_meta c))\<rparr>"
  have "co_create_namespace (JsonBody (to_json_create_namespace_request \<lparr>cnq_app_id = a\<rparr>)) (c\<lparr>co_ticks := Suc (co_ticks c)\<rparr>) =
      (Response 200 (JsonBody (to_json_create_namespace_response \<lparr>cnp_namespace_id = ?i\<rparr>)), ?c)"
    using assms(2) by (auto simp: co_create_namespace_def respond_def body_json_def json_simps create_namespace_execute_def Let_def
        io_bind_def io_lift_def io_map_err_def io_read_def io_return_def co_metadata_def co_store_def co_ids_def
        mem_create_namespace_def mem_get_contract_def store_simps)
  then have "client_create_namespace (direct_net app order) text a c = (Inr \<lparr>cnp_namespace_id = ?i\<rparr>, ?c)"
    unfolding client_create_namespace_def
    by (intro post_direct [OF assms(1)], simp only: control_routes) (simp only: json_simps)
  then show thesis by (rule that) (simp_all add: mem_view_ops)
qed

lemma client_issues:
  assumes "\<not> is_blocked (pm_responder c) ''anonymous''"
    and "mv_namespaces (mem_view (co_meta c)) ns = Some n" and "nsp_app_id n = a"
  obtains non c' tok where "client_issue_capability (direct_net app order) text a ns oper ttl c = (Inr tok, c')"
    and "ed25519_sign (cf_ed app) (cf_signing_key app) \<lparr>cc_app_id = a, cc_namespace = ns, cc_operation = oper, cc_nonce = non,
        cc_expires_at = plus_secs (Timestamp (co_clock c (Suc (co_ticks c)))) (clamp_u64 1 MAX_TOKEN_TTL_SECS ttl)\<rparr> = Inr tok"
    and "co_meta c' = co_meta c" and "perim c' = perim c"
proof -
  let ?claims = "\<lparr>cc_app_id = a, cc_namespace = ns, cc_operation = oper,
    cc_nonce = Nonce (''nonce-'' @ uuid_simple (co_random c (co_draws c))),
    cc_expires_at = plus_secs (Timestamp (co_clock c (Suc (co_ticks c)))) (clamp_u64 1 MAX_TOKEN_TTL_SECS ttl)\<rparr>"
  obtain tok where sign: "ed25519_sign (cf_ed app) (cf_signing_key app) ?claims = Inr tok" by (simp add: ed25519_sign_def)
  let ?c = "c\<lparr>co_ticks := Suc (Suc (co_ticks c)), co_draws := Suc (co_draws c)\<rparr>"
  have "co_issue_capability app (JsonBody (to_json_issue_capability_request
        \<lparr>icq_app_id = a, icq_namespace = ns, icq_operation = oper, icq_ttl_secs = ttl\<rparr>)) (c\<lparr>co_ticks := Suc (co_ticks c)\<rparr>) =
      (Response 200 (JsonBody (to_json_issue_capability_response \<lparr>icp_token = tok\<rparr>)), ?c)"
    using assms(2,3) sign by (simp add: co_issue_capability_def respond_def body_json_def json_simps issue_capability_execute_def
        Let_def io_bind_def io_lift_def io_map_err_def io_read_def io_return_def co_metadata_def co_store_def co_ids_def
        mem_get_namespace_def store_simps owned_by_def co_system_clock_def new_nonce_def ed25519_signer_def)
  then have "post_json (direct_net app order) text ''/v1/capabilities'' (to_json_issue_capability_request
      \<lparr>icq_app_id = a, icq_namespace = ns, icq_operation = oper, icq_ttl_secs = ttl\<rparr>) of_json_issue_capability_response c =
      (Inr \<lparr>icp_token = tok\<rparr>, ?c)"
    by (intro post_direct [OF assms(1)], simp only: control_routes) (simp only: json_simps)
  then have "client_issue_capability (direct_net app order) text a ns oper ttl c = (Inr tok, ?c)"
    by (simp add: client_issue_capability_def io_bind_def io_return_def)
  then show thesis using sign by (rule that) simp_all
qed

text \<open>
  Onboarding works.  From a coordinator that does not block header-less callers, an application
  that registers, allocates a namespace and asks for a capability through the client gets a token;
  it names that app, namespace and operation, lives at most 15 minutes from the coordinator's clock,
  and opens the guard of every node that sees the coordinator's metadata and whose clock has not
  reached its expiry.
\<close>

theorem onboarding_opens_vault:
  assumes "\<not> is_blocked (pm_responder c) ''anonymous''" and "ed_correct (cf_ed app) (cf_signing_key app)"
  shows "\<exists>r c1 i c2 tok c3.
    client_register_app (direct_net app order) text label q ret er c = (Inr r, c1) \<and>
    client_create_namespace (direct_net app order) text (rap_app_id r) c1 = (Inr \<lparr>cnp_namespace_id = i\<rparr>, c2) \<and>
    client_issue_capability (direct_net app order) text (rap_app_id r) i oper ttl c2 = (Inr tok, c3) \<and>
    mv_contracts (mem_view (co_meta c3)) (rap_app_id r) = Some (app_contract_new (rap_app_id r) q ret er) \<and>
    cc_expires_at (ct_claims tok) =
      plus_secs (Timestamp (co_clock c (Suc (co_ticks c2)))) (clamp_u64 1 MAX_TOKEN_TTL_SECS ttl) \<and>
    (\<forall>root w. calm root w \<longrightarrow> w_meta w = co_meta c3 \<longrightarrow> Timestamp (w_clock w (w_ticks w)) < cc_expires_at (ct_claims tok) \<longrightarrow>
      fst (guard_authorize (ed25519_verifier (cf_ed app) (ed_verifying_key (cf_ed app) (cf_signing_key app))) node_meta system_clock
        i tok oper w) = Inr (rap_app_id r))"
proof -
  obtain a r c1 where r: "client_register_app (direct_net app order) text label q ret er c = (Inr r, c1)" "rap_app_id r = a"
      "a = AppId (''app-'' @ uuid_simple (co_random c (co_draws c)))" "rap_contract r = app_contract_new a q ret er"
      "mem_view (co_meta c1) = add_contract (app_contract_new a q ret er) (mem_view (co_meta c))" "perim c1 = perim c"
      "co_random c1 = co_random c"
    using assms(1) by (rule client_registers)
  have "\<not> is_blocked (pm_responder c1) ''anonymous''" "mv_contracts (mem_view (co_meta c1)) a \<noteq> None"
    using assms(1) r by (simp_all add: add_contract_def app_contract_new_def)
  then obtain i c2 where n: "client_create_namespace (direct_net app order) text a c1 = (Inr \<lparr>cnp_namespace_id = i\<rparr>, c2)"
      "mem_view (co_meta c2) = add_namespace \<lparr>nsp_id = i, nsp_app_id = a\<rparr> (mem_view (co_meta c1))"
      "i = NamespaceId (''ns-'' @ uuid_simple (co_random c1 (co_draws c1)))" "perim c2 = perim c1"
    by (rule client_allocates)
  have u: "\<not> is_blocked (pm_responder c2) ''anonymous''" using assms(1) r(6) n(4) by simp
  have ns: "mv_namespaces (mem_view (co_meta c2)) i = Some \<lparr>nsp_id = i, nsp_app_id = a\<rparr>" by (simp add: n(2) add_namespace_def)
  obtain non c3 tok where t: "client_issue_capability (direct_net app order) text a i oper ttl c2 = (Inr tok, c3)"
      "ed25519_sign (cf_ed app) (cf_signing_key app) \<lparr>cc_app_id = a, cc_namespace = i, cc_operation = oper, cc_nonce = non,
        cc_expires_at = plus_secs (Timestamp (co_clock c2 (Suc (co_ticks c2)))) (clamp_u64 1 MAX_TOKEN_TTL_SECS ttl)\<rparr> = Inr tok"
      "co_meta c3 = co_meta c2" "perim c3 = perim c2"
    by (rule client_issues [OF u ns]) simp_all
  note sv = sign_then_verify [OF assms(2) t(2)]
  have opens: "fst (guard_authorize (ed25519_verifier (cf_ed app) (ed_verifying_key (cf_ed app) (cf_signing_key app))) node_meta system_clock
        i tok oper w) = Inr a"
    if "calm root w" "w_meta w = co_meta c3" "Timestamp (w_clock w (w_ticks w)) < cc_expires_at (ct_claims tok)" for root w
    using node_guard_accepts [OF that(1) _ _ _ that(3), where n = "\<lparr>nsp_id = i, nsp_app_id = a\<rparr>"] sv that(2) ns
    by (simp add: ed25519_verifier_def t(3))
  have "mv_contracts (mem_view (co_meta c3)) a = Some (app_contract_new a q ret er)"
    by (simp add: t(3) n(2) r(5) add_namespace_def add_contract_def app_contract_new_def)
  moreover have "cc_expires_at (ct_claims tok) =
      plus_secs (Timestamp (co_clock c (Suc (co_ticks c2)))) (clamp_u64 1 MAX_TOKEN_TTL_SECS ttl)"
    using sv r(6) n(4) by simp
  ultimately show ?thesis
    using r(1) n(1) t(1) opens unfolding r(2) [symmetric] by blast
qed

theorem onboarding_opens_vault_witness:
  "\<exists>r c1 i c2 tok c3. let net = direct_net (demo_coordinator_app\<lparr>cf_ed := lenient_ed\<rparr>) (\<lambda>_. []) in
    client_register_app net (\<lambda>_. []) ''app'' \<lparr>q_max_bytes = 1000, q_max_objects = 10\<rparr> \<lparr>rp_keep_versions = 1, rp_min_days = 1\<rparr>
      \<lparr>ep_k = 2, ep_n = 3\<rparr> demo_coordinator = (Inr r, c1) \<and>
    client_create_namespace net (\<lambda>_. []) (rap_app_id r) c1 = (Inr \<lparr>cnp_namespace_id = i\<rparr>, c2) \<and>
    client_issue_capability net (\<lambda>_. []) (rap_app_id r) i OpPut 60 c2 = (Inr tok, c3)"
proof -
  have u: "\<not> is_blocked (pm_responder demo_coordinator) ''anonymous''" by code_simp
  have "ed_correct (cf_ed (demo_coordinator_app\<lparr>cf_ed := lenient_ed\<rparr>)) (cf_signing_key (demo_coordinator_app\<lparr>cf_ed := lenient_ed\<rparr>))"
    using lenient_ed_correct by simp
  from onboarding_opens_vault [OF u this, of "\<lambda>_. []" "\<lambda>_. []" "''app''" "\<lparr>q_max_bytes = 1000, q_max_objects = 10\<rparr>"
      "\<lparr>rp_keep_versions = 1, rp_min_days = 1\<rparr>" "\<lparr>ep_k = 2, ep_n = 3\<rparr>" OpPut 60]
  show ?thesis by (auto simp: Let_def)
qed

end
