(* ===== verification/Concurrent_Puts.thy ===== *)
theory Concurrent_Puts
  imports Deployment
begin

text \<open>
  Puts that overlap.  \<^verbatim>\<open>PutBackup::execute\<close> asks the metadata store for the namespace's usage, decides,
  encodes and writes the shards, and only then records the manifest; node-agents and requests do this
  concurrently, and the store's lock covers one call at a time.  A state here is the store and the
  manifests of the puts that have passed the check but not yet recorded their blob.
\<close>

section \<open>Steps\<close>

text \<open>
  A put passes the quota check on a reading of the usage, an admitted put records its manifest or is
  given up after an error, and some blob is deleted.
\<close>

inductive put_step :: "quota \<Rightarrow> namespace_id \<Rightarrow> memstore \<times> manifest list \<Rightarrow> memstore \<times> manifest list \<Rightarrow> bool"
  for q ns where
  Check: "mem_namespace_usage ns s = (Inr u, s') \<Longrightarrow> admits q (nu_bytes u) (nu_objects u) (mf_ciphertext_len m) \<Longrightarrow>
    mf_namespace m = ns \<Longrightarrow> put_step q ns (s, fl) (s', m # fl)"
| Commit: "m \<in> set fl \<Longrightarrow> mem_put_manifest m s = (Inr (), s') \<Longrightarrow> put_step q ns (s, fl) (s', remove1 m fl)"
| Abandon: "m \<in> set fl \<Longrightarrow> put_step q ns (s, fl) (s, remove1 m fl)"
| Delete: "mem_delete_manifest ns' b s = (Inr (), s') \<Longrightarrow> put_step q ns (s, fl) (s', fl)"

inductive_cases put_stepE: "put_step q ns (s, fl) (s', fl')"

text \<open>At most \<open>p\<close> puts of at most \<open>z\<close> bytes are between check and record at any time.\<close>

definition crowd :: "nat \<Rightarrow> nat \<Rightarrow> manifest list \<Rightarrow> bool" where
  "crowd p z fl \<longleftrightarrow> length fl \<le> p \<and> (\<forall>m\<in>set fl. unat (mf_ciphertext_len m) \<le> z)"

inductive put_reach :: "quota \<Rightarrow> namespace_id \<Rightarrow> nat \<Rightarrow> nat \<Rightarrow> memstore \<Rightarrow> memstore \<times> manifest list \<Rightarrow> bool"
  for q ns p z s0 where
  Start: "put_reach q ns p z s0 (s0, [])"
| Step: "put_reach q ns p z s0 st \<Longrightarrow> put_step q ns st st' \<Longrightarrow> crowd p z (snd st') \<Longrightarrow> put_reach q ns p z s0 st'"

section \<open>Usage in exact arithmetic\<close>

definition stored_objects :: "memstore \<Rightarrow> namespace_id \<Rightarrow> nat" where
  "stored_objects s ns = card (blobs_of (mem_view s) ns)"

definition stored_bytes :: "memstore \<Rightarrow> namespace_id \<Rightarrow> nat" where
  "stored_bytes s ns = (\<Sum>b\<in>blobs_of (mem_view s) ns. unat (mf_ciphertext_len (the (mv_manifests (mem_view s) (ns, b)))))"

definition flight_bytes :: "manifest list \<Rightarrow> nat" where
  "flight_bytes fl = sum_list (map (\<lambda>m. unat (mf_ciphertext_len m)) fl)"

lemma word_sum_unat: "finite B \<Longrightarrow> (\<Sum>b\<in>B. f b) = (word_of_nat (\<Sum>b\<in>B. unat (f b)) :: 'a::len word)"
  by (induction B rule: finite_induct) simp_all

lemma usage_exact:
  assumes "stored_bytes s ns < 2 ^ 64" and "stored_objects s ns < 2 ^ 64"
  shows "unat (nu_bytes (usage_of (mem_view s) ns)) = stored_bytes s ns"
    and "unat (nu_objects (usage_of (mem_view s) ns)) = stored_objects s ns"
proof -
  have "nu_bytes (usage_of (mem_view s) ns) = word_of_nat (stored_bytes s ns)"
    unfolding usage_of_def stored_bytes_def namespace_usage.select_convs by (rule word_sum_unat) simp
  then show "unat (nu_bytes (usage_of (mem_view s) ns)) = stored_bytes s ns"
    using assms(1) by (simp only: unat_of_nat_small) (simp add: unat_of_nat_small)
  show "unat (nu_objects (usage_of (mem_view s) ns)) = stored_objects s ns"
    using assms(2) by (simp add: usage_of_def stored_objects_def unat_of_nat_small)
qed

lemma blobs_after_put:
  "blobs_of (mem_view (snd (mem_put_manifest m s))) ns =
     (if mf_namespace m = ns then insert (mf_blob_id m) (blobs_of (mem_view s) ns) else blobs_of (mem_view s) ns)"
  by (auto simp: blobs_of_def mem_put_manifest_def store_simps)

lemma put_grows:
  "stored_objects (snd (mem_put_manifest m s)) ns \<le> stored_objects s ns + 1"
  "stored_bytes (snd (mem_put_manifest m s)) ns \<le> stored_bytes s ns + unat (mf_ciphertext_len m)"
proof -
  let ?B = "blobs_of (mem_view s) ns" and ?b = "mf_blob_id m"
  let ?f = "\<lambda>b. unat (mf_ciphertext_len (the (mv_manifests (mem_view s) (ns, b))))"
  show "stored_objects (snd (mem_put_manifest m s)) ns \<le> stored_objects s ns + 1"
    using card_insert_le_m1 by (simp add: stored_objects_def blobs_after_put card_insert_if)
  show "stored_bytes (snd (mem_put_manifest m s)) ns \<le> stored_bytes s ns + unat (mf_ciphertext_len m)"
  proof (cases "mf_namespace m = ns")
    case True
    have "stored_bytes (snd (mem_put_manifest m s)) ns =
        (\<Sum>b\<in>insert ?b ?B. if b = ?b then unat (mf_ciphertext_len m) else ?f b)"
      using True by (simp add: stored_bytes_def blobs_after_put) (intro sum.cong, auto simp: mem_put_manifest_def store_simps)
    also have "\<dots> = unat (mf_ciphertext_len m) + (\<Sum>b\<in>?B - {?b}. ?f b)"
      by (subst sum.insert_remove) (auto intro!: sum.cong)
    also have "\<dots> \<le> unat (mf_ciphertext_len m) + (\<Sum>b\<in>?B. ?f b)"
      by (intro add_left_mono sum_mono2) auto
    finally show ?thesis by (simp add: stored_bytes_def)
  next
    case False
    then have "stored_bytes (snd (mem_put_manifest m s)) ns = stored_bytes s ns"
      by (simp add: stored_bytes_def blobs_after_put) (auto simp: mem_put_manifest_def store_simps)
    then show ?thesis by simp
  qed
qed

lemma delete_shrinks:
  "stored_objects (snd (mem_delete_manifest ns' b s)) ns \<le> stored_objects s ns"
  "stored_bytes (snd (mem_delete_manifest ns' b s)) ns \<le> stored_bytes s ns"
proof -
  have sub: "blobs_of (mem_view (snd (mem_delete_manifest ns' b s))) ns = blobs_of (mem_view s) ns - (if ns' = ns then {b} else {})"
    by (auto simp: blobs_of_def mem_delete_manifest_def store_simps)
  show "stored_objects (snd (mem_delete_manifest ns' b s)) ns \<le> stored_objects s ns"
    by (simp add: stored_objects_def sub card_mono)
  have "stored_bytes (snd (mem_delete_manifest ns' b s)) ns =
      (\<Sum>x\<in>blobs_of (mem_view s) ns - (if ns' = ns then {b} else {}). unat (mf_ciphertext_len (the (mv_manifests (mem_view s) (ns, x)))))"
    unfolding stored_bytes_def sub by (intro sum.cong) (auto simp: mem_delete_manifest_def store_simps split: if_splits)
  also have "\<dots> \<le> stored_bytes s ns" unfolding stored_bytes_def by (intro sum_mono2) auto
  finally show "stored_bytes (snd (mem_delete_manifest ns' b s)) ns \<le> stored_bytes s ns" .
qed

section \<open>The overshoot is bounded\<close>

definition within :: "quota \<Rightarrow> namespace_id \<Rightarrow> nat \<Rightarrow> nat \<Rightarrow> memstore \<times> manifest list \<Rightarrow> bool" where
  "within q ns p z st \<longleftrightarrow>
     stored_objects (fst st) ns + length (snd st) \<le> unat (q_max_objects q) + (p - 1) \<and>
     stored_bytes (fst st) ns + flight_bytes (snd st) \<le> unat (q_max_bytes q) + (p - 1) * z"

lemma flight_bytes_simps [simp]:
  "flight_bytes [] = 0" "flight_bytes (m # fl) = unat (mf_ciphertext_len m) + flight_bytes fl"
  by (simp_all add: flight_bytes_def)

lemma flight_bytes_le: "\<forall>m\<in>set fl. unat (mf_ciphertext_len m) \<le> z \<Longrightarrow> flight_bytes fl \<le> length fl * z"
  by (induction fl) (simp_all add: add_mono)

lemma flight_remove1:
  "m \<in> set fl \<Longrightarrow> flight_bytes (remove1 m fl) + unat (mf_ciphertext_len m) = flight_bytes fl"
  "m \<in> set fl \<Longrightarrow> length (remove1 m fl) + 1 = length fl"
  by (induction fl) auto

lemma admits_unat:
  assumes "unat (q_max_bytes q) < 2 ^ 64 - 1" and "admits q cur cnt add"
  shows "unat cur + unat add \<le> unat (q_max_bytes q)" and "unat cnt < unat (q_max_objects q)"
  using assms by (auto simp: admits_def word_le_nat_alt word_less_nat_alt unat_saturating_add)

lemma within_check:
  assumes "within q ns p z (s, fl)" and "admits q (nu_bytes u) (nu_objects u) (mf_ciphertext_len m)"
    and "mem_namespace_usage ns s = (Inr u, s')" and "crowd p z (m # fl)"
    and "unat (q_max_objects q) + p < 2 ^ 64" and "unat (q_max_bytes q) + p * z < 2 ^ 64 - 1"
  shows "within q ns p z (s', m # fl)"
proof -
  have s: "s' = s" "u = usage_of (mem_view s) ns" using assms(3) by (auto simp: mem_usage_of)
  have p: "length fl \<le> p - 1" "1 \<le> p" and z: "\<forall>x\<in>set fl. unat (mf_ciphertext_len x) \<le> z"
    using assms(4) by (auto simp: crowd_def)
  then have "(p - 1) * z \<le> p * z" by simp
  then have "stored_bytes s ns < 2 ^ 64" "stored_objects s ns < 2 ^ 64"
    using assms(1,5,6) p unfolding within_def fst_conv snd_conv by linarith+
  note e = usage_exact [OF this] and a = admits_unat [OF _ assms(2)]
  have "stored_bytes s ns + unat (mf_ciphertext_len m) \<le> unat (q_max_bytes q)" "stored_objects s ns < unat (q_max_objects q)"
    using a assms(6) e s(2) by simp_all
  moreover have "flight_bytes fl \<le> (p - 1) * z"
    using flight_bytes_le [OF z] p(1) by (meson le_trans mult_le_mono1)
  ultimately show ?thesis using p by (simp add: within_def s(1))
qed

lemma within_step:
  assumes "put_step q ns st st'" and "within q ns p z st" and "crowd p z (snd st')"
    and "unat (q_max_objects q) + p < 2 ^ 64" and "unat (q_max_bytes q) + p * z < 2 ^ 64 - 1"
  shows "within q ns p z st'"
  using assms
proof (induction rule: put_step.induct)
  case (Check s u s' m fl)
  then show ?case using within_check [of q ns p z s fl u m s'] by simp
next
  case (Commit m fl s s')
  then show ?case using put_grows [of m s ns] flight_remove1 [OF Commit(1)] by (simp add: within_def)
next
  case (Abandon m fl s)
  then show ?case using flight_remove1 [OF Abandon(1)] by (simp add: within_def)
next
  case (Delete ns' b s s' fl)
  then show ?case using delete_shrinks [of ns' b s ns] by (simp add: within_def)
qed

text \<open>
  C13. How far concurrent puts can exceed a quota.  The check and the record are two calls, so puts that
  overlap can all pass on the same reading; but with at most \<open>p\<close> puts of at most \<open>z\<close> bytes between check
  and record at any time, a namespace that started within its quota never holds more than \<open>p - 1\<close> objects
  and \<open>(p - 1) * z\<close> bytes beyond it, in whatever order checks, records, failures and deletions come.
\<close>

theorem quota_overshoot_bounded:
  assumes "put_reach q ns p z s0 (s, fl)" and "1 \<le> p"
    and "stored_objects s0 ns \<le> unat (q_max_objects q)" and "stored_bytes s0 ns \<le> unat (q_max_bytes q)"
    and "unat (q_max_objects q) + p < 2 ^ 64" and "unat (q_max_bytes q) + p * z < 2 ^ 64 - 1"
  shows "stored_objects s ns + length fl \<le> unat (q_max_objects q) + (p - 1)
    \<and> stored_bytes s ns + flight_bytes fl \<le> unat (q_max_bytes q) + (p - 1) * z"
proof -
  have "within q ns p z (s, fl)" using assms(1)
  proof (induction "(s, fl)" arbitrary: s fl rule: put_reach.induct)
    case Start
    then show ?case using assms by (simp add: within_def)
  next
    case (Step st s' fl')
    then show ?case using within_step [OF _ _ _ assms(5,6)] by (cases st) auto
  qed
  then show ?thesis by (simp add: within_def)
qed

text \<open>Two overlapping puts take a namespace that admits one object to two: the bound is attained.\<close>

definition race_manifest :: "string \<Rightarrow> manifest" where
  "race_manifest b = manifest_new (BlobId b) (NamespaceId ''n'') \<lparr>ep_k = 1, ep_n = 1\<rparr> [] 100 (Timestamp 0)"

definition race_quota :: quota where
  "race_quota = \<lparr>q_max_bytes = 100, q_max_objects = 1\<rparr>"

definition race_store :: "string list \<Rightarrow> memstore" where
  "race_store bs = fold (\<lambda>b s. snd (mem_put_manifest (race_manifest b) s)) bs
     \<lparr>inner_contracts = DAList.empty, inner_namespaces = DAList.empty, inner_manifests = DAList.empty\<rparr>"

lemma race_run:
  "put_reach race_quota (NamespaceId ''n'') 2 100 (race_store []) (race_store [''x'', ''y''], [])"
proof -
  let ?n = "NamespaceId ''n''" and ?x = "race_manifest ''x''" and ?y = "race_manifest ''y''"
  let ?R = "put_reach race_quota ?n 2 100 (race_store [])" and ?S = "put_step race_quota ?n"
  have c: "?S (race_store [], fl) (race_store [], race_manifest b # fl)" for fl b
    by (rule put_step.Check [where u = "\<lparr>nu_bytes = 0, nu_objects = 0\<rparr>"])
      (simp_all add: mem_namespace_usage_def race_store_def race_quota_def admits_def saturating_add_def
        race_manifest_def manifest_new_def DAList.empty.rep_eq)
  have m: "?S (race_store bs, race_manifest b # fl) (race_store (bs @ [b]), fl)" for bs b fl
    using put_step.Commit [of "race_manifest b" "race_manifest b # fl" "race_store bs" "race_store (bs @ [b])"]
    by (simp add: race_store_def mem_put_manifest_def)
  have z: "unat (mf_ciphertext_len (race_manifest b)) = 100" for b by (simp add: race_manifest_def manifest_new_def)
  have "?R (race_store [], [?y])" using put_reach.Step [OF put_reach.Start c] by (simp add: crowd_def z)
  from put_reach.Step [OF this c] have "?R (race_store [], [?x, ?y])" by (simp add: crowd_def z)
  from put_reach.Step [OF this m] have "?R (race_store [''x''], [?y])" by (simp add: crowd_def z)
  from put_reach.Step [OF this m] show ?thesis by (simp add: crowd_def)
qed

lemma race_stored: "stored_objects (race_store []) (NamespaceId ''n'') = 0" "stored_bytes (race_store []) (NamespaceId ''n'') = 0"
  "stored_objects (race_store [''x'', ''y'']) (NamespaceId ''n'') = 2"
proof -
  let ?n = "NamespaceId ''n''"
  have e: "blobs_of (mem_view (race_store [])) ?n = {}" by (simp add: blobs_of_def race_store_def mem_view_def dom_lookup_alist DAList.empty.rep_eq)
  then show "stored_objects (race_store []) ?n = 0" "stored_bytes (race_store []) ?n = 0"
    by (simp_all add: stored_objects_def stored_bytes_def)
  have "blobs_of (mem_view (race_store [''x'', ''y''])) ?n = {BlobId ''y'', BlobId ''x''}"
    using e by (simp add: race_store_def blobs_after_put) (simp add: race_manifest_def manifest_new_def)
  then show "stored_objects (race_store [''x'', ''y'']) ?n = 2" by (simp add: stored_objects_def)
qed

theorem quota_overshoot_bounded_witness:
  "stored_objects (race_store [''x'', ''y'']) (NamespaceId ''n'') = unat (q_max_objects race_quota) + 1
   \<and> stored_bytes (race_store [''x'', ''y'']) (NamespaceId ''n'') \<le> 200"
  using quota_overshoot_bounded [OF race_run] by (simp add: race_stored) (simp add: race_quota_def)

section \<open>One put is a check and a record\<close>

text \<open>A put of the node that succeeds is, on the metadata, the check of the owner's quota followed by the record.\<close>

lemma put_is_two_steps:
  assumes "wired_put root roots c pb" and "plain_id (ns_str ns)" and "put_backup_execute pb ns tok d w = (Inr b, w1)"
  obtains ct m s' where "mv_contracts (node_mview w) (cc_app_id (ct_claims tok)) = Some ct" and "mf_blob_id m = b"
    and "put_step (ac_quota ct) ns (w_meta w, fl) (w_meta w, m # fl)"
    and "put_step (ac_quota ct) ns (w_meta w, m # fl) (s', fl)" and "mem_view s' = node_mview w1"
proof -
  obtain ct shs m where p: "av_verify_signature (pb_verifier pb) tok = Inr ()" "cc_namespace (ct_claims tok) = ns"
      "cc_operation (ct_claims tok) = OpPut" "fst (ck_now system_clock w) < cc_expires_at (ct_claims tok)"
      "\<exists>n. mv_namespaces (node_mview w) ns = Some n \<and> nsp_app_id n = cc_app_id (ct_claims tok)"
      and ct: "mv_contracts (node_mview w) (cc_app_id (ct_claims tok)) = Some ct"
      and q: "admits (ac_quota ct) (nu_bytes (usage_of (node_mview w) ns)) (nu_objects (usage_of (node_mview w) ns))
        (word_of_nat (length d))"
      and m: "ec_encode (pb_erasure pb) d (ac_erasure ct) = Inr shs" "mf_blob_id m = b" "mf_namespace m = ns"
      "mf_erasure m = ac_erasure ct" "mf_ciphertext_len m = word_of_nat (length d)"
      "node_mview w1 = add_manifest m (node_mview w)" "plain_id (blob_str b)"
      "length shs \<le> 2 ^ 16 \<longrightarrow> node_aview root w1 = store_shards ns b 0 shs (node_aview root w) \<and>
        describes (cr_sha256_hex (pb_crypto pb)) 0 shs (mf_shards m)"
    by (rule node.put_ok [OF wiredD(1) [OF assms(1)] assms(2,3)])
  have "mem_put_manifest m (w_meta w) = (Inr (), snd (mem_put_manifest m (w_meta w)))" by (simp add: mem_put_manifest_def)
  from put_step.Commit [OF _ this, of "m # fl"] show ?thesis
    using put_step.Check [OF mem_usage_of, of "ac_quota ct" "w_meta w" ns m fl] q m
    by (intro that [OF ct m(2), of "snd (mem_put_manifest m (w_meta w))"])
      (simp_all add: mem_put_manifest_def store_simps add_manifest_def)
qed

end
