(* ===== verification/Simulation.thy ===== *)
theory Simulation
  imports Node_Service
begin

text \<open>
  Running the same code over two sets of ports.  A refinement map \<open>\<alpha>\<close> takes the states of one
  deployment to those of another; an action over the first simulates one over the second when, from
  every state in the invariant, both answer the same, the map commutes and the invariant is kept.
  Ports that simulate each other make the use-cases of \<^verbatim>\<open>vault-app\<close>, the sweep and the HTTP service of
  the node-agent simulate each other: that is the locale \<open>simulated_ports\<close>.
\<close>

section \<open>Simulation of actions\<close>

definition sim :: "('v \<Rightarrow> 'w) \<Rightarrow> ('v \<Rightarrow> bool) \<Rightarrow> ('v \<Rightarrow> 'a \<times> 'v) \<Rightarrow> ('w \<Rightarrow> 'a \<times> 'w) \<Rightarrow> bool" where
  "sim \<alpha> ok m m' \<longleftrightarrow> (\<forall>v. ok v \<longrightarrow> m' (\<alpha> v) = map_prod id \<alpha> (m v) \<and> ok (snd (m v)))"

named_theorems sim_rules \<open>actions that simulate each other\<close>

lemma simD: "sim \<alpha> ok m m' \<Longrightarrow> ok v \<Longrightarrow> m v = (r, v') \<Longrightarrow> m' (\<alpha> v) = (r, \<alpha> v') \<and> ok v'"
  by (fastforce simp: sim_def)

lemma sim_run:
  assumes "sim \<alpha> ok m m'" and "ok v"
  obtains r v' where "m v = (r, v')" and "m' (\<alpha> v) = (r, \<alpha> v')" and "ok v'"
  using simD [OF assms] by (cases "m v") blast

lemma simI: "(\<And>v r v'. ok v \<Longrightarrow> m v = (r, v') \<Longrightarrow> m' (\<alpha> v) = (r, \<alpha> v') \<and> ok v') \<Longrightarrow> sim \<alpha> ok m m'"
  by (simp add: sim_def prod_eq_iff)

lemma sim_pure [sim_rules, simp]:
  "sim \<alpha> ok (io_return a) (io_return a)" "sim \<alpha> ok (io_throw e) (io_throw e)" "sim \<alpha> ok (io_lift r) (io_lift r)"
  "sim \<alpha> ok (Pair x) (Pair x)"
  by (simp_all add: sim_def io_return_def io_throw_def io_lift_def)

lemma sim_bind:
  assumes "sim \<alpha> ok m m'" and "\<And>v a v'. ok v \<Longrightarrow> m v = (Inr a, v') \<Longrightarrow> sim \<alpha> ok (f a) (f' a)"
  shows "sim \<alpha> ok (io_bind m f) (io_bind m' f')"
proof (rule simI)
  fix v r v''
  assume v: "ok v" and "io_bind m f v = (r, v'')"
  from this(2) show "io_bind m' f' (\<alpha> v) = (r, \<alpha> v'') \<and> ok v''"
  proof (cases rule: io_bindE)
    case (Stop e)
    with simD [OF assms(1) v] show ?thesis by (simp add: io_bind_def)
  next
    case (Go a v')
    with simD [OF assms(1) v] simD [OF assms(2) [OF v Go(1)], of v' r v''] show ?thesis by (simp add: io_bind_def)
  qed
qed

lemma sim_read [sim_rules]: "sim \<alpha> ok g g' \<Longrightarrow> sim \<alpha> ok (io_read g) (io_read g')"
  by (auto simp: sim_def io_read_def split: prod.splits)

lemma sim_map_err [sim_rules]: "sim \<alpha> ok m m' \<Longrightarrow> sim \<alpha> ok (io_map_err h m) (io_map_err h m')"
  by (auto simp: sim_def io_map_err_def split: prod.splits)

lemma sim_attempt [sim_rules]: "sim \<alpha> ok m m' \<Longrightarrow> sim \<alpha> ok (io_attempt m) (io_attempt m')"
  by (auto simp: sim_def io_attempt_def split: prod.splits)

lemma sim_if [sim_rules]:
  "(b \<Longrightarrow> sim \<alpha> ok m m') \<Longrightarrow> (\<not> b \<Longrightarrow> sim \<alpha> ok n n') \<Longrightarrow> sim \<alpha> ok (if b then m else n) (if b then m' else n')"
  by simp

lemma sim_case_option [sim_rules]:
  "(x = None \<Longrightarrow> sim \<alpha> ok m m') \<Longrightarrow> (\<And>a. x = Some a \<Longrightarrow> sim \<alpha> ok (f a) (f' a)) \<Longrightarrow>
    sim \<alpha> ok (case x of None \<Rightarrow> m | Some a \<Rightarrow> f a) (case x of None \<Rightarrow> m' | Some a \<Rightarrow> f' a)"
  by (cases x) simp_all

lemma sim_case_prod [sim_rules]:
  "(\<And>a b. p = (a, b) \<Longrightarrow> sim \<alpha> ok (f a b) (f' a b)) \<Longrightarrow> sim \<alpha> ok (case p of (a, b) \<Rightarrow> f a b) (case p of (a, b) \<Rightarrow> f' a b)"
  by (cases p) simp

lemma sim_case_sum [sim_rules]:
  "(\<And>a. x = Inl a \<Longrightarrow> sim \<alpha> ok (f a) (f' a)) \<Longrightarrow> (\<And>b. x = Inr b \<Longrightarrow> sim \<alpha> ok (g b) (g' b)) \<Longrightarrow>
    sim \<alpha> ok (case x of Inl a \<Rightarrow> f a | Inr b \<Rightarrow> g b) (case x of Inl a \<Rightarrow> f' a | Inr b \<Rightarrow> g' b)"
  by (cases x) simp_all

lemma sim_then:
  assumes "sim \<alpha> ok m m'" and "\<And>v a v'. ok v \<Longrightarrow> m v = (a, v') \<Longrightarrow> sim \<alpha> ok (f a) (f' a)"
  shows "sim \<alpha> ok (\<lambda>v. case m v of (a, v') \<Rightarrow> f a v') (\<lambda>w. case m' w of (a, w') \<Rightarrow> f' a w')"
proof (rule simI)
  fix v r v''
  assume v: "ok v" and *: "(case m v of (a, v') \<Rightarrow> f a v') = (r, v'')"
  obtain a v' where m: "m v = (a, v')" by force
  with simD [OF assms(1) v m] simD [OF assms(2) [OF v m], of v' r v''] * show "(case m' (\<alpha> v) of (a, w') \<Rightarrow> f' a w') = (r, \<alpha> v'') \<and> ok v''" by simp
qed

section \<open>Simulation of handlers and routers\<close>

lemma sim_respond [sim_rules]: "sim \<alpha> ok m m' \<Longrightarrow> sim \<alpha> ok (respond lift f m) (respond lift f m')"
  by (auto simp: sim_def respond_def split: prod.splits sum.splits)

lemma sim_dispatch:
  assumes "list_all2 (\<lambda>(pat, hs) (pat', hs'). pat = pat' \<and>
      list_all2 (\<lambda>(v, h) (v', h'). v = v' \<and> (\<forall>caps. sim \<alpha> ok (h caps b) (h' caps b))) hs hs') rs rs'"
  shows "sim \<alpha> ok (dispatch lift rs v segs b) (dispatch lift rs' v segs b)"
  using assms
proof (induction rule: list_all2_induct)
  case (Cons r rs r' rs')
  obtain pat hs hs' where r: "r = (pat, hs)" "r' = (pat, hs')"
    and hs: "list_all2 (\<lambda>(v, h) (v', h'). v = v' \<and> (\<forall>caps. sim \<alpha> ok (h caps b) (h' caps b))) hs hs'"
    using Cons.hyps(1) by (cases r; cases r') auto
  from hs have "map_of hs v = None \<and> map_of hs' v = None \<or>
      (\<exists>h h'. map_of hs v = Some h \<and> map_of hs' v = Some h' \<and> (\<forall>caps. sim \<alpha> ok (h caps b) (h' caps b)))"
    by (induction rule: list_all2_induct) auto
  with Cons.IH show ?case by (auto simp: r sim_def split: option.splits)
qed (simp add: sim_def)

text \<open>The service's state over the other ports, and the ids its pending repairs hold.\<close>

definition world_map :: "('v \<Rightarrow> 'w) \<Rightarrow> 'v node \<Rightarrow> 'w node" where
  "world_map \<alpha> nd = \<lparr>nd_world = \<alpha> (nd_world nd), nd_sweep = nd_sweep nd, nd_tasks = nd_tasks nd\<rparr>"

definition node_ok :: "('v \<Rightarrow> bool) \<Rightarrow> (namespace_id \<Rightarrow> bool) \<Rightarrow> (blob_id \<Rightarrow> bool) \<Rightarrow> 'v node \<Rightarrow> bool" where
  "node_ok ok safe_ns safe_blob nd \<longleftrightarrow> ok (nd_world nd) \<and> (\<forall>(ns, b)\<in>set (nd_tasks nd). safe_ns ns \<and> safe_blob b)"

text \<open>The ids in a request, whichever handler reads it.\<close>

definition safe_body :: "(namespace_id \<Rightarrow> bool) \<Rightarrow> (blob_id \<Rightarrow> bool) \<Rightarrow> body \<Rightarrow> bool" where
  "safe_body safe_ns safe_blob b \<longleftrightarrow>
     (\<forall>q. extract_json of_json_put_request b = Inr q \<longrightarrow> safe_ns (pq_namespace q)) \<and>
     (\<forall>q. extract_json of_json_get_request b = Inr q \<longrightarrow> safe_ns (gq_namespace q) \<and> safe_blob (gq_blob_id q)) \<and>
     (\<forall>q. extract_json of_json_list_request b = Inr q \<longrightarrow> safe_ns (lq_namespace q)) \<and>
     (\<forall>q. extract_json of_json_delete_request b = Inr q \<longrightarrow> safe_ns (dq_namespace q) \<and> safe_blob (dq_blob_id q)) \<and>
     (\<forall>q. extract_json of_json_repair_request b = Inr q \<longrightarrow> safe_ns (rq_namespace q) \<and> safe_blob (rq_blob_id q)) \<and>
     (\<forall>q. extract_json of_json_prune_request b = Inr q \<longrightarrow> safe_ns (prq_namespace q))"

lemma sim_on_world: "sim \<alpha> ok m m' \<Longrightarrow> sim (world_map \<alpha>) (node_ok ok sn sb) (on_world m) (on_world m')"
  by (auto simp: sim_def on_world_def world_map_def node_ok_def split: prod.splits)

lemma json_arg_Inr: "json_arg dec b v = (Inr q, v') \<Longrightarrow> extract_json dec b = Inr q"
  by (cases "extract_json dec b") (simp_all add: json_arg_def io_lift_def)

lemma sim_json_arg: "sim \<alpha> ok (json_arg dec b) (json_arg dec b)"
  by (simp add: json_arg_def)

text \<open>The metadata a put writes describes its shards, whatever the ports do.\<close>

lemma put_shards_describes:
  "put_shards pb ns b i shs v = (Inr metas, v') \<Longrightarrow> describes (cr_sha256_hex (pb_crypto pb)) i shs metas"
proof (induction shs arbitrary: i v metas)
  case (Cons x shs)
  from Cons.prems show ?case
    by (auto simp: Let_def io_inv io_return_def describes_Cons shard_new_def dest: Cons.IH)
qed (simp add: io_return_def)

section \<open>Ports that simulate each other\<close>

text \<open>
  The ids that travel to the metadata store have to be of a kind it can carry (\<open>safe_app\<close>, \<open>safe_ns\<close>,
  \<open>safe_blob\<close>); the store only hands out such ids, and fresh blob ids are of that kind.  What is stored
  is a manifest that records a blob cut by the coder with the parameters of a contract of the store
  (\<open>good\<close>).
\<close>

locale simulated_ports =
  fixes \<alpha> :: "'v \<Rightarrow> 'w" and ok :: "'v \<Rightarrow> bool"
    and safe_app :: "app_id \<Rightarrow> bool" and safe_ns :: "namespace_id \<Rightarrow> bool" and safe_blob :: "blob_id \<Rightarrow> bool"
    and ms :: "'v metadata_store" and ms' :: "'w metadata_store" and ba :: "'v blob_anchor" and ba' :: "'w blob_anchor"
    and ids :: "'v id_source" and ids' :: "'w id_source" and ck :: "'v clock" and ck' :: "'w clock"
    and tr :: "'v shard_transport" and tr' :: "'w shard_transport"
    and ec :: erasure_coder and hash :: "bytes \<Rightarrow> string" and good :: "manifest \<Rightarrow> bool"
  assumes get_contract: "safe_app a \<Longrightarrow> sim \<alpha> ok (ms_get_contract ms a) (ms_get_contract ms' a)"
    and get_namespace: "safe_ns ns \<Longrightarrow> sim \<alpha> ok (ms_get_namespace ms ns) (ms_get_namespace ms' ns)"
    and namespace_usage: "safe_ns ns \<Longrightarrow> sim \<alpha> ok (ms_namespace_usage ms ns) (ms_namespace_usage ms' ns)"
    and list_blobs: "safe_ns ns \<Longrightarrow> sim \<alpha> ok (ms_list_blobs ms ns) (ms_list_blobs ms' ns)"
    and list_namespaces: "sim \<alpha> ok (ms_list_namespaces ms) (ms_list_namespaces ms')"
    and put_manifest: "safe_ns (mf_namespace m) \<Longrightarrow> safe_blob (mf_blob_id m) \<Longrightarrow> good m \<Longrightarrow>
      sim \<alpha> ok (ms_put_manifest ms m) (ms_put_manifest ms' m)"
    and get_manifest: "safe_ns ns \<Longrightarrow> safe_blob b \<Longrightarrow> sim \<alpha> ok (ms_get_manifest ms ns b) (ms_get_manifest ms' ns b)"
    and delete_manifest: "safe_ns ns \<Longrightarrow> safe_blob b \<Longrightarrow> sim \<alpha> ok (ms_delete_manifest ms ns b) (ms_delete_manifest ms' ns b)"
    and found_namespace: "ok v \<Longrightarrow> safe_ns ns \<Longrightarrow> ms_get_namespace ms ns v = (Inr (Some n), v') \<Longrightarrow> safe_app (nsp_app_id n)"
    and found_manifest: "ok v \<Longrightarrow> safe_ns ns \<Longrightarrow> safe_blob b \<Longrightarrow> ms_get_manifest ms ns b v = (Inr (Some m), v') \<Longrightarrow>
      safe_blob (mf_blob_id m)"
    and listed_blobs: "ok v \<Longrightarrow> safe_ns ns \<Longrightarrow> ms_list_blobs ms ns v = (Inr bs, v') \<Longrightarrow> b \<in> set bs \<Longrightarrow> safe_blob b"
    and listed_namespaces: "ok v \<Longrightarrow> ms_list_namespaces ms v = (Inr nss, v') \<Longrightarrow> ns \<in> set nss \<Longrightarrow> safe_ns ns"
    and made: "ok v \<Longrightarrow> safe_app a \<Longrightarrow> ms_get_contract ms a v = (Inr (Some ct), v') \<Longrightarrow> records ec hash d shs m \<Longrightarrow>
      mf_erasure m = ac_erasure ct \<Longrightarrow> good m"
    and put_shard: "sim \<alpha> ok (ba_put_shard ba at x) (ba_put_shard ba' at x)"
    and get_shard: "sim \<alpha> ok (ba_get_shard ba at) (ba_get_shard ba' at)"
    and delete_blob: "sim \<alpha> ok (ba_delete_blob ba ns b) (ba_delete_blob ba' ns b)"
    and new_id: "sim \<alpha> ok (is_new_id ids p) (is_new_id ids' p)"
    and fresh_blob: "is_new_id ids ''blob'' v = (s, v') \<Longrightarrow> safe_blob (BlobId s)"
    and now: "sim \<alpha> ok (ck_now ck) (ck_now ck')"
    and send: "sim \<alpha> ok (st_send_shard tr p at x) (st_send_shard tr' p at x)"
    and fetch: "sim \<alpha> ok (st_fetch_shard tr p at) (st_fetch_shard tr' p at)"
begin

text \<open>Where a namespace was found, its owner is known to be a safe id.\<close>

lemma guard:
  assumes "safe_ns ns"
  shows "sim \<alpha> ok (guard_authorize v ms ck ns tok oper) (guard_authorize v ms' ck' ns tok oper)"
  unfolding guard_authorize_def Let_def
  by (intro sim_bind sim_rules now get_namespace [OF assms])

lemma guard_owner:
  assumes "safe_ns ns" and "ok v" and "guard_authorize ver ms ck ns tok oper v = (Inr app, v')"
  shows "safe_app app"
  using assms(3)
proof (rule guard_authorize_Inr)
  fix t v1 n
  assume "ck_now ck v = (t, v1)" "ms_get_namespace ms ns v1 = (Inr (Some n), v')" "nsp_app_id n = app"
  then show ?thesis using simD [OF now assms(2)] found_namespace [OF _ assms(1)] by blast
qed

lemma send_peers: "sim \<alpha> ok (send_to_peers tr at x peers) (send_to_peers tr' at x peers)"
proof (induction peers)
  case (Cons p peers)
  show ?case
  proof (rule simI)
    fix v r v'
    assume v: "ok v" and run: "send_to_peers tr at x (p # peers) v = (r, v')"
    obtain r1 v1 where a: "st_send_shard tr p at x v = (r1, v1)" "st_send_shard tr' p at x (\<alpha> v) = (r1, \<alpha> v1)" "ok v1"
      using send v by (rule sim_run)
    obtain r2 v2 where "send_to_peers tr at x peers v1 = (r2, v2)" "send_to_peers tr' at x peers (\<alpha> v1) = (r2, \<alpha> v2)" "ok v2"
      using Cons.IH a(3) by (rule sim_run)
    with run a show "send_to_peers tr' at x (p # peers) (\<alpha> v) = (r, \<alpha> v') \<and> ok v'" by (cases r1) auto
  qed
qed (simp add: sim_def)

lemma load_peers: "sim \<alpha> ok (load_from_peers tr hx at h ls) (load_from_peers tr' hx at h ls)"
proof (induction ls)
  case (Cons l ls)
  show ?case
  proof (cases l)
    case (Peer p)
    show ?thesis
    proof (rule simI)
      fix v r v'
      assume v: "ok v" and run: "load_from_peers tr hx at h (l # ls) v = (r, v')"
      obtain r1 v1 where a: "st_fetch_shard tr p at v = (r1, v1)" "st_fetch_shard tr' p at (\<alpha> v) = (r1, \<alpha> v1)" "ok v1"
        using fetch v by (rule sim_run)
      obtain r2 v2 where "load_from_peers tr hx at h ls v1 = (r2, v2)" "load_from_peers tr' hx at h ls (\<alpha> v1) = (r2, \<alpha> v2)" "ok v2"
        using Cons.IH a(3) by (rule sim_run)
      with run a Peer show "load_from_peers tr' hx at h (l # ls) (\<alpha> v) = (r, \<alpha> v') \<and> ok v'" by (cases r1) (auto split: if_splits)
    qed
  qed (use Cons.IH in \<open>simp add: sim_def\<close>)
qed (simp add: sim_def)

lemma replicate_loop: "sim \<alpha> ok (re_replicate_loop tr at x ls) (re_replicate_loop tr' at x ls)"
proof (induction ls)
  case (Cons l ls)
  show ?case
  proof (cases l)
    case (Peer p)
    have "sim \<alpha> ok (\<lambda>v. case st_send_shard tr p at x v of (_, v') \<Rightarrow> re_replicate_loop tr at x ls v')
        (\<lambda>v. case st_send_shard tr' p at x v of (_, v') \<Rightarrow> re_replicate_loop tr' at x ls v')"
      by (intro sim_then send Cons.IH)
    with Peer show ?thesis by (simp add: sim_def)
  qed (use Cons.IH in \<open>simp add: sim_def\<close>)
qed (simp add: sim_def)

lemma put_shards:
  assumes "pb_anchor pb = ba" and "pb_anchor pb' = ba'" and "cr_sha256_hex (pb_crypto pb') = cr_sha256_hex (pb_crypto pb)"
    and "\<And>at x. sim \<alpha> ok (put_replicate pb at x) (put_replicate pb' at x)"
  shows "sim \<alpha> ok (put_shards pb ns b i shs) (put_shards pb' ns b i shs)"
proof (induction shs arbitrary: i)
  case (Cons x shs)
  show ?case
    unfolding put_shards.simps Let_def assms(1-3) by (intro sim_bind sim_rules put_shard assms(4) Cons.IH)
qed simp

text \<open>The use-cases as the node-agent builds them, over either set of ports.\<close>

lemma put:
  assumes "cr_sha256_hex cr = hash" and "cr_sha256_hex cr' = hash" and "safe_ns ns"
  shows "sim \<alpha> ok (put_backup_execute (na_put (node_app_new ms ba ec cr ver ids ck tr peers)) ns tok d)
    (put_backup_execute (na_put (node_app_new ms' ba' ec cr' ver ids' ck' tr' peers)) ns tok d)"
proof -
  let ?pb = "na_put (node_app_new ms ba ec cr ver ids ck tr peers)" and ?pb' = "na_put (node_app_new ms' ba' ec cr' ver ids' ck' tr' peers)"
  have sel: "pb_metadata ?pb = ms" "pb_metadata ?pb' = ms'" "pb_clock ?pb = ck" "pb_clock ?pb' = ck'" "pb_ids ?pb = ids" "pb_ids ?pb' = ids'"
      "pb_verifier ?pb' = pb_verifier ?pb" "pb_erasure ?pb = ec" "pb_erasure ?pb' = ec"
    by (simp_all add: node_app_new_def put_with_mesh_def put_backup_new_def)
  have "sim \<alpha> ok (put_replicate ?pb at x) (put_replicate ?pb' at x)" for at x
    using send_peers by (simp add: sim_def put_replicate_def node_app_new_def put_with_mesh_def put_backup_new_def)
  then have shards: "sim \<alpha> ok (put_shards ?pb ns b 0 shs) (put_shards ?pb' ns b 0 shs)" for b shs
    using assms(1,2) by (intro put_shards) (simp_all add: node_app_new_def put_with_mesh_def put_backup_new_def)
  have kept: "sim \<alpha> ok (ms_put_manifest ms (manifest_new (BlobId s) ns er metas len t))
      (ms_put_manifest ms' (manifest_new (BlobId s) ns er metas len t))"
    if "safe_blob (BlobId s)" "good (manifest_new (BlobId s) ns er metas len t)" for s er metas len t
    using assms(3) that by (intro put_manifest) (simp_all add: manifest_new_def)
  have sound: "good (manifest_new b ns (ac_erasure ct) metas (word_of_nat (length d)) t)"
    if "ok v" "safe_app a" "ms_get_contract ms a v = (Inr (Some ct), v')" "ec_encode ec d (ac_erasure ct) = Inr shs"
      "put_shards ?pb ns b 0 shs v2 = (Inr metas, v3)" for a ct v v' shs b metas v2 v3 t
    using put_shards_describes [OF that(5)] that(4) assms(1)
    by (intro made [OF that(1-3), of d shs]) (simp_all add: records_def manifest_new_def node_app_new_def put_with_mesh_def put_backup_new_def)
  show ?thesis
    unfolding put_backup_execute_def Let_def sel
    apply (intro sim_bind sim_rules guard [OF assms(3)] get_contract namespace_usage [OF assms(3)] new_id shards now kept)
    subgoal by (auto intro: guard_owner [OF assms(3)])
    subgoal by (auto simp: io_read_def intro: fresh_blob split: prod.splits)
    subgoal by (auto simp: io_inv io_lift_def ok_or_def split: option.splits sum.splits intro: sound guard_owner [OF assms(3)])
    done
qed

lemma collect:
  assumes "gb_anchor gb = ba" and "gb_anchor gb' = ba'" and "cr_sha256_hex (gb_crypto gb') = cr_sha256_hex (gb_crypto gb)"
    and "gb_transport gb = Some tr" and "gb_transport gb' = Some tr'"
  shows "sim \<alpha> ok (collect_shards gb ns b shs) (collect_shards gb' ns b shs)"
proof (induction shs)
  case (Cons sh shs)
  let ?at = "shard_ref_new ns b (sh_index sh)"
  have load: "sim \<alpha> ok (load_shard gb at sh) (load_shard gb' at sh)" for at
  proof (rule simI)
    fix v r v'
    assume v: "ok v" and run: "load_shard gb at sh v = (r, v')"
    let ?peers = "\<lambda>t. load_from_peers t (cr_sha256_hex (gb_crypto gb)) at (sh_sha256 sh) (sh_locations sh)"
    obtain r1 v1 where a: "?peers tr v = (r1, v1)" "?peers tr' (\<alpha> v) = (r1, \<alpha> v1)" "ok v1"
      using load_peers v by (rule sim_run)
    obtain r2 v2 where "ba_get_shard ba at v1 = (r2, v2)" "ba_get_shard ba' at (\<alpha> v1) = (r2, \<alpha> v2)" "ok v2"
      using get_shard a(3) by (rule sim_run)
    with run a show "load_shard gb' at sh (\<alpha> v) = (r, \<alpha> v') \<and> ok v'"
      by (auto simp: load_shard_def assms split: option.splits sum.splits)
  qed
  have "sim \<alpha> ok (\<lambda>v. case load_shard gb ?at sh v of (slot, v') \<Rightarrow> case collect_shards gb ns b shs v' of (slots, v'') \<Rightarrow> (slot # slots, v''))
    (\<lambda>v. case load_shard gb' ?at sh v of (slot, v') \<Rightarrow> case collect_shards gb' ns b shs v' of (slots, v'') \<Rightarrow> (slot # slots, v''))"
    by (intro sim_then load Cons.IH sim_pure)
  then show ?case by (simp add: sim_def)
qed (simp add: sim_def)

lemma get:
  assumes "cr_sha256_hex cr' = cr_sha256_hex cr" and "safe_ns ns" and "safe_blob b"
  shows "sim \<alpha> ok (get_backup_restore (na_get (node_app_new ms ba ec cr ver ids ck tr peers)) ns tok b)
    (get_backup_restore (na_get (node_app_new ms' ba' ec cr' ver ids' ck' tr' peers)) ns tok b)"
proof -
  let ?gb = "na_get (node_app_new ms ba ec cr ver ids ck tr peers)" and ?gb' = "na_get (node_app_new ms' ba' ec cr' ver ids' ck' tr' peers)"
  have sel: "gb_metadata ?gb = ms" "gb_metadata ?gb' = ms'" "gb_clock ?gb = ck" "gb_clock ?gb' = ck'"
      "gb_verifier ?gb' = gb_verifier ?gb" "gb_erasure ?gb' = gb_erasure ?gb"
    by (simp_all add: node_app_new_def get_with_mesh_def get_backup_new_def)
  have shards: "sim \<alpha> ok (collect_shards ?gb ns b shs) (collect_shards ?gb' ns b shs)" for shs
    using assms(1) by (intro collect) (simp_all add: node_app_new_def get_with_mesh_def get_backup_new_def)
  show ?thesis
    unfolding get_backup_restore_def Let_def sel
    by (intro sim_bind sim_rules guard [OF assms(2)] get_manifest [OF assms(2,3)] shards)
qed

lemma list_all:
  assumes "safe_ns ns"
  shows "sim \<alpha> ok (list_backups_execute ms ver ck ns tok) (list_backups_execute ms' ver ck' ns tok)"
  unfolding list_backups_execute_def by (intro sim_bind guard [OF assms] list_blobs [OF assms])

lemma delete:
  assumes "safe_ns ns" and "safe_blob b"
  shows "sim \<alpha> ok (delete_backup_execute \<lparr>db_metadata = ms, db_anchor = ba, db_verifier = ver, db_clock = ck\<rparr> ns tok b)
    (delete_backup_execute \<lparr>db_metadata = ms', db_anchor = ba', db_verifier = ver, db_clock = ck'\<rparr> ns tok b)"
  unfolding delete_backup_execute_def check_hold_def delete_backup.select_convs
  apply (intro sim_bind sim_rules guard [OF assms(1)] get_contract get_manifest [OF assms] now delete_blob delete_manifest [OF assms])
  by (rule guard_owner [OF assms(1)])

lemma classify:
  assumes "rsh_anchor rs = ba" and "rsh_anchor rs' = ba'" and "cr_sha256_hex (rsh_crypto rs') = cr_sha256_hex (rsh_crypto rs)"
  shows "sim \<alpha> ok (classify_shards rs ns b shs) (classify_shards rs' ns b shs)"
proof (induction shs)
  case (Cons sh shs)
  have missing: "sim \<alpha> ok (case e of NotFound \<Rightarrow> g | other \<Rightarrow> io_throw other) (case e of NotFound \<Rightarrow> g' | other \<Rightarrow> io_throw other)"
    if "sim \<alpha> ok g g'" for e and g :: "('v, bytes option list \<times> u16 list) io" and g'
    using that by (cases e) simp_all
  show ?case
    unfolding classify_shards.simps assms by (intro sim_bind sim_rules get_shard Cons.IH missing)
qed simp

lemma backfill:
  "sim \<alpha> ok (backfill_loop tr hx ns b k bad shs collected available filled)
     (backfill_loop tr' hx ns b k bad shs collected available filled)"
  by (induction shs arbitrary: collected available filled)
    (unfold backfill_loop.simps, simp, intro sim_bind sim_rules load_peers)

lemma rewrite:
  assumes "rsh_anchor rs = ba" and "rsh_anchor rs' = ba'" and "rsh_transport rs = Some tr" and "rsh_transport rs' = Some tr'"
  shows "sim \<alpha> ok (rewrite_bad rs ns b bad fresh shs n) (rewrite_bad rs' ns b bad fresh shs n)"
proof (induction shs arbitrary: n)
  case (Cons sh shs)
  have "sim \<alpha> ok (re_replicate rs at x sh) (re_replicate rs' at x sh)" for at x
    using replicate_loop by (simp add: sim_def re_replicate_def assms)
  then show ?case
    unfolding rewrite_bad.simps Let_def assms(1,2) by (intro sim_bind sim_rules put_shard Cons.IH)
qed simp

lemma repair:
  assumes "cr_sha256_hex cr' = cr_sha256_hex cr" and "safe_ns ns" and "safe_blob b"
  shows "sim \<alpha> ok (repair_shards_execute (na_repair (node_app_new ms ba ec cr ver ids ck tr peers)) ns b)
    (repair_shards_execute (na_repair (node_app_new ms' ba' ec cr' ver ids' ck' tr' peers)) ns b)"
proof -
  let ?rs = "na_repair (node_app_new ms ba ec cr ver ids ck tr peers)" and ?rs' = "na_repair (node_app_new ms' ba' ec cr' ver ids' ck' tr' peers)"
  have sel: "rsh_metadata ?rs = ms" "rsh_metadata ?rs' = ms'" "rsh_erasure ?rs' = rsh_erasure ?rs"
      "rsh_transport ?rs = Some tr" "rsh_transport ?rs' = Some tr'" "rsh_anchor ?rs = ba" "rsh_anchor ?rs' = ba'"
      "cr_sha256_hex (rsh_crypto ?rs') = cr_sha256_hex (rsh_crypto ?rs)"
    using assms(1) by (simp_all add: node_app_new_def repair_with_mesh_def repair_shards_new_def)
  have "sim \<alpha> ok (backfill_from_peers ?rs ns b m collected bad) (backfill_from_peers ?rs' ns b m collected bad)" for m collected bad
    by (simp add: backfill_from_peers_def Let_def sel backfill)
  then show ?thesis
    unfolding repair_shards_execute_def Let_def sel(1-3)
    by (intro sim_bind sim_rules get_manifest [OF assms(2,3)] classify [OF sel(6-8)] rewrite [OF sel(6,7,4,5)])
qed

lemma versions:
  assumes "safe_ns ns" and "\<And>b. b \<in> set bs \<Longrightarrow> safe_blob b"
  shows "sim \<alpha> ok (collect_versions ms ns obj bs) (collect_versions ms' ns obj bs)"
  using assms(2)
proof (induction bs)
  case (Cons b bs)
  then show ?case
    unfolding collect_versions.simps by (intro sim_bind sim_rules get_manifest [OF assms(1)]) simp_all
qed simp

lemma versions_safe:
  assumes "safe_ns ns" and "\<And>b. b \<in> set bs \<Longrightarrow> safe_blob b" and "ok v"
    and "collect_versions ms ns obj bs v = (Inr vs, v')" and "m \<in> set vs"
  shows "safe_blob (mf_blob_id m)"
  using assms(2-)
proof (induction bs arbitrary: v vs)
  case (Cons b bs)
  from Cons.prems(3) obtain found v1 vs1 where f: "ms_get_manifest ms ns b v = (Inr found, v1)"
    and rest: "collect_versions ms ns obj bs v1 = (Inr vs1, v')" and vs: "set vs \<subseteq> set_option found \<union> set vs1"
    by (auto simp: io_inv io_return_def split: option.splits if_splits)
  have "ok v1" using simD [OF get_manifest [OF assms(1)] Cons.prems(2) f] Cons.prems(1) by simp
  moreover have "safe_blob (mf_blob_id m0)" if "found = Some m0" for m0
    using f that Cons.prems(1) by (intro found_manifest [OF Cons.prems(2) assms(1), of b]) simp_all
  ultimately show ?case using Cons.IH [OF _ _ rest] Cons.prems(1,4) vs by auto
qed (simp add: io_return_def)

lemma prune_versions_loop:
  assumes "safe_ns ns" and "\<And>m. m \<in> set vs \<Longrightarrow> safe_blob (mf_blob_id m)"
  shows "sim \<alpha> ok (prune_loop \<lparr>pv_metadata = ms, pv_anchor = ba, pv_clock = ck\<rparr> ret ns t keep i vs counts)
    (prune_loop \<lparr>pv_metadata = ms', pv_anchor = ba', pv_clock = ck'\<rparr> ret ns t keep i vs counts)"
  using assms(2)
proof (induction vs arbitrary: i counts)
  case (Cons m vs)
  obtain kept pruned held where counts: "counts = (kept, pruned, held)" by (cases counts)
  from Cons show ?case
    unfolding counts prune_loop.simps prune_versions.select_convs
    by (intro sim_bind sim_rules delete_blob delete_manifest [OF assms(1)]) simp_all
qed simp

lemma prune:
  assumes "safe_ns ns"
  shows "sim \<alpha> ok (prune_versions_execute \<lparr>pv_metadata = ms, pv_anchor = ba, pv_clock = ck\<rparr> ns obj)
    (prune_versions_execute \<lparr>pv_metadata = ms', pv_anchor = ba', pv_clock = ck'\<rparr> ns obj)"
  unfolding prune_versions_execute_def Let_def prune_versions.select_convs
  apply (intro sim_bind sim_rules get_namespace [OF assms] get_contract list_blobs [OF assms] versions [OF assms] now
      prune_versions_loop [OF assms])
  subgoal using found_namespace [OF _ assms] by (auto simp: io_lift_def ok_or_def split: option.splits)
  subgoal by (rule listed_blobs [OF _ assms])
  subgoal by (auto simp: newest_first_def intro: versions_safe [OF assms] listed_blobs [OF _ assms])
  done

text \<open>The whole HTTP service of the node-agent.\<close>

lemma router:
  assumes "cr_sha256_hex cr = hash" and "cr_sha256_hex cr' = hash" and "safe_body safe_ns safe_blob (hr_body q)"
  shows "sim (world_map \<alpha>) (node_ok ok safe_ns safe_blob) (node_router b64 (node_app_new ms ba ec cr ver ids ck tr peers) q)
    (node_router b64 (node_app_new ms' ba' ec cr' ver ids' ck' tr' peers) q)"
proof -
  let ?app = "node_app_new ms ba ec cr ver ids ck tr peers" and ?app' = "node_app_new ms' ba' ec cr' ver ids' ck' tr' peers"
  let ?sim = "sim (world_map \<alpha>) (node_ok ok safe_ns safe_blob)" and ?b = "hr_body q"
  note world = sim_on_world [of \<alpha> ok _ _ safe_ns safe_blob] and body = assms(3) [unfolded safe_body_def]
  have same: "cr_sha256_hex cr' = cr_sha256_hex cr" using assms(1,2) by simp
  have sel: "na_anchor ?app = ba" "na_anchor ?app' = ba'"
      "na_prune ?app = \<lparr>pv_metadata = ms, pv_anchor = ba, pv_clock = ck\<rparr>" "na_prune ?app' = \<lparr>pv_metadata = ms', pv_anchor = ba', pv_clock = ck'\<rparr>"
      "na_delete ?app = \<lparr>db_metadata = ms, db_anchor = ba, db_verifier = ver, db_clock = ck\<rparr>"
      "na_delete ?app' = \<lparr>db_metadata = ms', db_anchor = ba', db_verifier = ver, db_clock = ck'\<rparr>"
      "na_list ?app = \<lparr>lb_metadata = ms, lb_verifier = ver, lb_clock = ck\<rparr>" "na_list ?app' = \<lparr>lb_metadata = ms', lb_verifier = ver, lb_clock = ck'\<rparr>"
    by (simp_all add: node_app_new_def)
  have "?sim (put_backup_route b64 ?app ?b) (put_backup_route b64 ?app' ?b)"
    unfolding put_backup_route_def
    by (intro sim_bind sim_rules sim_json_arg world put [OF assms(1,2)]) (use body in \<open>auto dest: json_arg_Inr\<close>)
  moreover have "?sim (get_backup_route b64 ?app ?b) (get_backup_route b64 ?app' ?b)"
  proof -
    have spawn: "?sim (spawn_repair ns b) (spawn_repair ns b)" if "safe_ns ns" "safe_blob b" for ns b
      using that by (auto simp: sim_def spawn_repair_def world_map_def node_ok_def)
    show ?thesis
      unfolding get_backup_route_def
      by (intro sim_bind sim_rules sim_json_arg world get [OF same] spawn) (use body in \<open>auto dest: json_arg_Inr\<close>)
  qed
  moreover have "?sim (list_backups_route ?app ?b) (list_backups_route ?app' ?b)"
    unfolding list_backups_route_def sel list_backups.select_convs
    by (intro sim_bind sim_rules sim_json_arg world list_all) (use body in \<open>auto dest: json_arg_Inr\<close>)
  moreover have "?sim (delete_backup_route ?app ?b) (delete_backup_route ?app' ?b)"
    unfolding delete_backup_route_def sel
    by (intro sim_bind sim_rules sim_json_arg world delete) (use body in \<open>auto dest: json_arg_Inr\<close>)
  moreover have "?sim (repair_route ?app ?b) (repair_route ?app' ?b)"
    unfolding repair_route_def
    by (intro sim_bind sim_rules sim_json_arg world repair [OF same]) (use body in \<open>auto dest: json_arg_Inr\<close>)
  moreover have "?sim (prune_route ?app ?b) (prune_route ?app' ?b)"
    unfolding prune_route_def sel
    by (intro sim_bind sim_rules sim_json_arg world prune) (use body in \<open>auto dest: json_arg_Inr\<close>)
  moreover have "?sim (peer_put_shard ?app caps ?b) (peer_put_shard ?app' caps ?b)" for caps
    unfolding peer_put_shard_def sel by (intro sim_bind sim_rules world put_shard) (auto simp: shard_path_arg_def split: list.splits option.splits)
  moreover have "?sim (peer_get_shard ?app caps ?b) (peer_get_shard ?app' caps ?b)" for caps
    unfolding peer_get_shard_def sel by (intro sim_bind sim_rules world get_shard) (auto simp: shard_path_arg_def split: list.splits option.splits)
  moreover have "?sim (health_route ?b) (health_route ?b)" "?sim (sweep_status_route ?b) (sweep_status_route ?b)"
    by (simp_all add: sim_def health_route_def sweep_status_route_def world_map_def)
  ultimately have "?sim (dispatch Some (node_routes b64 ?app) (hr_verb q) segs ?b) (dispatch Some (node_routes b64 ?app') (hr_verb q) segs ?b)" for segs
    by (intro sim_dispatch) (simp add: node_routes_def)
  then show ?thesis
    by (auto simp: node_router_def permissive_def sim_def split_beta)
qed

text \<open>The repairs that run in the background: the task of a degraded read, and a round of the sweep.\<close>

lemma heal:
  assumes "cr_sha256_hex cr' = cr_sha256_hex cr" and "safe_ns ns" and "safe_blob b"
  shows "sim (world_map \<alpha>) (node_ok ok safe_ns safe_blob) (reactive_heal (node_app_new ms ba ec cr ver ids ck tr peers) ns b)
    (reactive_heal (node_app_new ms' ba' ec cr' ver ids' ck' tr' peers) ns b)"
proof (rule simI)
  let ?app = "node_app_new ms ba ec cr ver ids ck tr peers" and ?app' = "node_app_new ms' ba' ec cr' ver ids' ck' tr' peers"
  fix nd r nd'
  assume nd: "node_ok ok safe_ns safe_blob nd" and run: "reactive_heal ?app ns b nd = (r, nd')"
  have "ok (nd_world nd)" using nd by (simp add: node_ok_def)
  with repair [OF assms] obtain r1 v1 where a: "repair_shards_execute (na_repair ?app) ns b (nd_world nd) = (r1, v1)"
    "repair_shards_execute (na_repair ?app') ns b (\<alpha> (nd_world nd)) = (r1, \<alpha> v1)" "ok v1"
    by (rule sim_run)
  obtain t v2 where "ck_now ck v1 = (t, v2)" "ck_now ck' (\<alpha> v1) = (t, \<alpha> v2)" "ok v2"
    using now a(3) by (rule sim_run)
  moreover have "na_clock ?app = ck" "na_clock ?app' = ck'" by (simp_all add: node_app_new_def)
  ultimately show "reactive_heal ?app' ns b (world_map \<alpha> nd) = (r, world_map \<alpha> nd') \<and> node_ok ok safe_ns safe_blob nd'"
    using run a nd by (auto simp: reactive_heal_def world_map_def node_ok_def split: sum.splits if_splits)
qed

lemma sweep_list:
  assumes "cr_sha256_hex cr' = cr_sha256_hex cr" and "safe_ns ns" and "\<And>b. b \<in> set bs \<Longrightarrow> safe_blob b"
  shows "sim \<alpha> ok (sweep_blobs (na_repair (node_app_new ms ba ec cr ver ids ck tr peers)) ns bs acc)
    (sweep_blobs (na_repair (node_app_new ms' ba' ec cr' ver ids' ck' tr' peers)) ns bs acc)"
  using assms(3)
proof (induction bs arbitrary: acc)
  case (Cons b bs)
  let ?rs = "na_repair (node_app_new ms ba ec cr ver ids ck tr peers)" and ?rs' = "na_repair (node_app_new ms' ba' ec cr' ver ids' ck' tr' peers)"
  obtain x y z where acc: "acc = (x, y, z)" by (cases acc)
  have IH: "sim \<alpha> ok (sweep_blobs ?rs ns bs acc) (sweep_blobs ?rs' ns bs acc)" for acc
    using Cons.prems by (intro Cons.IH) simp
  show ?case
  proof (rule simI)
    fix v r v'
    assume v: "ok v" and run: "sweep_blobs ?rs ns (b # bs) acc v = (r, v')"
    obtain r1 v1 where a: "repair_shards_execute ?rs ns b v = (r1, v1)" "repair_shards_execute ?rs' ns b (\<alpha> v) = (r1, \<alpha> v1)" "ok v1"
      using repair [OF assms(1,2)] v Cons.prems by (meson list.set_intros(1) sim_run)
    with run simD [OF IH a(3)] show "sweep_blobs ?rs' ns (b # bs) acc (\<alpha> v) = (r, \<alpha> v') \<and> ok v'"
      by (auto simp: acc split: sum.splits fault.splits)
  qed
qed (simp add: sim_def)

lemma sweep_each:
  assumes "cr_sha256_hex cr' = cr_sha256_hex cr" and "\<And>ns. ns \<in> set nss \<Longrightarrow> safe_ns ns"
  shows "sim \<alpha> ok (sweep_namespaces ms (na_repair (node_app_new ms ba ec cr ver ids ck tr peers)) nss acc)
    (sweep_namespaces ms' (na_repair (node_app_new ms' ba' ec cr' ver ids' ck' tr' peers)) nss acc)"
  using assms(2)
proof (induction nss arbitrary: acc)
  case (Cons ns nss)
  let ?rs = "na_repair (node_app_new ms ba ec cr ver ids ck tr peers)" and ?rs' = "na_repair (node_app_new ms' ba' ec cr' ver ids' ck' tr' peers)"
  have IH: "sim \<alpha> ok (sweep_namespaces ms ?rs nss acc) (sweep_namespaces ms' ?rs' nss acc)" for acc
    using Cons.prems by (intro Cons.IH) simp
  have ns: "safe_ns ns" using Cons.prems by simp
  show ?case
  proof (rule simI)
    fix v r v'
    assume v: "ok v" and run: "sweep_namespaces ms ?rs (ns # nss) acc v = (r, v')"
    obtain found v1 where a: "ms_list_blobs ms ns v = (found, v1)" "ms_list_blobs ms' ns (\<alpha> v) = (found, \<alpha> v1)" "ok v1"
      using list_blobs [OF ns] v by (rule sim_run)
    let ?bs = "case found of Inr bs \<Rightarrow> bs | Inl _ \<Rightarrow> []"
    have "b \<in> set ?bs \<Longrightarrow> safe_blob b" for b using listed_blobs [OF v ns] a(1) by (auto split: sum.splits)
    then obtain r2 v2 where "sweep_blobs ?rs ns ?bs acc v1 = (r2, v2)" "sweep_blobs ?rs' ns ?bs acc (\<alpha> v1) = (r2, \<alpha> v2)" "ok v2"
      using sweep_list [OF assms(1) ns] a(3) by (meson sim_run)
    with run a simD [OF IH] show "sweep_namespaces ms' ?rs' (ns # nss) acc (\<alpha> v) = (r, \<alpha> v') \<and> ok v'"
      by (auto split: sum.splits)
  qed
qed (simp add: sim_def)

lemma sweep:
  assumes "cr_sha256_hex cr' = cr_sha256_hex cr"
  shows "sim (world_map \<alpha>) (node_ok ok safe_ns safe_blob) (sweep_round ms (node_app_new ms ba ec cr ver ids ck tr peers))
    (sweep_round ms' (node_app_new ms' ba' ec cr' ver ids' ck' tr' peers))"
proof (rule simI)
  let ?app = "node_app_new ms ba ec cr ver ids ck tr peers" and ?app' = "node_app_new ms' ba' ec cr' ver ids' ck' tr' peers"
  fix nd r nd'
  assume nd: "node_ok ok safe_ns safe_blob nd" and run: "sweep_round ms ?app nd = (r, nd')"
  have clock: "na_clock ?app = ck" "na_clock ?app' = ck'" by (simp_all add: node_app_new_def)
  have v: "ok (nd_world nd)" using nd by (simp add: node_ok_def)
  obtain found v1 where a: "ms_list_namespaces ms (nd_world nd) = (found, v1)"
    "ms_list_namespaces ms' (\<alpha> (nd_world nd)) = (found, \<alpha> v1)" "ok v1"
    using list_namespaces v by (rule sim_run)
  let ?nss = "case found of Inr nss \<Rightarrow> nss | Inl _ \<Rightarrow> []"
  have "ns \<in> set ?nss \<Longrightarrow> safe_ns ns" for ns using listed_namespaces [OF v] a(1) by (auto split: sum.splits)
  then obtain r2 v2 where b: "sweep_namespaces ms (na_repair ?app) ?nss (0, 0, 0) v1 = (r2, v2)"
    "sweep_namespaces ms' (na_repair ?app') ?nss (0, 0, 0) (\<alpha> v1) = (r2, \<alpha> v2)" "ok v2"
    using sweep_each [OF assms] a(3) by (meson sim_run)
  obtain t v3 where "ck_now ck v2 = (t, v3)" "ck_now ck' (\<alpha> v2) = (t, \<alpha> v3)" "ok v3"
    using now b(3) by (rule sim_run)
  with run a b nd show "sweep_round ms' ?app' (world_map \<alpha> nd) = (r, world_map \<alpha> nd') \<and> node_ok ok safe_ns safe_blob nd'"
    by (cases found; cases r2) (auto simp: sweep_round_def world_map_def node_ok_def clock)
qed

end

end
