(* ===== verification/Remote_Vault.thy ===== *)
theory Remote_Vault
  imports Simulation Remote_Meta Vault_Guarantees Vault_Client
begin

text \<open>
  The node-agent as it runs: its metadata store is the coordinator's, reached over HTTP, and its
  anchor, peers, clock and ids are its own.  The state is the coordinator beside the node's world.
  This deployment simulates the one of \<open>Deployment\<close>, in which the store is held directly, as long as
  the ids in use travel in a URL as they are and the coordinator has not blocked header-less callers;
  so what is proved there holds here.
\<close>

section \<open>The wiring (node-agent/src/main.rs)\<close>

definition on_node :: "('w \<Rightarrow> 'a \<times> 'w) \<Rightarrow> 'c \<times> 'w \<Rightarrow> 'a \<times> ('c \<times> 'w)" where
  "on_node m cw = (case m (snd cw) of (r, w) \<Rightarrow> (r, (fst cw, w)))"

definition own_anchor :: "'w blob_anchor \<Rightarrow> ('c \<times> 'w) blob_anchor" where
  "own_anchor ba = \<lparr>ba_put_shard = (\<lambda>at x. on_node (ba_put_shard ba at x)), ba_get_shard = (\<lambda>at. on_node (ba_get_shard ba at)),
     ba_delete_blob = (\<lambda>ns b. on_node (ba_delete_blob ba ns b))\<rparr>"

definition own_transport :: "'w shard_transport \<Rightarrow> ('c \<times> 'w) shard_transport" where
  "own_transport tr = \<lparr>st_send_shard = (\<lambda>p at x. on_node (st_send_shard tr p at x)),
     st_fetch_shard = (\<lambda>p at. on_node (st_fetch_shard tr p at))\<rparr>"

definition own_clock :: "'w clock \<Rightarrow> ('c \<times> 'w) clock" where
  "own_clock ck = \<lparr>ck_now = on_node (ck_now ck)\<rparr>"

definition own_ids :: "'w id_source \<Rightarrow> ('c \<times> 'w) id_source" where
  "own_ids ids = \<lparr>is_new_id = (\<lambda>p. on_node (is_new_id ids p))\<rparr>"

definition own_crypto :: "'w cryptographer \<Rightarrow> ('c \<times> 'w) cryptographer" where
  "own_crypto cr = \<lparr>cr_derive_key = cr_derive_key cr, cr_encrypt = (\<lambda>k x. on_node (cr_encrypt cr k x)), cr_decrypt = cr_decrypt cr,
     cr_sha256_hex = cr_sha256_hex cr\<rparr>"

definition http_node ::
  "'o coordinator_app \<Rightarrow> (string set \<Rightarrow> string list) \<Rightarrow> path \<Rightarrow> (socket_addr \<Rightarrow> path) \<Rightarrow> erasure_coder \<Rightarrow>
   world cryptographer \<Rightarrow> auth_verifier \<Rightarrow> string list \<Rightarrow> ('o coordinator \<times> world) node_app" where
  "http_node app order root roots ec cr ver peers =
     node_app_new (remote_metadata_store (coordinator_net app order)) (own_anchor (node_anchor root)) ec (own_crypto cr) ver
       (own_ids random_id_source) (own_clock system_clock) (own_transport (node_transport roots)) peers"

definition direct_node ::
  "path \<Rightarrow> (socket_addr \<Rightarrow> path) \<Rightarrow> erasure_coder \<Rightarrow> world cryptographer \<Rightarrow> auth_verifier \<Rightarrow> string list \<Rightarrow> world node_app" where
  "direct_node root roots ec cr ver peers =
     node_app_new node_meta (node_anchor root) ec cr ver random_id_source system_clock (node_transport roots) peers"

section \<open>The invariant\<close>

abbreviation url_app :: "app_id \<Rightarrow> bool" where
  "url_app a \<equiv> url_safe (app_str a)"

abbreviation url_ns :: "namespace_id \<Rightarrow> bool" where
  "url_ns ns \<equiv> url_safe (ns_str ns)"

abbreviation url_blob :: "blob_id \<Rightarrow> bool" where
  "url_blob b \<equiv> url_safe (blob_str b)"

definition url_view :: "meta_view \<Rightarrow> bool" where
  "url_view v \<longleftrightarrow> (\<forall>ns n. mv_namespaces v ns = Some n \<longrightarrow> url_ns ns \<and> url_app (nsp_app_id n)) \<and>
     (\<forall>ns b m. mv_manifests v (ns, b) = Some m \<longrightarrow> url_blob b \<and> url_blob (mf_blob_id m))"

text \<open>The invariant may also speak about the coordinator's clock, which no metadata call changes.\<close>

definition http_at :: "((nat \<Rightarrow> u64) \<Rightarrow> bool) \<Rightarrow> 'o coordinator \<times> world \<Rightarrow> bool" where
  "http_at P cw \<longleftrightarrow> \<not> is_blocked (pm_responder (fst cw)) ''anonymous'' \<and> url_view (mem_view (co_meta (fst cw))) \<and> P (co_clock (fst cw))"

abbreviation http_ok :: "'o coordinator \<times> world \<Rightarrow> bool" where
  "http_ok \<equiv> http_at (\<lambda>_. True)"

lemma meta_abs_view: "node_mview (meta_abs cw) = mem_view (co_meta (fst cw))"
  by (simp add: meta_abs_def split_beta)

lemma refines_sim:
  fixes m :: "('o coordinator \<times> world, 'a) io"
  assumes "\<And>c w. \<not> is_blocked (pm_responder c) ''anonymous'' \<Longrightarrow> refines_at m m' (c, w)"
    and "\<And>w. url_view (node_mview w) \<Longrightarrow> url_view (node_mview (snd (m' w)))"
  shows "sim meta_abs (http_at P) m m'"
  unfolding sim_def
proof (intro allI impI)
  fix cw :: "'o coordinator \<times> world"
  assume ok: "http_at P cw"
  have r: "refines_at m m' cw" using assms(1) [of "fst cw" "snd cw"] ok by (simp add: http_at_def)
  then have "node_mview (snd (m' (meta_abs cw))) = mem_view (co_meta (fst (snd (m cw))))"
    by (simp add: refines_at_def meta_abs_view)
  then have "url_view (mem_view (co_meta (fst (snd (m cw)))))"
    using assms(2) [of "meta_abs cw"] ok by (simp add: http_at_def meta_abs_view)
  with r ok show "m' (meta_abs cw) = map_prod id meta_abs (m cw) \<and> http_at P (snd (m cw))"
    by (auto simp: refines_at_def http_at_def)
qed

text \<open>What does not touch the metadata runs on the node's own part of the state.\<close>

lemma own_sim: "(\<And>s. sim (\<lambda>w. w\<lparr>w_meta := s\<rparr>) (\<lambda>_. True) m m) \<Longrightarrow> sim meta_abs (http_at P) (on_node m) m"
  by (auto simp: sim_def on_node_def meta_abs_def http_at_def split: prod.splits)

lemma sim_case_list [sim_rules]:
  "(xs = [] \<Longrightarrow> sim \<alpha> ok m m') \<Longrightarrow> (\<And>y ys. xs = y # ys \<Longrightarrow> sim \<alpha> ok (f y ys) (f' y ys)) \<Longrightarrow>
    sim \<alpha> ok (case xs of [] \<Rightarrow> m | y # ys \<Rightarrow> f y ys) (case xs of [] \<Rightarrow> m' | y # ys \<Rightarrow> f' y ys)"
  by (cases xs) simp_all

lemma own_ports:
  "sim meta_abs (http_at P) (ba_put_shard (own_anchor (node_anchor root)) at x) (ba_put_shard (node_anchor root) at x)"
  "sim meta_abs (http_at P) (ba_get_shard (own_anchor (node_anchor root)) at) (ba_get_shard (node_anchor root) at)"
  "sim meta_abs (http_at P) (ba_delete_blob (own_anchor (node_anchor root)) ns b) (ba_delete_blob (node_anchor root) ns b)"
  "sim meta_abs (http_at P) (is_new_id (own_ids random_id_source) pre) (is_new_id random_id_source pre)"
  "sim meta_abs (http_at P) (ck_now (own_clock system_clock)) (ck_now system_clock)"
  by (simp_all add: own_anchor_def own_ids_def own_clock_def, rule_tac [!] own_sim)
    (auto simp: sim_def node_anchor_def on_fs_def random_id_source_def system_clock_def split: prod.splits)

lemma own_dials: "sim (\<lambda>w. w\<lparr>w_meta := s\<rparr>) (\<lambda>_. True) (node_dial roots p q) (node_dial roots p q)"
  by (auto simp: sim_def node_dial_def Let_def split: option.splits prod.splits)

lemma own_peers:
  "sim meta_abs (http_at P) (st_send_shard (own_transport (node_transport roots)) p at x) (st_send_shard (node_transport roots) p at x)"
  "sim meta_abs (http_at P) (st_fetch_shard (own_transport (node_transport roots)) p at) (st_fetch_shard (node_transport roots) p at)"
  unfolding own_transport_def shard_transport.select_convs node_transport_def quic_shard_transport_def
    quic_send_shard_def quic_fetch_shard_def round_trip_def
  by (intro own_sim sim_bind sim_rules own_dials)+

lemma uuid_unreserved: "\<forall>c\<in>set (uuid_simple u). unreserved c"
proof -
  have "unreserved (hex_digit d)" if "d < 16" for d
  proof -
    have "(of_char (hex_digit d) :: nat) = (if d < 10 then 48 + d else 87 + d)" using that by (simp add: hex_digit_def)
    then show ?thesis using that by (simp add: unreserved_def Let_def)
  qed
  moreover have "unat (take_bit 4 (x :: 128 word)) < 16" for x
    by (simp add: unsigned_take_bit_eq take_bit_nat_less_exp [of 4, simplified])
  ultimately show ?thesis by (auto simp: uuid_simple_def)
qed

lemma fresh_id_url: "url_safe (''blob-'' @ uuid_simple u)" "url_safe (''app-'' @ uuid_simple u)" "url_safe (''ns-'' @ uuid_simple u)"
proof -
  have "\<forall>c\<in>set (''blob-'' @ ''app-'' @ ''ns-''). unreserved c" by code_simp
  then show "url_safe (''blob-'' @ uuid_simple u)" "url_safe (''app-'' @ uuid_simple u)" "url_safe (''ns-'' @ uuid_simple u)"
    using uuid_unreserved [of u] by (auto simp: url_safe_def)
qed

lemma url_view_updates:
  "url_view v \<Longrightarrow> url_blob (mf_blob_id m) \<Longrightarrow> url_view (add_manifest m v)"
  "url_view v \<Longrightarrow> url_view (drop_manifest ns b v)"
  by (auto simp: url_view_def add_manifest_def drop_manifest_def)

lemma keeps_view: "keeps node_mview m \<Longrightarrow> url_view (node_mview w) \<Longrightarrow> url_view (node_mview (snd (m w)))"
  by (simp add: keeps_def)

lemma remote_reads:
  fixes app :: "'o coordinator_app" and order
  defines "rm \<equiv> remote_metadata_store (coordinator_net app order)"
  shows "url_app a \<Longrightarrow> sim meta_abs (http_at P) (ms_get_contract rm a) (ms_get_contract node_meta a)"
    and "url_ns ns \<Longrightarrow> sim meta_abs (http_at P) (ms_get_namespace rm ns) (ms_get_namespace node_meta ns)"
    and "url_ns ns \<Longrightarrow> sim meta_abs (http_at P) (ms_namespace_usage rm ns) (ms_namespace_usage node_meta ns)"
    and "url_ns ns \<Longrightarrow> sim meta_abs (http_at P) (ms_list_blobs rm ns) (ms_list_blobs node_meta ns)"
    and "sim meta_abs (http_at P) (ms_list_namespaces rm) (ms_list_namespaces node_meta)"
    and "url_ns ns \<Longrightarrow> url_blob b \<Longrightarrow> sim meta_abs (http_at P) (ms_get_manifest rm ns b) (ms_get_manifest node_meta ns b)"
proof -
  have x: "url_app (AppId ''x'')" "url_ns (NamespaceId ''x'')" "url_blob (BlobId ''x'')" by code_simp+
  note ops = remote_ops_refine [where app = app and order = order, folded rm_def, unfolded Let_def]
  show "url_app a \<Longrightarrow> sim meta_abs (http_at P) (ms_get_contract rm a) (ms_get_contract node_meta a)"
    by (rule refines_sim [OF _ keeps_view]) (use ops x nodem.read_keeps in blast)+
  show "url_ns ns \<Longrightarrow> sim meta_abs (http_at P) (ms_get_namespace rm ns) (ms_get_namespace node_meta ns)"
    by (rule refines_sim [OF _ keeps_view]) (use ops x nodem.read_keeps in blast)+
  show "url_ns ns \<Longrightarrow> sim meta_abs (http_at P) (ms_namespace_usage rm ns) (ms_namespace_usage node_meta ns)"
    by (rule refines_sim [OF _ keeps_view]) (use ops x nodem.read_keeps in blast)+
  show "url_ns ns \<Longrightarrow> sim meta_abs (http_at P) (ms_list_blobs rm ns) (ms_list_blobs node_meta ns)"
    by (rule refines_sim [OF _ keeps_view]) (use ops x nodem.read_keeps in blast)+
  show "sim meta_abs (http_at P) (ms_list_namespaces rm) (ms_list_namespaces node_meta)"
    by (rule refines_sim [OF _ keeps_view]) (use ops x nodem.read_keeps in blast)+
  show "url_ns ns \<Longrightarrow> url_blob b \<Longrightarrow> sim meta_abs (http_at P) (ms_get_manifest rm ns b) (ms_get_manifest node_meta ns b)"
    by (rule refines_sim [OF _ keeps_view]) (use ops x nodem.read_keeps in blast)+
qed

lemma remote_writes:
  fixes app :: "'o coordinator_app" and order
  defines "rm \<equiv> remote_metadata_store (coordinator_net app order)"
  shows "url_blob (mf_blob_id m) \<Longrightarrow> sim meta_abs (http_at P) (ms_put_manifest rm m) (ms_put_manifest node_meta m)"
    and "url_ns ns \<Longrightarrow> url_blob b \<Longrightarrow> sim meta_abs (http_at P) (ms_delete_manifest rm ns b) (ms_delete_manifest node_meta ns b)"
proof -
  have x: "url_app (AppId ''x'')" "url_ns (NamespaceId ''x'')" "url_blob (BlobId ''x'')" by code_simp+
  note ops = remote_ops_refine [where app = app and order = order, folded rm_def, unfolded Let_def]
  have "url_view (node_mview (snd (ms_put_manifest node_meta m w)))" if "url_blob (mf_blob_id m)" "url_view (node_mview w)" for w
    using nodem.put_manifest [OF surjective_pairing, of m w] that url_view_updates by metis
  then show "url_blob (mf_blob_id m) \<Longrightarrow> sim meta_abs (http_at P) (ms_put_manifest rm m) (ms_put_manifest node_meta m)"
    by (intro refines_sim) (use ops x in blast)+
  have "url_view (node_mview (snd (ms_delete_manifest node_meta ns b w)))" if "url_view (node_mview w)" for w
    using nodem.delete_manifest [OF surjective_pairing, of ns b w] that url_view_updates by metis
  then show "url_ns ns \<Longrightarrow> url_blob b \<Longrightarrow> sim meta_abs (http_at P) (ms_delete_manifest rm ns b) (ms_delete_manifest node_meta ns b)"
    by (intro refines_sim) (use ops x in blast)+
qed

interpretation http: simulated_ports meta_abs "http_at P" url_app url_ns url_blob
  "remote_metadata_store (coordinator_net app order)" node_meta "own_anchor (node_anchor root)" "node_anchor root"
  "own_ids random_id_source" random_id_source "own_clock system_clock" system_clock
  "own_transport (node_transport roots)" "node_transport roots" ec hash "\<lambda>_. True" for P app order root roots ec hash
proof (unfold_locales, goal_cases)
  case (9 cw ns n cw')
  then have "mv_namespaces (mem_view (co_meta (fst cw))) ns = Some n"
    using simD [OF remote_reads(2) [OF 9(2)] 9(1,3)] nodem.get_namespace meta_abs_view by metis
  then show ?case using 9(1) by (auto simp: http_at_def url_view_def)
next
  case (10 cw ns b m cw')
  then have "mv_manifests (mem_view (co_meta (fst cw))) (ns, b) = Some m"
    using simD [OF remote_reads(6) [OF 10(2,3)] 10(1,4)] nodem.get_manifest meta_abs_view by metis
  then show ?case using 10(1) by (auto simp: http_at_def url_view_def)
next
  case (11 cw ns bs cw' b)
  then have "set bs = blobs_of (mem_view (co_meta (fst cw))) ns"
    using simD [OF remote_reads(4) [OF 11(2)] 11(1,3)] nodem.list_blobs meta_abs_view by metis
  then show ?case using 11(1,4) by (auto simp: http_at_def url_view_def blobs_of_def)
next
  case (12 cw nss cw' ns)
  then have "set nss = dom (mv_namespaces (mem_view (co_meta (fst cw))))"
    using simD [OF remote_reads(5) 12(1,2)] nodem.list_namespaces meta_abs_view by metis
  then show ?case using 12(1,3) by (auto simp: http_at_def url_view_def)
next
  case (18 cw s cw')
  then show ?case using fresh_id_url by (auto simp: own_ids_def on_node_def random_id_source_def)
qed (auto intro: remote_reads remote_writes own_ports own_peers)

section \<open>The service over HTTP is the service\<close>

text \<open>What can happen to a node-agent, and what is seen of it.\<close>

datatype node_call = Call request | Round | Heal nat

datatype node_out = Answered "(reply \<times> (string \<times> string) list) option" | Alive bool | Repaired nat

fun perform :: "b64_engine \<Rightarrow> 'w metadata_store \<Rightarrow> 'w node_app \<Rightarrow> node_call \<Rightarrow> 'w node \<Rightarrow> node_out \<times> 'w node" where
  "perform b64 ms app (Call q) nd = map_prod Answered id (node_router b64 app q nd)"
| "perform b64 ms app Round nd = map_prod Alive id (sweep_round ms app nd)"
| "perform b64 ms app (Heal i) nd =
     (if i < length (nd_tasks nd)
      then map_prod Repaired id (case nd_tasks nd ! i of (ns, b) \<Rightarrow>
        reactive_heal app ns b (nd\<lparr>nd_tasks := take i (nd_tasks nd) @ drop (Suc i) (nd_tasks nd)\<rparr>))
      else (Repaired 0, nd))"

fun perform_all :: "b64_engine \<Rightarrow> 'w metadata_store \<Rightarrow> 'w node_app \<Rightarrow> node_call list \<Rightarrow> 'w node \<Rightarrow> node_out list \<times> 'w node" where
  "perform_all b64 ms app [] nd = ([], nd)"
| "perform_all b64 ms app (c # cs) nd =
     (case perform b64 ms app c nd of (out, nd') \<Rightarrow> case perform_all b64 ms app cs nd' of (outs, nd'') \<Rightarrow> (out # outs, nd''))"

fun safe_call :: "node_call \<Rightarrow> bool" where
  "safe_call (Call q) = safe_body url_ns url_blob (hr_body q)"
| "safe_call _ = True"

text \<open>Every repair the service performs is a step of the state machine of \<open>Node_Service\<close>.\<close>

lemma perform_steps:
  "perform b64 ms app c nd = (out, nd') \<Longrightarrow> nd' = nd \<or> (\<exists>ev. node_step b64 ms app nd ev nd')"
proof (cases c)
  case (Heal i)
  assume run: "perform b64 ms app c nd = (out, nd')"
  show ?thesis
  proof (cases "i < length (nd_tasks nd)")
    case True
    obtain ns b where t: "nd_tasks nd ! i = (ns, b)" by force
    have "nd_tasks nd = take i (nd_tasks nd) @ (ns, b) # drop (Suc i) (nd_tasks nd)" using id_take_nth_drop [OF True] t by simp
    moreover obtain n where "reactive_heal app ns b (nd\<lparr>nd_tasks := take i (nd_tasks nd) @ drop (Suc i) (nd_tasks nd)\<rparr>) = (n, nd')"
      using run True t Heal by (auto simp: map_prod_def split_beta prod_eq_iff)
    ultimately show ?thesis using node_step.Task by blast
  qed (use run Heal in simp)
next
  case (Call q)
  assume "perform b64 ms app c nd = (out, nd')"
  then have "nd' = snd (node_router b64 app q nd)" using Call by (simp add: map_prod_def split_beta)
  moreover have "node_step b64 ms app nd Served (snd (node_router b64 app q nd))"
    by (rule node_step.Serve) (rule surjective_pairing)
  ultimately show ?thesis by blast
next
  case Round
  assume "perform b64 ms app c nd = (out, nd')"
  then have "nd' = snd (sweep_round ms app nd)" using Round by (simp add: map_prod_def split_beta)
  with node_step.Sweep [OF surjective_pairing, of b64 ms app nd] show ?thesis by blast
qed

lemma own_hash: "cr_sha256_hex cr = cr_sha256_hex (own_crypto cr)"
  by (simp add: own_crypto_def)

lemma perform_over_http:
  fixes app :: "'o coordinator_app"
  assumes "safe_call c"
  shows "sim (world_map meta_abs) (node_ok http_ok url_ns url_blob)
    (perform b64 (remote_metadata_store (coordinator_net app order)) (http_node app order root roots ec cr ver peers) c)
    (perform b64 node_meta (direct_node root roots ec cr ver peers) c)"
proof (cases c)
  case (Call q)
  have "safe_body url_ns url_blob (hr_body q)" using assms Call by simp
  note router = http.router [OF refl own_hash this, folded http_node_def direct_node_def]
  show ?thesis
    using router [where ?b64.0 = b64 and app = app and order = order and root = root and roots = roots and ec = ec and ver = ver and peers = peers]
    by (simp add: Call sim_def map_prod_def split_beta)
next
  case Round
  show ?thesis
    using http.sweep [OF own_hash, folded http_node_def direct_node_def,
      where app = app and order = order and root = root and roots = roots and ec = ec and ver = ver and peers = peers]
    by (simp add: Round sim_def map_prod_def split_beta)
next
  case (Heal i)
  let ?http = "http_node app order root roots ec cr ver peers" and ?direct = "direct_node root roots ec cr ver peers"
  let ?rest = "\<lambda>nd. nd\<lparr>nd_tasks := take i (nd_tasks nd) @ drop (Suc i) (nd_tasks nd)\<rparr>"
  show ?thesis unfolding sim_def
  proof (intro allI impI)
    fix nd :: "('o coordinator \<times> world) node"
    assume ok: "node_ok http_ok url_ns url_blob nd"
    have eq: "nd_tasks (world_map meta_abs nd) = nd_tasks nd" "(world_map meta_abs nd)\<lparr>nd_tasks := ts\<rparr> = world_map meta_abs (nd\<lparr>nd_tasks := ts\<rparr>)" for ts
      by (simp_all add: world_map_def)
    show "perform b64 node_meta ?direct c (world_map meta_abs nd) = map_prod id (world_map meta_abs)
        (perform b64 (remote_metadata_store (coordinator_net app order)) ?http c nd) \<and>
      node_ok http_ok url_ns url_blob (snd (perform b64 (remote_metadata_store (coordinator_net app order)) ?http c nd))"
    proof (cases "i < length (nd_tasks nd)")
      case True
      obtain ns b where t: "nd_tasks nd ! i = (ns, b)" by force
      then have "url_ns ns" "url_blob b" using ok True nth_mem [OF True] by (auto simp: node_ok_def)
      note heal = http.heal [OF own_hash this, folded http_node_def direct_node_def,
      where app = app and order = order and root = root and roots = roots and ec = ec and ver = ver and peers = peers]
      have "node_ok http_ok url_ns url_blob (?rest nd)"
        using ok set_take_subset [of i "nd_tasks nd"] set_drop_subset [of "Suc i" "nd_tasks nd"] by (auto simp: node_ok_def)
      with heal True t show ?thesis by (simp add: Heal eq sim_def map_prod_def split_beta)
    qed (use ok in \<open>simp add: Heal eq\<close>)
  qed
qed

text \<open>
  C4. The node-agent over HTTP is the node-agent over the store.  From a state in which all ids in use
  travel in a URL as they are and header-less callers are not blocked, whatever happens to the
  service afterwards (requests with such ids, rounds of the sweep, pending repairs, lost calls, disk
  and peer failures), every answer and every counter is the one of the deployment that holds the
  coordinator's store directly, and so are the disk, the peers and the metadata.
\<close>

theorem node_over_http:
  assumes "node_ok http_ok url_ns url_blob nd" and "\<forall>c\<in>set cs. safe_call c"
  shows "perform_all b64 node_meta (direct_node root roots ec cr ver peers) cs (world_map meta_abs nd) =
    map_prod id (world_map meta_abs) (perform_all b64 (remote_metadata_store (coordinator_net app order))
      (http_node app order root roots ec cr ver peers) cs nd)"
  using assms
proof (induction cs arbitrary: nd)
  case (Cons c cs)
  have "safe_call c" using Cons.prems by simp
  from sim_run [OF perform_over_http [OF this] Cons.prems(1)] obtain out nd' where
    one: "perform b64 (remote_metadata_store (coordinator_net app order)) (http_node app order root roots ec cr ver peers) c nd = (out, nd')"
      "perform b64 node_meta (direct_node root roots ec cr ver peers) c (world_map meta_abs nd) = (out, world_map meta_abs nd')"
    and "node_ok http_ok url_ns url_blob nd'" by blast
  from Cons.IH [OF this(3)] Cons.prems(2) one show ?case by (simp add: map_prod_def split_beta)
qed simp

text \<open>The small deployment with its store at a coordinator that has just started.\<close>

definition demo_remote :: "world \<Rightarrow> unit coordinator \<times> world" where
  "demo_remote w = (demo_coordinator\<lparr>co_meta := w_meta w\<rparr>, w)"

definition demo_put_call :: node_call where
  "demo_put_call = Call \<lparr>hr_verb = POST, hr_path = ''/v1/backups'', hr_body = JsonBody (to_json_put_request
     \<lparr>pq_namespace = demo_ns, pq_token = demo_token OpPut, pq_ciphertext_b64 = ''abc''\<rparr>), hr_fingerprint = None\<rparr>"

lemma demo_remote_abs: "meta_abs (demo_remote w) = w"
  by (simp add: meta_abs_def demo_remote_def)

lemma demo_remote_ok: "http_ok (demo_remote (demo_world t []))"
proof -
  have "\<not> is_blocked (pm_responder demo_coordinator) ''anonymous''" by code_simp
  moreover have "url_ns demo_ns" "url_app (AppId ''a'')" by code_simp+
  ultimately show ?thesis
    by (auto simp: http_at_def demo_remote_def url_view_def mem_view_def demo_world_def)
qed

lemma demo_put_call_safe: "safe_call demo_put_call"
proof -
  have "url_ns demo_ns" by code_simp
  then show ?thesis
    by (auto simp: demo_put_call_def safe_body_def to_json_put_request_def of_json_put_request_def of_json_get_request_def
        of_json_list_request_def of_json_delete_request_def of_json_repair_request_def of_json_prune_request_def json_simps
        split: option.splits)
qed

theorem node_over_http_witness:
  "fst (perform_all (cf_b64 demo_coordinator_app) node_meta
      (direct_node [] (\<lambda>_. []) (reed_solomon_coder xor_crate) demo_crypto open_verifier [''10.0.0.1:1'']) [demo_put_call, Round]
      \<lparr>nd_world = demo_world 5 [], nd_sweep = sweep_status_new (Some 60), nd_tasks = []\<rparr>) =
   fst (perform_all (cf_b64 demo_coordinator_app) (remote_metadata_store (coordinator_net demo_coordinator_app (\<lambda>_. [])))
      (http_node demo_coordinator_app (\<lambda>_. []) [] (\<lambda>_. []) (reed_solomon_coder xor_crate) demo_crypto open_verifier [''10.0.0.1:1''])
      [demo_put_call, Round]
      \<lparr>nd_world = demo_remote (demo_world 5 []), nd_sweep = sweep_status_new (Some 60), nd_tasks = []\<rparr>)"
proof -
  let ?nd = "\<lparr>nd_world = demo_remote (demo_world 5 []), nd_sweep = sweep_status_new (Some 60), nd_tasks = []\<rparr>"
  have "node_ok http_ok url_ns url_blob ?nd" using demo_remote_ok by (simp add: node_ok_def)
  moreover have "\<forall>c\<in>set [demo_put_call, Round]. safe_call c" using demo_put_call_safe by simp
  ultimately have "perform_all (cf_b64 demo_coordinator_app) node_meta
      (direct_node [] (\<lambda>_. []) (reed_solomon_coder xor_crate) demo_crypto open_verifier [''10.0.0.1:1'']) [demo_put_call, Round]
      (world_map meta_abs ?nd) = map_prod id (world_map meta_abs) (perform_all (cf_b64 demo_coordinator_app)
      (remote_metadata_store (coordinator_net demo_coordinator_app (\<lambda>_. [])))
      (http_node demo_coordinator_app (\<lambda>_. []) [] (\<lambda>_. []) (reed_solomon_coder xor_crate) demo_crypto open_verifier [''10.0.0.1:1''])
      [demo_put_call, Round] ?nd)"
    by (rule node_over_http)
  moreover have "world_map meta_abs ?nd = \<lparr>nd_world = demo_world 5 [], nd_sweep = sweep_status_new (Some 60), nd_tasks = []\<rparr>"
    by (simp add: world_map_def demo_remote_abs)
  ultimately show ?thesis by (simp only: fst_map_prod id_apply)
qed

section \<open>From the application's payload to the coordinator and back\<close>

lemma url_plain: "url_safe s \<Longrightarrow> plain_id s"
  by (auto simp: url_safe_def plain_id_def slash_reserved)

lemma direct_wired:
  "wired_put root roots c (na_put (direct_node root roots (reed_solomon_coder c) cr ver peers))"
  "wired_get root roots c (na_get (direct_node root roots (reed_solomon_coder c) cr ver peers))"
  "pb_crypto (na_put (direct_node root roots ec cr ver peers)) = cr" "gb_crypto (na_get (direct_node root roots ec cr ver peers)) = cr"
  "gb_verifier (na_get (direct_node root roots ec cr ver peers)) = ver"
  by (simp_all add: direct_node_def node_app_new_def wired_put_def wired_get_def put_uses_def get_uses_def put_with_mesh_def
      put_backup_new_def get_with_mesh_def get_backup_new_def)

lemma meta_abs_parts: "w_calls (meta_abs cw) = w_calls (snd cw)" "w_called (meta_abs cw) = w_called (snd cw)"
  "intact_shards root (meta_abs cw) ns b shs = intact_shards root (snd cw) ns b shs"
  by (simp_all add: meta_abs_def intact_shards_def split_beta)

lemma http_put_then_restore:
  assumes "http_ok cw" and "http_ok cw2" and "url_ns ns"
    and "mv_contracts (mem_view (co_meta (fst cw))) (cc_app_id (ct_claims tok)) = Some ct" and "rs_supported c (ac_erasure ct)"
    and "rs_coder_encode c d (ac_erasure ct) = Inr shs" and "no_second_preimage (cr_sha256_hex cr) shs" and "length d < 2 ^ 64"
    and "put_backup_execute (na_put (http_node app order root roots (reed_solomon_coder c) cr ver peers)) ns tok d cw = (Inr b, cw1)"
    and "mv_manifests (mem_view (co_meta (fst cw2))) (ns, b) = mv_manifests (mem_view (co_meta (fst cw1))) (ns, b)"
    and "unat (ep_k (ac_erasure ct)) \<le> card (intact_shards root (snd cw2) ns b shs)"
    and "guard_authorize ver (remote_metadata_store (coordinator_net app order)) (own_clock system_clock) ns tok2 OpGet cw2 = (Inr a, cw3)"
    and "w_calls (snd cw3) (w_called (snd cw3)) = Delivered"
  shows "\<exists>out cw'. get_backup_restore (na_get (http_node app order root roots (reed_solomon_coder c) cr ver peers)) ns tok2 b cw2 =
    (Inr out, cw') \<and> ro_ciphertext out = d"
proof -
  let ?direct = "direct_node root roots (reed_solomon_coder c) cr ver peers"
  note uses = direct_wired(1,2) [of root roots c cr ver peers] direct_wired(3-5)
  note plain = url_plain [OF assms(3)]
  have put: "put_backup_execute (na_put ?direct) ns tok d (meta_abs cw) = (Inr b, meta_abs cw1)"
    using simD [OF http.put [OF refl own_hash assms(3)] assms(1) assms(9) [unfolded http_node_def]] by (simp add: direct_node_def)
  have ct: "mv_contracts (node_mview (meta_abs cw)) (cc_app_id (ct_claims tok)) = Some ct" by (simp add: meta_abs_view assms(4))
  obtain m where m: "mv_manifests (node_mview (meta_abs cw1)) (ns, b) = Some m"
    by (rule stored_manifest [OF uses(1) plain ct assms(5,6) put])
  then have "url_blob b" using assms(2,10) by (simp add: http_at_def url_view_def meta_abs_view)
  have guard: "guard_authorize (gb_verifier (na_get ?direct)) node_meta system_clock ns tok2 OpGet (meta_abs cw2) = (Inr a, meta_abs cw3)"
    using simD [OF http.guard [OF assms(3)] assms(2,12)] by (simp add: uses)
  have got: "\<exists>out w'. get_backup_restore (na_get ?direct) ns tok2 b (meta_abs cw2) = (Inr out, w') \<and> ro_ciphertext out = d"
    by (rule put_then_restore [OF uses(1,2) _ plain ct assms(5,6) _ assms(8) put _ _ guard])
      (use assms in \<open>simp_all add: uses meta_abs_view meta_abs_parts\<close>)
  have "sim meta_abs http_ok (get_backup_restore (na_get (http_node app order root roots (reed_solomon_coder c) cr ver peers)) ns tok2 b)
      (get_backup_restore (na_get ?direct) ns tok2 b)"
    unfolding http_node_def direct_node_def by (rule http.get [OF own_hash assms(3) \<open>url_blob b\<close>])
  from sim_run [OF this assms(2)] got show ?thesis by (metis (no_types, lifting) Pair_inject)
qed

text \<open>A put that is admitted succeeds when nothing fails, and leaves all its shards on the disk.\<close>

lemma meta_abs_env:
  "calm root (meta_abs cw) = calm root (snd cw)" "w_clock (meta_abs cw) = w_clock (snd cw)" "w_ticks (meta_abs cw) = w_ticks (snd cw)"
  by (simp_all add: meta_abs_def split_beta)

lemma http_put_coded:
  assumes ok: "http_at P cw" and calm: "calm root (snd cw)" and ns: "url_ns ns"
    and tok: "av_verify_signature ver tok = Inr ()" "cc_namespace (ct_claims tok) = ns" "cc_operation (ct_claims tok) = OpPut"
      "Timestamp (w_clock (snd cw) (w_ticks (snd cw))) < cc_expires_at (ct_claims tok)"
    and owner: "mv_namespaces (mem_view (co_meta (fst cw))) ns = Some n" "nsp_app_id n = cc_app_id (ct_claims tok)"
    and ct: "mv_contracts (mem_view (co_meta (fst cw))) (cc_app_id (ct_claims tok)) = Some ct"
    and enc: "rs_coder_encode c d (ac_erasure ct) = Inr shs" "length shs \<le> 2 ^ 16"
    and quota: "admits (ac_quota ct) (nu_bytes (usage_of (mem_view (co_meta (fst cw))) ns))
      (nu_objects (usage_of (mem_view (co_meta (fst cw))) ns)) (word_of_nat (length d))"
  obtains b cw1 m where
    "put_backup_execute (na_put (http_node app order root roots (reed_solomon_coder c) cr ver peers)) ns tok d cw = (Inr b, cw1)"
    and "http_at P cw1" and "calm root (snd cw1)" and "mem_view (co_meta (fst cw1)) = add_manifest m (mem_view (co_meta (fst cw)))"
    and "mf_blob_id m = b" and "mf_namespace m = ns" and "mf_erasure m = ac_erasure ct" and "length (mf_shards m) = length shs"
    and "node_aview root (meta_abs cw1) = store_shards ns b 0 shs (node_aview root (meta_abs cw))"
    and "w_clock (snd cw1) = w_clock (snd cw)"
proof -
  let ?direct = "direct_node root roots (reed_solomon_coder c) cr ver peers" and ?w = "meta_abs cw"
  note plain = url_plain [OF ns]
  have wired: "wired_put root roots c (na_put ?direct)" by (rule direct_wired)
  have ver: "pb_verifier (na_put ?direct) = ver"
    by (simp add: direct_node_def node_app_new_def put_with_mesh_def put_backup_new_def)
  have "\<exists>b w1. put_backup_execute (na_put ?direct) ns tok d ?w = (Inr b, w1) \<and> calm root w1"
    by (rule node_put_coded [OF wiredD(1,2) [OF wired], where n = n and ct = ct and shs = shs])
      (use assms plain ver in \<open>simp_all add: meta_abs_env meta_abs_view\<close>)
  then obtain b w1 where direct: "put_backup_execute (na_put ?direct) ns tok d ?w = (Inr b, w1)" "calm root w1" by blast
  have "sim meta_abs (http_at P) (put_backup_execute (na_put (http_node app order root roots (reed_solomon_coder c) cr ver peers)) ns tok d)
      (put_backup_execute (na_put ?direct) ns tok d)"
    unfolding http_node_def direct_node_def by (rule http.put [OF refl own_hash ns])
  from sim_run [OF this ok] direct(1) obtain cw1 where
    put: "put_backup_execute (na_put (http_node app order root roots (reed_solomon_coder c) cr ver peers)) ns tok d cw = (Inr b, cw1)"
    and w1: "w1 = meta_abs cw1" and ok1: "http_at P cw1" by (metis Pair_inject)
  obtain c' shs' m where m: "mv_contracts (node_mview ?w) (cc_app_id (ct_claims tok)) = Some c'"
      "ec_encode (pb_erasure (na_put ?direct)) d (ac_erasure c') = Inr shs'" "mf_blob_id m = b" "mf_namespace m = ns"
      "mf_erasure m = ac_erasure c'" "node_mview w1 = add_manifest m (node_mview ?w)"
      "length shs' \<le> 2 ^ 16 \<longrightarrow> node_aview root w1 = store_shards ns b 0 shs' (node_aview root ?w) \<and>
        describes (cr_sha256_hex (pb_crypto (na_put ?direct))) 0 shs' (mf_shards m)"
    by (rule node.put_ok [OF wiredD(1) [OF wired] plain direct(1)]) (rule that)
  have same: "c' = ct" "shs' = shs"
    using m(1,2) ct enc(1) wiredD(2) [OF wired] by (simp_all add: meta_abs_view reed_solomon_coder_def)
  have "w_clock w1 = w_clock ?w"
    using keepsD [OF put_keeps_env [OF wiredD(1) [OF wired]] direct(1)] by (simp add: node_env_def)
  then show thesis
    using direct(2) m enc(2) same by (intro that [OF put ok1, of m]) (auto simp: w1 meta_abs_env meta_abs_view dest: describes_length)
qed

lemma http_stored:
  assumes "http_at P cw" and "calm root (snd cw)" and "url_ns ns" and "av_verify_signature ver tok = Inr ()"
    and "cc_namespace (ct_claims tok) = ns" and "cc_operation (ct_claims tok) = OpPut"
    and "Timestamp (w_clock (snd cw) (w_ticks (snd cw))) < cc_expires_at (ct_claims tok)"
    and "mv_namespaces (mem_view (co_meta (fst cw))) ns = Some n" and "nsp_app_id n = cc_app_id (ct_claims tok)"
    and "mv_contracts (mem_view (co_meta (fst cw))) (cc_app_id (ct_claims tok)) = Some ct" and ct: "rs_supported c (ac_erasure ct)"
    and quota: "admits (ac_quota ct) (nu_bytes (usage_of (mem_view (co_meta (fst cw))) ns))
      (nu_objects (usage_of (mem_view (co_meta (fst cw))) ns)) (word_of_nat (length d))"
  obtains b cw1 shs m where
    "put_backup_execute (na_put (http_node app order root roots (reed_solomon_coder c) cr ver peers)) ns tok d cw = (Inr b, cw1)"
    and "http_at P cw1" and "calm root (snd cw1)" and "rs_coder_encode c d (ac_erasure ct) = Inr shs"
    and "unat (ep_k (ac_erasure ct)) \<le> card (intact_shards root (snd cw1) ns b shs)"
    and "mem_view (co_meta (fst cw1)) = add_manifest m (mem_view (co_meta (fst cw)))" and "w_clock (snd cw1) = w_clock (snd cw)"
proof -
  obtain shs where enc: "ec_encode (reed_solomon_coder c) d (ac_erasure ct) = Inr shs" using rs.encode_ok [OF ct] by blast
  then have encode: "rs_coder_encode c d (ac_erasure ct) = Inr shs" by (simp add: reed_solomon_coder_def)
  have n16: "length shs \<le> 2 ^ 16" using rs.encode_bound [OF ct enc] by simp
  obtain b cw1 m where
    put: "put_backup_execute (na_put (http_node app order root roots (reed_solomon_coder c) cr ver peers)) ns tok d cw = (Inr b, cw1)"
    and ok: "http_at P cw1" and calm: "calm root (snd cw1)" and view: "mem_view (co_meta (fst cw1)) = add_manifest m (mem_view (co_meta (fst cw)))"
    and disk: "node_aview root (meta_abs cw1) = store_shards ns b 0 shs (node_aview root (meta_abs cw))"
    and clock: "w_clock (snd cw1) = w_clock (snd cw)"
    by (rule http_put_coded [OF assms(1-10) encode n16 quota])
  have "calm root (meta_abs cw1)" using calm by (simp add: meta_abs_env)
  then have "intact_shards root (meta_abs cw1) ns b shs = {..<length shs}"
    using store_shards_at [OF _ n16, of _ ns b "node_aview root (meta_abs cw)"]
    unfolding intact_shards_def disk calm_def shard_disk_def by auto
  then have "unat (ep_k (ac_erasure ct)) \<le> card (intact_shards root (meta_abs cw1) ns b shs)"
    using rs.encode_count [OF ct enc] rs_supported_valid [OF ct] by (simp add: valid_erasure_def)
  then show thesis using view clock by (intro that [OF put ok calm encode]) (simp_all add: meta_abs_parts)
qed

lemma http_guard_accepts:
  assumes "http_ok cw" and "calm root (snd cw)" and "url_ns ns" and "av_verify_signature ver tok = Inr ()"
    and "cc_namespace (ct_claims tok) = ns" and "cc_operation (ct_claims tok) = oper"
    and "Timestamp (w_clock (snd cw) (w_ticks (snd cw))) < cc_expires_at (ct_claims tok)"
    and "mv_namespaces (mem_view (co_meta (fst cw))) ns = Some n" and "nsp_app_id n = cc_app_id (ct_claims tok)"
  obtains cw' where "guard_authorize ver (remote_metadata_store (coordinator_net app order)) (own_clock system_clock) ns tok oper cw =
      (Inr (cc_app_id (ct_claims tok)), cw')" and "w_calls (snd cw') (w_called (snd cw')) = Delivered"
proof -
  let ?w = "meta_abs cw"
  have w: "calm root ?w" "w_clock ?w = w_clock (snd cw)" "w_ticks ?w = w_ticks (snd cw)"
    using assms(2) by (simp_all add: meta_abs_env)
  have "guard_authorize ver node_meta system_clock ns tok oper ?w =
      (Inr (cc_app_id (ct_claims tok)), ?w\<lparr>w_ticks := Suc (w_ticks ?w), w_called := Suc (w_called ?w)\<rparr>)"
    using assms(4-9) by (intro node_guard_accepts [OF w(1), where n = n]) (simp_all add: w meta_abs_view)
  with sim_run [OF http.guard [OF assms(3)] assms(1)] obtain cw' where
    g: "guard_authorize ver (remote_metadata_store (coordinator_net app order)) (own_clock system_clock) ns tok oper cw =
      (Inr (cc_app_id (ct_claims tok)), cw')"
    and "meta_abs cw' = ?w\<lparr>w_ticks := Suc (w_ticks ?w), w_called := Suc (w_called ?w)\<rparr>" by (metis Pair_inject)
  then have "w_calls (meta_abs cw') (w_called (meta_abs cw')) = Delivered" using w(1) by (simp add: calm_def)
  with g show thesis by (intro that) (simp_all add: meta_abs_parts)
qed

text \<open>
  C3. The application's round trip.  A payload encrypted with the content cipher of its namespace,
  put through the client library, the node-agent's router and the metadata calls to the coordinator,
  fetched the same way at any later time at which the coordinator holds the manifest and any \<open>k\<close>
  shards are intact on the anchor, and decrypted with the same cipher, is the payload.
\<close>

theorem client_backup_over_http:
  fixes rng :: "'v \<Rightarrow> bytes \<times> 'v"
  assumes "gcm_correct cc" and "\<forall>v. length (fst (rng v)) = NONCE_LEN"
    and "ci = cipher_for_namespace (aes_gcm_cryptographer cc rng) secret (ns_str ns)"
    and "cipher_encrypt show_err ci payload v = (Inr ciphertext, v')" and "b64_correct b64"
    and "node = http_node app order root roots (reed_solomon_coder c) cr ver peers"
    and "http_ok (nd_world nd)" and "http_ok (nd_world nd2)" and "url_ns ns"
    and "mv_contracts (mem_view (co_meta (fst (nd_world nd)))) (cc_app_id (ct_claims tok)) = Some ct" and "rs_supported c (ac_erasure ct)"
    and "rs_coder_encode c ciphertext (ac_erasure ct) = Inr shs" and "no_second_preimage (cr_sha256_hex cr) shs" and "length ciphertext < 2 ^ 64"
    and "client_put b64 (node_net b64 node) text ns tok ciphertext nd = (Inr b, nd1)"
    and "mv_manifests (mem_view (co_meta (fst (nd_world nd2)))) (ns, b) = mv_manifests (mem_view (co_meta (fst (nd_world nd1)))) (ns, b)"
    and "unat (ep_k (ac_erasure ct)) \<le> card (intact_shards root (snd (nd_world nd2)) ns b shs)"
    and "guard_authorize ver (remote_metadata_store (coordinator_net app order)) (own_clock system_clock) ns tok2 OpGet (nd_world nd2) = (Inr a, cw3)"
    and "w_calls (snd cw3) (w_called (snd cw3)) = Delivered"
  shows "\<exists>bs nd'. client_get b64 (node_net b64 node) text ns tok2 b nd2 = (Inr bs, nd') \<and>
    cipher_decrypt show_err ci bs = Inr payload"
proof -
  from assms(15) obtain cw1 where put: "put_backup_execute (na_put node) ns tok ciphertext (nd_world nd) = (Inr b, cw1)"
    and nd1: "nd1 = nd\<lparr>nd_world := cw1\<rparr>"
    by (auto simp: client_put_runs [OF assms(5)] split: prod.splits sum.splits fault.splits)
  then have kept: "mv_manifests (mem_view (co_meta (fst (nd_world nd2)))) (ns, b) = mv_manifests (mem_view (co_meta (fst cw1))) (ns, b)"
    using assms(16) by simp
  have "\<exists>out cw'. get_backup_restore (na_get node) ns tok2 b (nd_world nd2) = (Inr out, cw') \<and> ro_ciphertext out = ciphertext"
    unfolding assms(6)
    by (rule http_put_then_restore [OF assms(7-14) put [unfolded assms(6)] kept assms(17-19)])
  moreover have "cipher_decrypt show_err ci ciphertext = Inr payload"
    by (rule content_cipher_roundtrip [OF assms(1-4)])
  ultimately show ?thesis by (auto simp: client_get_runs [OF assms(5)])
qed

end
