(* ===== verification/Manifest_Types.thy ===== *)
theory Manifest_Types
  imports Simulation Remote_Vault
begin

text \<open>
  The type invariant of the metadata a node-agent writes.  The use-cases, the service and the sweep
  are run against themselves (\<open>simulated_ports\<close> with the identity as the refinement map), which makes
  the simulation the statement that every step keeps the invariant.
\<close>

section \<open>Well-formed metadata\<close>

text \<open>
  A manifest is well formed when it is stored under its own ids, its parameters are ones the coder
  supports, and it records the shards of some blob: shard \<open>j\<close> has index \<open>j\<close>, the hash and the size of
  the \<open>j\<close>-th shard, and lies on the anchor.
\<close>

definition well_formed_manifest :: "rs_crate \<Rightarrow> (bytes \<Rightarrow> string) \<Rightarrow> manifest \<Rightarrow> bool" where
  "well_formed_manifest c hash m \<longleftrightarrow> rs_supported c (mf_erasure m) \<and> (\<exists>d shs. records (reed_solomon_coder c) hash d shs m)"

definition well_formed_view :: "rs_crate \<Rightarrow> (bytes \<Rightarrow> string) \<Rightarrow> meta_view \<Rightarrow> bool" where
  "well_formed_view c hash v \<longleftrightarrow> (\<forall>a ct. mv_contracts v a = Some ct \<longrightarrow> rs_supported c (ac_erasure ct)) \<and>
     (\<forall>ns b m. mv_manifests v (ns, b) = Some m \<longrightarrow> mf_namespace m = ns \<and> mf_blob_id m = b \<and> well_formed_manifest c hash m)"

lemma well_formed_shape:
  assumes "well_formed_manifest c hash m"
  shows "valid_erasure (mf_erasure m)" and "length (mf_shards m) = unat (ep_n (mf_erasure m))"
    and "j < length (mf_shards m) \<Longrightarrow> sh_index (mf_shards m ! j) = word_of_nat j"
    and "distinct (map sh_index (mf_shards m))"
proof -
  from assms obtain d shs where sup: "rs_supported c (mf_erasure m)" and enc: "ec_encode (reed_solomon_coder c) d (mf_erasure m) = Inr shs"
    and desc: "describes hash 0 shs (mf_shards m)"
    by (auto simp: well_formed_manifest_def records_def)
  show "valid_erasure (mf_erasure m)" using sup by (rule rs_supported_valid)
  show len: "length (mf_shards m) = unat (ep_n (mf_erasure m))"
    using rs.encode_count [OF sup enc] describes_length [OF desc] by simp
  have idx: "sh_index (mf_shards m ! j) = word_of_nat j" if "j < length (mf_shards m)" for j
    using describes_nth [OF desc] describes_length [OF desc] that by simp
  then show "j < length (mf_shards m) \<Longrightarrow> sh_index (mf_shards m ! j) = word_of_nat j" .
  have bound: "length (mf_shards m) < 2 ^ 16" using unsigned_less [of "ep_n (mf_erasure m)", where ?'a = nat] len by simp
  have "i = j" if "i < length (mf_shards m)" "j < length (mf_shards m)" "word_of_nat i = (word_of_nat j :: u16)" for i j
    using arg_cong [OF that(3), of unat] that(1,2) bound by (simp add: unat_of_nat_small)
  then show "distinct (map sh_index (mf_shards m))" by (auto simp: distinct_conv_nth idx)
qed

lemma well_formed_updates:
  "well_formed_view c hash v \<Longrightarrow> well_formed_manifest c hash m \<Longrightarrow> well_formed_view c hash (add_manifest m v)"
  "well_formed_view c hash v \<Longrightarrow> well_formed_view c hash (drop_manifest ns b v)"
  by (auto simp: well_formed_view_def add_manifest_def drop_manifest_def)

section \<open>Every step keeps it\<close>

abbreviation typed :: "rs_crate \<Rightarrow> (bytes \<Rightarrow> string) \<Rightarrow> world \<Rightarrow> bool" where
  "typed c hash w \<equiv> well_formed_view c hash (node_mview w)"

lemma sim_id: "sim (\<lambda>w. w) ok m m \<longleftrightarrow> (\<forall>v. ok v \<longrightarrow> ok (snd (m v)))"
  by (auto simp: sim_def prod_eq_iff)

lemma sim_keeps: "keeps node_mview m \<Longrightarrow> sim (\<lambda>w. w) (typed c hash) m m"
  by (simp add: sim_id keeps_def)

lemma typed_put: "well_formed_manifest c hash m \<Longrightarrow> sim (\<lambda>w. w) (typed c hash) (ms_put_manifest node_meta m) (ms_put_manifest node_meta m)"
  using nodem.put_manifest [OF surjective_pairing, of m] well_formed_updates(1) by (simp add: sim_id) metis

lemma typed_delete: "sim (\<lambda>w. w) (typed c hash) (ms_delete_manifest node_meta ns b) (ms_delete_manifest node_meta ns b)"
  using nodem.delete_manifest [OF surjective_pairing, of ns b] well_formed_updates(2) by (simp add: sim_id) metis

interpretation typed: simulated_ports "\<lambda>w. w" "typed c hash" "\<lambda>_. True" "\<lambda>_. True" "\<lambda>_. True" node_meta node_meta
  "node_anchor root" "node_anchor root" random_id_source random_id_source system_clock system_clock
  "node_transport roots" "node_transport roots" "reed_solomon_coder c" hash "well_formed_manifest c hash" for c hash root roots
proof (unfold_locales, goal_cases)
  case (13 w a ct w' d shs m)
  then have "mv_contracts (node_mview w) a = Some ct" using nodem.get_contract by metis
  with 13 have "rs_supported c (mf_erasure m)" by (auto simp: well_formed_view_def)
  with 13 show ?case by (auto simp: well_formed_manifest_def)
qed (auto intro: sim_keeps typed_put typed_delete nodem.read_keeps node.anchor_keeps_meta node.env_keeps_meta node.peers_keep)

lemma step_well_formed:
  assumes "node_step b64 node_meta (direct_node root roots (reed_solomon_coder c) cr ver peers) nd ev nd'"
    and "typed c (cr_sha256_hex cr) (nd_world nd)"
  shows "typed c (cr_sha256_hex cr) (nd_world nd')"
proof -
  let ?ok = "node_ok (typed c (cr_sha256_hex cr)) (\<lambda>_. True) (\<lambda>_. True)"
  have ok: "?ok nd \<longleftrightarrow> typed c (cr_sha256_hex cr) (nd_world nd)" for nd by (auto simp: node_ok_def)
  have "?ok nd'"
    using assms(1)
  proof cases
    case (Serve q r)
    have "safe_body (\<lambda>_. True) (\<lambda>_. True) (hr_body q)" by (simp add: safe_body_def)
    from simD [OF typed.router [OF refl refl this] _ Serve(2) [unfolded direct_node_def]] assms(2) show ?thesis by (simp add: ok)
  next
    case (Task before ns b rest n)
    from simD [OF typed.heal [OF refl TrueI TrueI, where hash = "cr_sha256_hex cr"] _ Task(3) [unfolded direct_node_def]] assms(2) show ?thesis by (simp add: ok)
  next
    case (Sweep alive)
    from simD [OF typed.sweep [OF refl, where hash = "cr_sha256_hex cr"] _ Sweep(2) [unfolded direct_node_def]] assms(2) show ?thesis by (simp add: ok)
  qed
  then show ?thesis by (simp add: ok)
qed


end
