(* ===== verification/Tls.thy ===== *)
theory Tls
  imports Self_Sovereign Quic_Wire
begin

text \<open>
  The TLS set-up: the mutual-TLS ingress of the coordinator (\<^verbatim>\<open>bins/coordinator/src/tls.rs\<close>) and the
  peer overlay (\<^verbatim>\<open>crates/adapter-quic/src/tls.rs\<close>), with the NAT broker built on it (\<^verbatim>\<open>nat.rs\<close>).  \<^verbatim>\<open>rustls\<close>,
  \<^verbatim>\<open>quinn\<close> and \<^verbatim>\<open>rcgen\<close> are arguments; a configuration is what the program tells them.
\<close>

section \<open>Configurations\<close>

text \<open>A server either asks for no client certificate or requires one that verifies against these roots.\<close>

datatype client_auth = NoClientAuth | RequireClientCert "bytes list"

record server_config =
  sc_client_auth :: client_auth
  sc_chain :: "bytes list"
  sc_key :: bytes
  sc_alpn :: "string list"

text \<open>\<^verbatim>\<open>RootCertStore::add\<close>, the builders that may refuse, and \<^verbatim>\<open>generate_simple_self_signed\<close>.\<close>

record tls_crates =
  tc_add_root :: "bytes list \<Rightarrow> bytes \<Rightarrow> string + bytes list"
  tc_client_verifier :: "bytes list \<Rightarrow> string + bytes list"
  tc_safe_versions :: "string + unit"
  tc_single_cert :: "bytes list \<Rightarrow> bytes \<Rightarrow> string + unit"
  tc_quic_server :: "server_config \<Rightarrow> string + server_config"
  tc_quic_client :: "string list \<Rightarrow> string + string list"
  tc_idle_timeout :: "nat \<Rightarrow> string + nat"
  tc_self_signed :: "string list \<Rightarrow> bytes \<Rightarrow> string + bytes \<times> bytes"

datatype tls_error = TlsRefused string | CaRefused port_error

text \<open>\<^verbatim>\<open>?\<close> on a result.\<close>

definition sum_then :: "'e + 'a \<Rightarrow> ('a \<Rightarrow> 'e + 'b) \<Rightarrow> 'e + 'b" where
  "sum_then r f = (case r of Inl e \<Rightarrow> Inl e | Inr a \<Rightarrow> f a)"

lemma sum_then_Inr: "sum_then r f = Inr b \<longleftrightarrow> (\<exists>a. r = Inr a \<and> f a = Inr b)"
  by (auto simp: sum_then_def split: sum.splits)

abbreviation refused :: "string + 'a \<Rightarrow> tls_error + 'a" where
  "refused \<equiv> map_sum TlsRefused id"

lemma map_sum_Inr: "map_sum f id r = Inr a \<longleftrightarrow> r = Inr a"
  by (cases r) simp_all

section \<open>The coordinator's ingress (coordinator/src/tls.rs)\<close>

definition mtls_server_config ::
  "tls_crates \<Rightarrow> rcgen_crate \<Rightarrow> bytes \<Rightarrow> cert_authority \<Rightarrow> string list \<Rightarrow> tls_error + server_config" where
  "mtls_server_config tc rg seed ca sans =
     sum_then (refused (tc_add_root tc [] (root_cert_der rg ca))) (\<lambda>roots.
     sum_then (refused (tc_client_verifier tc roots)) (\<lambda>verifier.
     sum_then (map_sum CaRefused id (issue_server rg seed sans ca)) (\<lambda>srv.
     sum_then (refused (tc_safe_versions tc)) (\<lambda>_.
     sum_then (refused (tc_single_cert tc [si_cert_der srv] (si_key_der srv))) (\<lambda>_.
     Inr \<lparr>sc_client_auth = RequireClientCert verifier, sc_chain = [si_cert_der srv], sc_key = si_key_der srv,
       sc_alpn = [''h2'', ''http/1.1'']\<rparr>)))))"

section \<open>The peer overlay (adapter-quic/src/tls.rs)\<close>

definition ALPN :: string where
  "ALPN = ''vaultmesh-p2p''"

definition quic_server_config :: "tls_crates \<Rightarrow> bytes \<Rightarrow> string + server_config" where
  "quic_server_config tc seed =
     sum_then (tc_self_signed tc [''vaultmesh-node''] seed) (\<lambda>(cert_der, key_der).
     sum_then (tc_safe_versions tc) (\<lambda>_.
     sum_then (tc_single_cert tc [cert_der] key_der) (\<lambda>_.
     sum_then (tc_quic_server tc \<lparr>sc_client_auth = NoClientAuth, sc_chain = [cert_der], sc_key = key_der, sc_alpn = [ALPN]\<rparr>) Inr)))"

text \<open>The verifier of the overlay: any certificate will do; signatures are checked by \<^verbatim>\<open>rustls\<close>.\<close>

record signature_check =
  sg_tls12 :: "bytes \<Rightarrow> bytes \<Rightarrow> bytes \<Rightarrow> string + unit"
  sg_tls13 :: "bytes \<Rightarrow> bytes \<Rightarrow> bytes \<Rightarrow> string + unit"
  sg_schemes :: "string list"

record cert_verifier =
  cv_server_cert :: "bytes \<Rightarrow> bytes list \<Rightarrow> string \<Rightarrow> bytes \<Rightarrow> u64 \<Rightarrow> string + unit"
  cv_tls12 :: "bytes \<Rightarrow> bytes \<Rightarrow> bytes \<Rightarrow> string + unit"
  cv_tls13 :: "bytes \<Rightarrow> bytes \<Rightarrow> bytes \<Rightarrow> string + unit"
  cv_schemes :: "string list"

definition trust_overlay :: "signature_check \<Rightarrow> cert_verifier" where
  "trust_overlay sg =
     \<lparr>cv_server_cert = (\<lambda>end_entity intermediates server_name ocsp now. Inr ()), cv_tls12 = sg_tls12 sg, cv_tls13 = sg_tls13 sg,
      cv_schemes = sg_schemes sg\<rparr>"

record quic_client =
  qc_verifier :: cert_verifier
  qc_client_cert :: "bytes option"
  qc_alpn :: "string list"
  qc_idle_ms :: nat

definition quic_client_config :: "tls_crates \<Rightarrow> signature_check \<Rightarrow> string + quic_client" where
  "quic_client_config tc sg =
     sum_then (tc_safe_versions tc) (\<lambda>_.
     sum_then (tc_quic_client tc [ALPN]) (\<lambda>alpn.
     sum_then (tc_idle_timeout tc 4000) (\<lambda>timeout.
     Inr \<lparr>qc_verifier = trust_overlay sg, qc_client_cert = None, qc_alpn = alpn, qc_idle_ms = timeout\<rparr>)))"

text \<open>
  The client endpoint of \<^verbatim>\<open>quinn\<close>: what the operating system gives, or why it does not; the configuration
  is then set on it.  The shard transport dials over it, and the server listens with its own.
\<close>

definition client_endpoint :: "tls_crates \<Rightarrow> signature_check \<Rightarrow> string + (quic_client \<Rightarrow> 'e) \<Rightarrow> port_error + 'e" where
  "client_endpoint tc sg endpoint =
     (case endpoint of Inl e \<Rightarrow> Inl (Backend (''quic client endpoint: '' @ e))
      | Inr ep \<Rightarrow> (case quic_client_config tc sg of Inl e \<Rightarrow> Inl (Backend (''quic tls: '' @ e)) | Inr cfg \<Rightarrow> Inr (ep cfg)))"

definition quic_transport_new ::
  "tls_crates \<Rightarrow> signature_check \<Rightarrow> string + (quic_client \<Rightarrow> 'w dial) \<Rightarrow> port_error + 'w shard_transport" where
  "quic_transport_new tc sg endpoint = map_sum id quic_shard_transport (client_endpoint tc sg endpoint)"

definition quic_server_bind ::
  "tls_crates \<Rightarrow> bytes \<Rightarrow> (server_config \<Rightarrow> socket_addr \<Rightarrow> (string, 'w, unit) act) \<Rightarrow> socket_addr \<Rightarrow> ('w, unit) io" where
  "quic_server_bind tc seed listen addr =
     (case quic_server_config tc seed of
        Inl e \<Rightarrow> io_throw (Backend (''quic tls: '' @ e))
      | Inr cfg \<Rightarrow> io_map_err (\<lambda>e. Backend (''quic server endpoint: '' @ e)) (listen cfg addr))"

definition quic_server_local_addr :: "(string, 'w, socket_addr) act \<Rightarrow> ('w, socket_addr) io" where
  "quic_server_local_addr local_addr = io_map_err Backend local_addr"

section \<open>The NAT broker (nat.rs)\<close>

text \<open>An endpoint that connects and closes again.\<close>

type_synonym 'w connect = "socket_addr \<Rightarrow> string \<Rightarrow> (string, 'w, unit) act"

definition nat_broker_new :: "tls_crates \<Rightarrow> signature_check \<Rightarrow> string + (quic_client \<Rightarrow> 'w connect) \<Rightarrow> port_error + 'w connect" where
  "nat_broker_new tc sg endpoint = client_endpoint tc sg endpoint"

definition punch :: "'w connect \<Rightarrow> string \<Rightarrow> ('w, string option) io" where
  "punch connect peer =
     (case parse_socket_addr peer of
        None \<Rightarrow> io_return None
      | Some addr \<Rightarrow> io_bind (io_attempt (connect addr ''vaultmesh-node'')) (\<lambda>r.
          case r of Inr _ \<Rightarrow> io_return (Some peer) | Inl _ \<Rightarrow> io_return None))"

definition relay :: "string \<Rightarrow> string \<Rightarrow> bytes \<Rightarrow> ('w, unit) io" where
  "relay peer key bs = io_throw (Unavailable ''direct punch failed; use the coordinator relay path'')"

section \<open>What is asked of a caller\<close>

text \<open>
  What \<^verbatim>\<open>rustls\<close> promises: a store holds the roots that were added, a verifier trusts the roots it was built
  from, and a handshake with a server that requires a client certificate needs one that verifies
  against one of these roots.
\<close>

definition roots_kept :: "tls_crates \<Rightarrow> bool" where
  "roots_kept tc \<longleftrightarrow> (\<forall>rs d rs'. tc_add_root tc rs d = Inr rs' \<longrightarrow> rs' = rs @ [d]) \<and> (\<forall>rs v. tc_client_verifier tc rs = Inr v \<longrightarrow> v = rs)"

definition handshake :: "(bytes \<Rightarrow> bytes \<Rightarrow> bool) \<Rightarrow> server_config \<Rightarrow> bytes option \<Rightarrow> bool" where
  "handshake verifies cfg cert =
     (case sc_client_auth cfg of
        NoClientAuth \<Rightarrow> True
      | RequireClientCert roots \<Rightarrow> (case cert of None \<Rightarrow> False | Some c \<Rightarrow> \<exists>r\<in>set roots. verifies r c))"

text \<open>
  The server takes exactly the callers whose certificate verifies against the authority's root, and
  presents a certificate of that authority for exactly the given names.
\<close>

lemma mtls_config_gate:
  assumes "roots_kept tc" and "mtls_server_config tc rg seed ca sans = Inr cfg"
  shows "\<not> handshake verifies cfg None \<and>
    (\<forall>c. handshake verifies cfg (Some c) \<longleftrightarrow> verifies (root_cert_der rg ca) c) \<and>
    (\<exists>params key cert. rg_signed_by rg params key (ca_cert ca) (ca_key ca) = Inr cert \<and> sc_chain cfg = [rg_cert_der rg cert] \<and>
       cp_extended_key_usages params = [ServerAuth] \<and> list_all2 (\<lambda>s x. san_of rg s = Inr x) sans (cp_alt_names params))"
proof -
  from assms(2) obtain roots v srv where "tc_add_root tc [] (root_cert_der rg ca) = Inr roots" "tc_client_verifier tc roots = Inr v"
    and srv: "issue_server rg seed sans ca = Inr srv" and cfg: "sc_client_auth cfg = RequireClientCert v" "sc_chain cfg = [si_cert_der srv]"
    by (auto simp: mtls_server_config_def sum_then_Inr map_sum_Inr)
  then have "v = [root_cert_der rg ca]" using assms(1) unfolding roots_kept_def by (metis append_Nil)
  moreover from srv obtain key params cert where "rg_signed_by rg params key (ca_cert ca) (ca_key ca) = Inr cert"
    "si_cert_der srv = rg_cert_der rg cert" "cp_extended_key_usages params = [ServerAuth]"
    "list_all2 (\<lambda>s x. san_of rg s = Inr x) sans (cp_alt_names params)"
    by (rule issue_server_signed)
  ultimately show ?thesis using cfg by (auto simp: handshake_def)
qed

text \<open>
  A peer of the overlay is not authenticated: the client takes any certificate, and the server asks
  for none.
\<close>

lemma overlay_unauthenticated:
  "quic_client_config tc sg = Inr qc \<Longrightarrow> cv_server_cert (qc_verifier qc) end_entity intermediates name ocsp now = Inr ()"
  by (auto simp: quic_client_config_def sum_then_Inr trust_overlay_def)

text \<open>A direct path is only reported for a peer whose address parses and that answered.\<close>

lemma punch_direct:
  assumes "punch connect peer w = (Inr (Some p), w')"
  shows "p = peer \<and> (\<exists>addr. parse_socket_addr peer = Some addr \<and> connect addr ''vaultmesh-node'' w = (Inr (), w'))"
proof (cases "parse_socket_addr peer")
  case None
  with assms show ?thesis by (simp add: punch_def io_return_def)
next
  case (Some addr)
  obtain r w1 where "connect addr ''vaultmesh-node'' w = (r, w1)" by force
  with assms Some show ?thesis by (cases r) (auto simp: punch_def io_bind_def io_attempt_def io_return_def)
qed

end
