(* ===== verification/Startup.thy ===== *)
theory Startup
  imports Onboarding Presigned_Anchor Tls Remote_Vault
begin

text \<open>
  How the two programs start: the configuration read from the environment, the adapters chosen by it,
  and the order in which start-up can fail (\<^verbatim>\<open>bins/node-agent/src/main.rs\<close>, \<^verbatim>\<open>bins/coordinator/src/main.rs\<close>
  and \<^verbatim>\<open>state.rs\<close>).  The environment is a function from names to values, the operating system and the
  HTTP, object-store and QUIC libraries are the record \<open>platform\<close>.
\<close>

section \<open>Reading the environment\<close>

type_synonym env = "string \<Rightarrow> string option"

definition env_or :: "env \<Rightarrow> string \<Rightarrow> string \<Rightarrow> string" where
  "env_or env name fallback = (case env name of Some s \<Rightarrow> s | None \<Rightarrow> fallback)"

text \<open>\<^verbatim>\<open>.split(',').map(trim).filter(non-empty)\<close>: the peers and the names of the server certificate.\<close>

definition comma_list :: "string \<Rightarrow> string list" where
  "comma_list s = filter (\<lambda>x. x \<noteq> []) (map trim (split_on (CHR '','') s))"

definition repair_interval :: "env \<Rightarrow> u64 option" where
  "repair_interval env =
     (case env ''VAULT_REPAIR_SECS'' of
        None \<Rightarrow> None
      | Some s \<Rightarrow> (case parse_u64 s of None \<Rightarrow> None | Some n \<Rightarrow> if 0 < n then Some n else None))"

datatype boot_error = BadAddress | EnvMissing string | ReadFailed string | ClientFailed string | PortFailed port_error
  | KeyFetchFailed startup_error | TlsFailed tls_error | WriteFailed string

definition parse_addr :: "string \<Rightarrow> boot_error + socket_addr" where
  "parse_addr s = ok_or BadAddress (parse_socket_addr s)"

section \<open>The object store (adapter-rustfs)\<close>

record rustfs_config =
  rf_endpoint :: string
  rf_bucket :: string
  rf_region :: string
  rf_access_key :: string
  rf_secret_key :: string
  rf_allow_http :: bool

text \<open>The builder of \<^verbatim>\<open>object_store\<close>, told the configuration and to use path-style addresses.\<close>

type_synonym 'o s3_builder = "rustfs_config \<Rightarrow> bool \<Rightarrow> os_error + 'o object_store"

definition build_s3 :: "'o s3_builder \<Rightarrow> rustfs_config \<Rightarrow> port_error + 'o object_store" where
  "build_s3 s3 cfg = map_sum rustfs_backend id (s3 cfg False)"

definition rustfs_anchor_new :: "'o s3_builder \<Rightarrow> rustfs_config \<Rightarrow> port_error + 'o blob_anchor" where
  "rustfs_anchor_new s3 cfg = map_sum id rustfs_blob_anchor (build_s3 s3 cfg)"

definition rustfs_presigner_new :: "'o s3_builder \<Rightarrow> rustfs_config \<Rightarrow> port_error + 'o object_store" where
  "rustfs_presigner_new s3 cfg = build_s3 s3 cfg"

definition allow_http :: "env \<Rightarrow> bool" where
  "allow_http env = (case env ''VAULT_S3_ALLOW_HTTP'' of Some v \<Rightarrow> v = ''1'' \<or> eq_ignore_ascii_case v ''true'' | None \<Rightarrow> True)"

section \<open>The node-agent (node-agent/src/main.rs)\<close>

text \<open>
  What the node-agent is given: files, the parts of an HTTP client (an identity, a root certificate,
  the client), what the client reaches at a base URL, the plain client of the presigned anchor, disks,
  the object store, peers over HTTP and QUIC, and the crates behind its own ports.
\<close>

record ('w, 'i, 'r, 'c) platform =
  pf_read :: "string \<Rightarrow> (string, 'w, bytes) act"
  pf_identity :: "bytes \<Rightarrow> string + 'i"
  pf_certificate :: "bytes \<Rightarrow> string + 'r"
  pf_client :: "'i option \<Rightarrow> 'r option \<Rightarrow> string + 'c"
  pf_http :: "'c \<Rightarrow> string \<Rightarrow> 'w net"
  pf_store_http :: "'w store_http"
  pf_disk :: "string \<Rightarrow> 'w blob_anchor"
  pf_s3 :: "'w s3_builder"
  pf_peer_net :: "'w peer_net"
  pf_tls :: tls_crates
  pf_signatures :: signature_check
  pf_quic_client :: "string + (quic_client \<Rightarrow> 'w dial)"
  pf_quic_listen :: "'w blob_anchor \<Rightarrow> server_config \<Rightarrow> socket_addr \<Rightarrow> (string, 'w, unit) act"
  pf_quic_local_addr :: "(string, 'w, socket_addr) act"
  pf_seed :: bytes
  pf_sleep :: "nat \<Rightarrow> 'w \<Rightarrow> 'w"
  pf_ed :: ed25519_crate
  pf_b64 :: b64_engine
  pf_rs :: rs_crate
  pf_crypto :: "'w cryptographer"
  pf_ids :: "'w id_source"
  pf_clock :: "'w clock"

definition coordinator_client :: "('w, 'i, 'r, 'c) platform \<Rightarrow> env \<Rightarrow> (boot_error, 'w, 'c) act" where
  "coordinator_client pf env =
     io_bind (case (env ''VAULT_CLIENT_CERT'', env ''VAULT_CLIENT_KEY'') of
         (Some cert, Some key) \<Rightarrow>
           io_bind (io_map_err ReadFailed (pf_read pf cert)) (\<lambda>pem.
           io_bind (io_map_err ReadFailed (pf_read pf key)) (\<lambda>key_pem.
           io_lift (map_sum ClientFailed Some (pf_identity pf (pem @ key_pem)))))
       | _ \<Rightarrow> io_return None) (\<lambda>identity.
     io_bind (case env ''VAULT_CA_CERT'' of
         Some ca \<Rightarrow>
           io_bind (io_map_err ReadFailed (pf_read pf ca)) (\<lambda>pem.
           io_lift (map_sum ClientFailed Some (pf_certificate pf pem)))
       | None \<Rightarrow> io_return None) (\<lambda>root.
     io_lift (map_sum ClientFailed id (pf_client pf identity root))))"

definition require :: "env \<Rightarrow> string \<Rightarrow> boot_error + string" where
  "require env name = ok_or (EnvMissing (name @ '' is required for VAULT_ANCHOR=rustfs'')) (env name)"

definition node_s3_config :: "env \<Rightarrow> boot_error + rustfs_config" where
  "node_s3_config env =
     sum_then (require env ''VAULT_S3_ENDPOINT'') (\<lambda>endpoint.
     sum_then (require env ''VAULT_S3_BUCKET'') (\<lambda>bucket.
     (let region = env_or env ''VAULT_S3_REGION'' ''us-east-1'' in
     sum_then (require env ''VAULT_S3_ACCESS_KEY'') (\<lambda>access_key.
     sum_then (require env ''VAULT_S3_SECRET_KEY'') (\<lambda>secret_key.
     Inr \<lparr>rf_endpoint = endpoint, rf_bucket = bucket, rf_region = region, rf_access_key = access_key,
       rf_secret_key = secret_key, rf_allow_http = allow_http env\<rparr>)))))"

definition build_anchor ::
  "('w, 'i, 'r, 'c) platform \<Rightarrow> env \<Rightarrow> string \<Rightarrow> string \<Rightarrow> 'c \<Rightarrow> boot_error + 'w blob_anchor" where
  "build_anchor pf env anchor_root coordinator client =
     (if env ''VAULT_ANCHOR'' = Some ''presigned''
      then Inr (presigned_blob_anchor (pf_http pf client coordinator) (pf_store_http pf))
      else if env ''VAULT_ANCHOR'' = Some ''rustfs'' \<or> env ''VAULT_ANCHOR'' = Some ''s3''
      then sum_then (node_s3_config env) (\<lambda>cfg. map_sum PortFailed id (rustfs_anchor_new (pf_s3 pf) cfg))
      else Inr (pf_disk pf anchor_root))"

text \<open>The bound address is asked for to be logged, at the default log level.\<close>

definition choose_transport ::
  "('w, 'i, 'r, 'c) platform \<Rightarrow> env \<Rightarrow> 'w blob_anchor \<Rightarrow> (boot_error, 'w, 'w shard_transport) act" where
  "choose_transport pf env anchor =
     (if env ''VAULT_TRANSPORT'' = Some ''quic''
      then io_bind (io_lift (parse_addr (env_or env ''VAULT_QUIC_ADDR'' ''0.0.0.0:8791''))) (\<lambda>quic_addr.
           io_bind (io_map_err PortFailed (quic_server_bind (pf_tls pf) (pf_seed pf) (pf_quic_listen pf anchor) quic_addr)) (\<lambda>_.
           io_bind (io_map_err PortFailed (quic_server_local_addr (pf_quic_local_addr pf))) (\<lambda>_.
           io_lift (map_sum PortFailed id (quic_transport_new (pf_tls pf) (pf_signatures pf) (pf_quic_client pf))))))
      else io_return (peer_http_transport (pf_peer_net pf)))"

text \<open>What is running when start-up is through.\<close>

record 'w booted_node =
  bn_addr :: socket_addr
  bn_app :: "'w node_app"
  bn_metadata :: "'w metadata_store"
  bn_sweep :: sweep_status
  bn_sweep_interval :: "u64 option"

definition node_main :: "('w, 'i, 'r, 'c) platform \<Rightarrow> env \<Rightarrow> (boot_error, 'w, 'w booted_node) act" where
  "node_main pf env =
     io_bind (io_lift (parse_addr (env_or env ''VAULT_NODE_ADDR'' ''127.0.0.1:8790''))) (\<lambda>addr.
     (let coordinator = env_or env ''VAULT_COORDINATOR_URL'' ''http://127.0.0.1:8787'';
          anchor_root = env_or env ''VAULT_ANCHOR_ROOT'' ''./.vaultmesh/anchor'';
          peers = comma_list (env_or env ''VAULT_PEERS'' []) in
      io_bind (coordinator_client pf env) (\<lambda>client.
      (let metadata = remote_metadata_store (pf_http pf client coordinator) in
       io_bind (io_lift (build_anchor pf env anchor_root coordinator client)) (\<lambda>anchor.
       io_bind (io_map_err KeyFetchFailed (fetch_verifier (pf_ed pf) (pf_b64 pf) (pf_http pf client coordinator) (pf_sleep pf))) (\<lambda>verifier.
       io_bind (choose_transport pf env anchor) (\<lambda>transport.
       io_return
         \<lparr>bn_addr = addr,
          bn_app = node_app_new metadata anchor (reed_solomon_coder (pf_rs pf)) (pf_crypto pf) verifier (pf_ids pf) (pf_clock pf) transport peers,
          bn_metadata = metadata, bn_sweep = sweep_status_new (repair_interval env), bn_sweep_interval = repair_interval env\<rparr>)))))))"

section \<open>The coordinator (coordinator/src/main.rs and state.rs)\<close>

definition build_presigner :: "'o s3_builder \<Rightarrow> env \<Rightarrow> 'o object_store option" where
  "build_presigner s3 env =
     (case (env ''VAULT_S3_ENDPOINT'', env ''VAULT_S3_BUCKET'', env ''VAULT_S3_ACCESS_KEY'', env ''VAULT_S3_SECRET_KEY'') of
        (Some endpoint, Some bucket, Some access_key, Some secret_key) \<Rightarrow>
          (case rustfs_presigner_new s3 \<lparr>rf_endpoint = endpoint, rf_bucket = bucket,
                  rf_region = env_or env ''VAULT_S3_REGION'' ''us-east-1'', rf_access_key = access_key, rf_secret_key = secret_key,
                  rf_allow_http = allow_http env\<rparr> of
             Inr p \<Rightarrow> Some p | Inl _ \<Rightarrow> None)
      | _ \<Rightarrow> None)"

text \<open>How requests reach the router.\<close>

datatype ingress = PlainHttp socket_addr | Mtls socket_addr server_config

text \<open>
  \<open>files\<close> are \<^verbatim>\<open>create_dir_all\<close> and \<^verbatim>\<open>write\<close> on the disk of the coordinator; the seeds are for the client
  and the server certificate.
\<close>

record 'd host_files =
  hf_create_dir_all :: "string \<Rightarrow> (string, 'd, unit) act"
  hf_write :: "string \<Rightarrow> bytes \<Rightarrow> (string, 'd, unit) act"

definition emit_certs ::
  "'d host_files \<Rightarrow> rcgen_crate \<Rightarrow> bytes \<Rightarrow> cert_authority \<Rightarrow> string \<Rightarrow> (boot_error, 'd, unit) act" where
  "emit_certs files rg seed ca dir =
     io_bind (io_map_err WriteFailed (hf_create_dir_all files dir)) (\<lambda>_.
     io_bind (io_map_err WriteFailed (hf_write files (dir @ ''/ca-root.pem'') (as_bytes (root_pem rg ca)))) (\<lambda>_.
     io_bind (io_lift (map_sum PortFailed id (issue_client rg seed ''bootstrap-app'' ca))) (\<lambda>client.
     io_bind (io_map_err WriteFailed (hf_write files (dir @ ''/client.pem'') (as_bytes (ci_cert_pem client)))) (\<lambda>_.
     io_map_err WriteFailed (hf_write files (dir @ ''/client.key'') (as_bytes (ci_key_pem client)))))))"

definition coordinator_main ::
  "'d host_files \<Rightarrow> tls_crates \<Rightarrow> rcgen_crate \<Rightarrow> bytes \<Rightarrow> bytes \<Rightarrow> cert_authority \<Rightarrow> env \<Rightarrow> (boot_error, 'd, ingress) act" where
  "coordinator_main files tc rg client_seed server_seed ca env =
     io_bind (io_lift (parse_addr (env_or env ''VAULT_COORDINATOR_ADDR'' ''127.0.0.1:8787''))) (\<lambda>addr.
     if env ''VAULT_TLS_MODE'' = Some ''mtls''
     then (let sans = comma_list (env_or env ''VAULT_TLS_SANS'' ''localhost,127.0.0.1''); dir = env_or env ''VAULT_CERT_DIR'' ''./certs'' in
           io_bind (emit_certs files rg client_seed ca dir) (\<lambda>_.
           io_bind (io_lift (map_sum TlsFailed id (mtls_server_config tc rg server_seed ca sans))) (\<lambda>cfg.
           io_return (Mtls addr cfg))))
     else io_return (PlainHttp addr))"

section \<open>A start-up that is through\<close>

lemma node_main_Inr:
  assumes "node_main pf env w = (Inr bn, w')"
  obtains addr client w1 anchor ver w2 tr where
    "parse_socket_addr (env_or env ''VAULT_NODE_ADDR'' ''127.0.0.1:8790'') = Some addr"
    and "coordinator_client pf env w = (Inr client, w1)"
    and "build_anchor pf env (env_or env ''VAULT_ANCHOR_ROOT'' ''./.vaultmesh/anchor'')
      (env_or env ''VAULT_COORDINATOR_URL'' ''http://127.0.0.1:8787'') client = Inr anchor"
    and "fetch_verifier (pf_ed pf) (pf_b64 pf) (pf_http pf client (env_or env ''VAULT_COORDINATOR_URL'' ''http://127.0.0.1:8787''))
      (pf_sleep pf) w1 = (Inr ver, w2)"
    and "choose_transport pf env anchor w2 = (Inr tr, w')"
    and "bn_app bn = node_app_new (bn_metadata bn) anchor (reed_solomon_coder (pf_rs pf)) (pf_crypto pf) ver (pf_ids pf) (pf_clock pf)
      tr (comma_list (env_or env ''VAULT_PEERS'' []))"
  using assms by (auto simp: node_main_def io_inv Let_def parse_addr_def intro: that)

section \<open>Faults of the configuration\<close>

definition s3_variable :: "string \<Rightarrow> bool" where
  "s3_variable name \<longleftrightarrow> take 9 name = ''VAULT_S3_''"

text \<open>
  The presigned anchor holds no credentials.  A node-agent started with the presigned anchor does
  the same whatever the variables \<^verbatim>\<open>VAULT_S3_*\<close> hold: the calls it makes, the errors it reports, and the
  service it ends up running.
\<close>

theorem presigned_holds_no_keys:
  assumes "env ''VAULT_ANCHOR'' = Some ''presigned''" and "\<forall>name. \<not> s3_variable name \<longrightarrow> env' name = env name"
  shows "node_main pf env' = node_main pf env"
proof -
  have same: "env' name = env name" if "take 9 name \<noteq> ''VAULT_S3_''" for name
    using assms(2) that by (simp add: s3_variable_def)
  have fallback: "env_or env' name d = env_or env name d" if "take 9 name \<noteq> ''VAULT_S3_''" for name d
    using same [OF that] by (simp add: env_or_def)
  have "coordinator_client pf env' = coordinator_client pf env" by (simp add: coordinator_client_def same)
  moreover have "choose_transport pf env' = choose_transport pf env" by (simp add: choose_transport_def same fallback fun_eq_iff)
  moreover have "repair_interval env' = repair_interval env" by (simp add: repair_interval_def same)
  moreover have "build_anchor pf env' = build_anchor pf env" using assms(1) by (simp add: build_anchor_def same fun_eq_iff)
  ultimately show ?thesis by (simp add: node_main_def fallback)
qed

text \<open>
  A missing variable stops the node at once.  With the object-store anchor, the first of the four
  required variables that is not set is named in the error, before the coordinator is asked for
  anything: the state is the one after the client's certificates were read.
\<close>

definition s3_required :: "string list" where
  "s3_required = [''VAULT_S3_ENDPOINT'', ''VAULT_S3_BUCKET'', ''VAULT_S3_ACCESS_KEY'', ''VAULT_S3_SECRET_KEY'']"

theorem missing_variable_reported:
  assumes "env ''VAULT_ANCHOR'' \<in> {Some ''rustfs'', Some ''s3''}"
    and "parse_socket_addr (env_or env ''VAULT_NODE_ADDR'' ''127.0.0.1:8790'') = Some addr"
    and "coordinator_client pf env w = (Inr client, w')"
    and "find (\<lambda>name. env name = None) s3_required = Some name"
  shows "node_main pf env w = (Inl (EnvMissing (name @ '' is required for VAULT_ANCHOR=rustfs'')), w')"
proof -
  have "node_s3_config env = Inl (EnvMissing (name @ '' is required for VAULT_ANCHOR=rustfs''))"
    using assms(4) by (auto simp: s3_required_def node_s3_config_def sum_then_def require_def ok_or_def Let_def split: if_splits option.splits)
  then have "build_anchor pf env root url client = Inl (EnvMissing (name @ '' is required for VAULT_ANCHOR=rustfs''))" for root url
    using assms(1) by (auto simp: build_anchor_def sum_then_def)
  then show ?thesis using assms(2,3) by (simp add: node_main_def parse_addr_def io_bind_def io_lift_def Let_def)
qed

text \<open>
  C37. Peers named by host.  The header of \<^verbatim>\<open>main.rs\<close> gives \<^verbatim>\<open>host:port\<close> as the form of a peer of the QUIC mesh.
  A peer that begins with neither a digit nor a bracket is never dialled: a node started with the QUIC
  transport and only such peers runs, and replicates no shard of any put to any of them.
\<close>

lemma send_bad_peers:
  "\<forall>p\<in>set peers. parse_socket_addr p = None \<Longrightarrow> send_to_peers (quic_shard_transport dial) at bs peers w = ([], w)"
  by (induction peers) (simp_all add: quic_shard_transport_def bad_peer)

theorem quic_host_peers_unreachable:
  assumes "env ''VAULT_TRANSPORT'' = Some ''quic''" and "env ''VAULT_PEERS'' = Some peers"
    and "\<forall>p\<in>set (comma_list peers). \<not> is_digit (hd p) \<and> hd p \<noteq> CHR ''[''"
    and "node_main pf env w = (Inr bn, w')"
  shows "put_replicate (na_put (bn_app bn)) at bs v = ([], v)"
proof -
  obtain addr client w1 anchor ver w2 tr where "choose_transport pf env anchor w2 = (Inr tr, w')"
    and app: "bn_app bn = node_app_new (bn_metadata bn) anchor (reed_solomon_coder (pf_rs pf)) (pf_crypto pf) ver (pf_ids pf) (pf_clock pf)
      tr (comma_list (env_or env ''VAULT_PEERS'' []))"
    by (rule node_main_Inr [OF assms(4)])
  then obtain dial where "tr = quic_shard_transport dial"
    using assms(1) by (auto simp: choose_transport_def io_inv quic_transport_new_def map_sum_def split: sum.splits)
  moreover have "\<forall>p\<in>set (comma_list peers). parse_socket_addr p = None" using assms(3) parse_socket_host by blast
  ultimately show ?thesis
    using assms(2) by (simp add: app send_bad_peers env_or_def put_replicate_def node_app_new_def put_with_mesh_def)
qed

section \<open>The gate of the coordinator\<close>


section \<open>What start-up builds\<close>

lemma on_node_rules:
  "on_node (io_bind m f) = io_bind (on_node m) (\<lambda>a. on_node (f a))" "on_node (io_return x) = io_return x"
  "on_node (io_throw e) = io_throw e" "on_node (io_lift r) = io_lift r" "on_node (io_map_err h m) = io_map_err h (on_node m)"
  by (auto simp: fun_eq_iff on_node_def io_bind_def io_return_def io_throw_def io_lift_def io_map_err_def split: prod.splits sum.splits)

lemma on_node_list: "on_node (case xs of [] \<Rightarrow> m | y # ys \<Rightarrow> f y ys) = (case xs of [] \<Rightarrow> on_node m | y # ys \<Rightarrow> on_node (f y ys))"
  by (cases xs) simp_all

lemma own_quic_calls:
  "on_node (quic_send_shard dial p at x) = quic_send_shard (\<lambda>a q. on_node (dial a q)) p at x"
  "on_node (quic_fetch_shard dial p at) = quic_fetch_shard (\<lambda>a q. on_node (dial a q)) p at"
  by (simp_all add: quic_send_shard_def quic_fetch_shard_def round_trip_def on_node_rules on_node_list if_distrib [of on_node]
      cong: if_cong list.case_cong)

lemma own_quic: "own_transport (node_transport roots) = quic_shard_transport (\<lambda>a q. on_node (node_dial roots a q))"
  by (simp add: own_transport_def node_transport_def quic_shard_transport_def own_quic_calls)

text \<open>A machine that reaches the coordinator at every URL, whose disk is below \<open>cwd\<close> and whose peers are those of \<open>Deployment\<close>.\<close>

definition runs_on ::
  "('o coordinator \<times> world, 'i, 'r, 'c) platform \<Rightarrow> 'o coordinator_app \<Rightarrow> (string set \<Rightarrow> string list) \<Rightarrow> path \<Rightarrow> (socket_addr \<Rightarrow> path) \<Rightarrow>
   world cryptographer \<Rightarrow> bool" where
  "runs_on pf app order cwd roots cr \<longleftrightarrow>
     (\<forall>client url. pf_http pf client url = coordinator_net app order) \<and>
     (\<forall>s. pf_disk pf s = own_anchor (node_anchor (path_join cwd s))) \<and>
     pf_quic_client pf = Inr (\<lambda>_ a q. on_node (node_dial roots a q)) \<and> pf_crypto pf = own_crypto cr \<and>
     pf_ids pf = own_ids random_id_source \<and> pf_clock pf = own_clock system_clock \<and> pf_ed pf = cf_ed app \<and> pf_b64 pf = cf_b64 app \<and>
     (\<exists>client. pf_client pf None None = Inr client) \<and> (\<exists>qc. quic_client_config (pf_tls pf) (pf_signatures pf) = Inr qc) \<and>
     (\<forall>anchor addr cw. quic_server_bind (pf_tls pf) (pf_seed pf) (pf_quic_listen pf anchor) addr cw = (Inr (), cw)) \<and>
     (\<forall>cw. \<exists>addr. pf_quic_local_addr pf cw = (Inr addr, cw)) \<and> patient_sleep (pf_sleep pf)"

text \<open>Once the key is there, start-up goes through.\<close>

lemma boot_steps:
  assumes "runs_on pf app order cwd roots cr" and "env ''VAULT_TRANSPORT'' = Some ''quic''"
    and "env ''VAULT_ANCHOR'' \<notin> {Some ''presigned'', Some ''rustfs'', Some ''s3''}"
    and "env ''VAULT_CLIENT_CERT'' = None" and "env ''VAULT_CA_CERT'' = None"
    and "parse_socket_addr (env_or env ''VAULT_NODE_ADDR'' ''127.0.0.1:8790'') = Some addr"
    and "parse_socket_addr (env_or env ''VAULT_QUIC_ADDR'' ''0.0.0.0:8791'') = Some quic_addr"
    and "fetch_verifier (cf_ed app) (cf_b64 app) (coordinator_net app order) (pf_sleep pf) cw = (Inr ver, cw1)"
  shows "node_main pf env cw = (Inr \<lparr>bn_addr = addr,
    bn_app = http_node app order (path_join cwd (env_or env ''VAULT_ANCHOR_ROOT'' ''./.vaultmesh/anchor'')) roots
      (reed_solomon_coder (pf_rs pf)) cr ver (comma_list (env_or env ''VAULT_PEERS'' [])),
    bn_metadata = remote_metadata_store (coordinator_net app order),
    bn_sweep = sweep_status_new (repair_interval env), bn_sweep_interval = repair_interval env\<rparr>, cw1)"
proof -
  note pf = assms(1) [unfolded runs_on_def]
  obtain client where "pf_client pf None None = Inr client" using pf by blast
  then have client: "coordinator_client pf env cw = (Inr client, cw)"
    using assms(4,5) by (simp add: coordinator_client_def io_bind_def io_return_def io_lift_def)
  have anchor: "build_anchor pf env root url client = Inr (own_anchor (node_anchor (path_join cwd root)))" for root url
    using assms(3) pf by (simp add: build_anchor_def)
  have transport: "choose_transport pf env anchor cw1 = (Inr (own_transport (node_transport roots)), cw1)" for anchor
  proof -
    obtain qc bound where "quic_client_config (pf_tls pf) (pf_signatures pf) = Inr qc" "pf_quic_local_addr pf cw1 = (Inr bound, cw1)"
      using pf by blast
    moreover have "quic_server_bind (pf_tls pf) (pf_seed pf) (pf_quic_listen pf anchor) quic_addr cw1 = (Inr (), cw1)"
      "pf_quic_client pf = Inr (\<lambda>_ a q. on_node (node_dial roots a q))" using pf by blast+
    ultimately show ?thesis
      using assms(2,7)
      by (simp add: choose_transport_def quic_server_local_addr_def parse_addr_def io_bind_def io_lift_def io_map_err_def quic_transport_new_def
          client_endpoint_def own_quic)
  qed
  show ?thesis
    using pf client anchor transport assms(6,8)
    by (simp add: node_main_def parse_addr_def io_bind_def io_lift_def io_map_err_def io_return_def Let_def http_node_def)
qed

text \<open>
  C29. What start-up builds.  A node-agent configured for the local disk and the QUIC mesh, without
  client certificates, comes up as soon as one of its ten requests for the key gets through, and what
  then runs is exactly the service the guarantees are about: metadata at the coordinator, shards below
  the configured root, the configured peers, and tokens verified with the key the coordinator signs
  with.
\<close>

theorem node_boots:
  assumes "runs_on pf app order cwd roots cr" and "env ''VAULT_TRANSPORT'' = Some ''quic''"
    and "env ''VAULT_ANCHOR'' \<notin> {Some ''presigned'', Some ''rustfs'', Some ''s3''}"
    and "env ''VAULT_CLIENT_CERT'' = None" and "env ''VAULT_CA_CERT'' = None"
    and "parse_socket_addr (env_or env ''VAULT_NODE_ADDR'' ''127.0.0.1:8790'') = Some addr"
    and "parse_socket_addr (env_or env ''VAULT_QUIC_ADDR'' ''0.0.0.0:8791'') = Some quic_addr"
    and "\<not> is_blocked (pm_responder c) ''anonymous''" and "b64_correct (cf_b64 app)"
    and "key_readable (cf_ed app) (ed_verifying_key (cf_ed app) (cf_signing_key app))"
    and "i < 10" and "w_calls w (w_called w + i) = Delivered"
  shows "\<exists>bn cw'. node_main pf env (c, w) = (Inr bn, cw') \<and> bn_addr bn = addr \<and>
    bn_app bn = http_node app order (path_join cwd (env_or env ''VAULT_ANCHOR_ROOT'' ''./.vaultmesh/anchor'')) roots
      (reed_solomon_coder (pf_rs pf)) cr (ed25519_verifier (cf_ed app) (ed_verifying_key (cf_ed app) (cf_signing_key app)))
      (comma_list (env_or env ''VAULT_PEERS'' [])) \<and>
    bn_metadata bn = remote_metadata_store (coordinator_net app order)"
proof -
  have sleep: "patient_sleep (pf_sleep pf)" using assms(1) by (simp add: runs_on_def)
  obtain cw1 where "fetch_verifier (cf_ed app) (cf_b64 app) (coordinator_net app order) (pf_sleep pf) (c, w) =
      (Inr (ed25519_verifier (cf_ed app) (ed_verifying_key (cf_ed app) (cf_signing_key app))), cw1)"
    by (rule fetch_verifier_gets_key [OF sleep assms(8-12)])
  from boot_steps [OF assms(1-7) this] show ?thesis by simp
qed

section \<open>A small machine\<close>

definition demo_tls :: tls_crates where
  "demo_tls = \<lparr>tc_add_root = (\<lambda>rs d. Inr (rs @ [d])), tc_client_verifier = Inr, tc_safe_versions = Inr (), tc_single_cert = (\<lambda>_ _. Inr ()),
     tc_quic_server = Inr, tc_quic_client = Inr, tc_idle_timeout = Inr, tc_self_signed = (\<lambda>_ seed. Inr (seed, seed))\<rparr>"

definition demo_signatures :: signature_check where
  "demo_signatures = \<lparr>sg_tls12 = (\<lambda>_ _ _. Inr ()), sg_tls13 = (\<lambda>_ _ _. Inr ()), sg_schemes = []\<rparr>"

definition demo_key_app :: "unit coordinator_app" where
  "demo_key_app = demo_coordinator_app\<lparr>cf_ed := demo_ed, cf_signing_key := replicate 32 1\<rparr>"

definition demo_platform :: "(unit coordinator \<times> world, bytes, bytes, unit) platform" where
  "demo_platform = \<lparr>pf_read = (\<lambda>_. io_throw ''No such file or directory''), pf_identity = Inr, pf_certificate = Inr,
     pf_client = (\<lambda>_ _. Inr ()), pf_http = (\<lambda>_ _. coordinator_net demo_key_app (\<lambda>_. [])),
     pf_store_http = (\<lambda>_ _ _. io_throw ''unreachable''), pf_disk = (\<lambda>s. own_anchor (node_anchor (path_join [] s))),
     pf_s3 = (\<lambda>_ _. Inl (OsOther ''unreachable'')), pf_peer_net = (\<lambda>_ _. io_throw ''unreachable''), pf_tls = demo_tls,
     pf_signatures = demo_signatures, pf_quic_client = Inr (\<lambda>_ a q. on_node (node_dial (\<lambda>_. []) a q)),
     pf_quic_listen = (\<lambda>_ _ _. io_return ()), pf_quic_local_addr = io_return (SocketV4 (0, 0, 0, 0) 8791), pf_seed = [], pf_sleep = (\<lambda>_ cw. cw), pf_ed = demo_ed,
     pf_b64 = cf_b64 demo_coordinator_app, pf_rs = xor_crate, pf_crypto = own_crypto demo_crypto, pf_ids = own_ids random_id_source,
     pf_clock = own_clock system_clock\<rparr>"

lemma demo_runs_on: "runs_on demo_platform demo_key_app (\<lambda>_. []) [] (\<lambda>_. []) demo_crypto"
  by (simp add: runs_on_def demo_platform_def demo_key_app_def patient_sleep_def quic_client_config_def quic_server_bind_def
      quic_server_config_def demo_tls_def sum_then_def io_map_err_def io_return_def)

lemma default_addresses:
  "parse_socket_addr ''127.0.0.1:8790'' = Some (SocketV4 (127, 0, 0, 1) 8790)"
  "parse_socket_addr ''0.0.0.0:8791'' = Some (SocketV4 (0, 0, 0, 0) 8791)"
proof -
  have "show_ipv4 (127, 0, 0, 1) @ CHR '':'' # show_nat (unat (8790 :: u16)) = ''127.0.0.1:8790''"
    "show_ipv4 (0, 0, 0, 0) @ CHR '':'' # show_nat (unat (8791 :: u16)) = ''0.0.0.0:8791''"
    by (simp_all add: show_ipv4_def show_nat.simps)
  then show "parse_socket_addr ''127.0.0.1:8790'' = Some (SocketV4 (127, 0, 0, 1) 8790)"
    "parse_socket_addr ''0.0.0.0:8791'' = Some (SocketV4 (0, 0, 0, 0) 8791)"
    using parse_socket_show [of "(127, 0, 0, 1)" 8790] parse_socket_show [of "(0, 0, 0, 0)" 8791] by (simp_all only:)
qed

lemma demo_key_ready:
  "\<not> is_blocked (pm_responder demo_coordinator) ''anonymous''" "b64_correct (cf_b64 demo_key_app)"
  "key_readable (cf_ed demo_key_app) (ed_verifying_key (cf_ed demo_key_app) (cf_signing_key demo_key_app))"
  "w_calls (demo_world 5 []) (w_called (demo_world 5 []) + 0) = Delivered"
proof -
  show "\<not> is_blocked (pm_responder demo_coordinator) ''anonymous''" by code_simp
qed (simp_all add: b64_correct_def demo_key_app_def demo_coordinator_app_def key_readable_def demo_ed_def demo_world_def)

theorem node_boots_witness:
  "\<exists>bn cw'. node_main demo_platform [''VAULT_TRANSPORT'' \<mapsto> ''quic''] (demo_coordinator, demo_world 5 []) = (Inr bn, cw') \<and>
     bn_addr bn = SocketV4 (127, 0, 0, 1) 8790"
  using node_boots [OF demo_runs_on, of "[''VAULT_TRANSPORT'' \<mapsto> ''quic'']" "SocketV4 (127, 0, 0, 1) 8790" "SocketV4 (0, 0, 0, 0) 8791"
      demo_coordinator 0 "demo_world 5 []"] demo_key_ready
  by (auto simp: env_or_def default_addresses)

theorem missing_variable_reported_witness:
  "node_main demo_platform [''VAULT_ANCHOR'' \<mapsto> ''s3'', ''VAULT_S3_ENDPOINT'' \<mapsto> ''http://s3''] (demo_coordinator, demo_world 5 []) =
     (Inl (EnvMissing ''VAULT_S3_BUCKET is required for VAULT_ANCHOR=rustfs''), (demo_coordinator, demo_world 5 []))"
proof -
  let ?env = "[''VAULT_ANCHOR'' \<mapsto> ''s3'', ''VAULT_S3_ENDPOINT'' \<mapsto> ''http://s3'']" and ?cw = "(demo_coordinator, demo_world 5 [])"
  have client: "coordinator_client demo_platform ?env ?cw = (Inr (), ?cw)"
    by (simp add: coordinator_client_def demo_platform_def io_bind_def io_return_def io_lift_def)
  have "node_main demo_platform ?env ?cw = (Inl (EnvMissing (''VAULT_S3_BUCKET'' @ '' is required for VAULT_ANCHOR=rustfs'')), ?cw)"
    by (rule missing_variable_reported [OF _ _ client]) (simp_all add: env_or_def default_addresses s3_required_def)
  then show ?thesis by simp
qed

theorem quic_host_peers_unreachable_witness:
  "\<exists>bn cw'. node_main demo_platform [''VAULT_TRANSPORT'' \<mapsto> ''quic'', ''VAULT_PEERS'' \<mapsto> ''node-b:8791''] (demo_coordinator, demo_world 5 []) =
       (Inr bn, cw') \<and>
     put_replicate (na_put (bn_app bn)) \<lparr>sr_namespace = demo_ns, sr_blob_id = BlobId ''b'', sr_index = 0\<rparr> [1] cw' = ([], cw')"
proof -
  let ?env = "[''VAULT_TRANSPORT'' \<mapsto> ''quic'', ''VAULT_PEERS'' \<mapsto> ''node-b:8791'']" and ?cw = "(demo_coordinator, demo_world 5 [])"
  have "patient_sleep (pf_sleep demo_platform)" by (simp add: demo_platform_def patient_sleep_def)
  then obtain cw1 where key: "fetch_verifier (cf_ed demo_key_app) (cf_b64 demo_key_app) (coordinator_net demo_key_app (\<lambda>_. [])) (pf_sleep demo_platform) ?cw =
      (Inr (ed25519_verifier (cf_ed demo_key_app) (ed_verifying_key (cf_ed demo_key_app) (cf_signing_key demo_key_app))), cw1)"
    by (rule fetch_verifier_gets_key [OF _ demo_key_ready(1-3) _ demo_key_ready(4)]) simp
  obtain bn where boot: "node_main demo_platform ?env ?cw = (Inr bn, cw1)"
    using boot_steps [OF demo_runs_on _ _ _ _ _ _ key, of ?env] by (auto simp: env_or_def default_addresses)
  have peers: "comma_list ''node-b:8791'' = [''node-b:8791'']"
    using trim_visible [of "''node-b:8791''"] by (simp add: comma_list_def split_on_none visible_def)
  have "put_replicate (na_put (bn_app bn)) at x cw1 = ([], cw1)" for at x
    by (rule quic_host_peers_unreachable [where peers = "''node-b:8791''", OF _ _ _ boot]) (simp_all add: peers is_digit_def)
  then show ?thesis using boot by blast
qed


theorem presigned_holds_no_keys_witness:
  "node_main demo_platform [''VAULT_ANCHOR'' \<mapsto> ''presigned'', ''VAULT_S3_SECRET_KEY'' \<mapsto> ''hunter2''] =
   node_main demo_platform [''VAULT_ANCHOR'' \<mapsto> ''presigned'']"
  by (rule presigned_holds_no_keys) (auto simp: s3_variable_def)

end
