(* ===== verification/Rs_Field.thy ===== *)
theory Rs_Field
  imports Erasure_Coders
begin

text \<open>
  A Reed-Solomon code with two parity shards over four data shards, the parameters the program
  recommends, over the field with 256 elements.  It shows that the promise of the crate,
  \<open>rs_contract\<close>, can be kept there.  The parities of the bytes \<open>a, b, c, d\<close> of a column are
  \<open>a + b + c + d\<close> and \<open>a + 2 b + 4 c + 8 d\<close>; decoding looks for the data that fits the shards left.
\<close>

section \<open>Doubling in the field\<close>

definition xtime :: "u8 \<Rightarrow> u8" where
  "xtime x = xor (push_bit 1 x) (if bit x 7 then 29 else 0)"

lemma xtime_xor: "xtime (xor x y) = xor (xtime x) (xtime y)"
  by (simp add: xtime_def bit_xor_iff push_bit_xor xor.assoc xor.left_commute)

lemma xtime_0 [simp]: "xtime 0 = 0"
  by (simp add: xtime_def)

lemma u8_eq:
  "(x :: u8) = y \<longleftrightarrow> bit x 0 = bit y 0 \<and> bit x 1 = bit y 1 \<and> bit x 2 = bit y 2 \<and> bit x 3 = bit y 3 \<and>
     bit x 4 = bit y 4 \<and> bit x 5 = bit y 5 \<and> bit x 6 = bit y 6 \<and> bit x 7 = bit y 7"
proof -
  have "(x = y) = (\<forall>n\<in>{0, 1, 2, 3, 4, 5, 6, 7}. bit x n = bit y n)"
  proof
    assume eq: "\<forall>n\<in>{0, 1, 2, 3, 4, 5, 6, 7}. bit x n = bit y n"
    show "x = y"
    proof (rule bit_word_eqI)
      fix n :: nat
      assume "n < LENGTH(8)"
      then have "n \<in> {0, 1, 2, 3, 4, 5, 6, 7}" by auto
      with eq show "bit x n = bit y n" by blast
    qed
  qed simp
  then show ?thesis by simp
qed

lemma xtime_bits:
  "bit (xtime x) 0 = bit x 7" "bit (xtime x) 1 = bit x 0" "bit (xtime x) 2 = (bit x 1 \<noteq> bit x 7)"
  "bit (xtime x) 3 = (bit x 2 \<noteq> bit x 7)" "bit (xtime x) 4 = (bit x 3 \<noteq> bit x 7)" "bit (xtime x) 5 = bit x 4"
  "bit (xtime x) 6 = bit x 5" "bit (xtime x) 7 = bit x 6"
  unfolding xtime_def bit_xor_iff bit_push_bit_iff by (simp_all add: bit_numeral_rec)

lemma xtime_fixes:
  "xtime x = 0 \<longleftrightarrow> x = 0" "xtime x = x \<longleftrightarrow> x = 0" "xtime (xtime x) = x \<longleftrightarrow> x = 0" "xtime (xtime (xtime x)) = x \<longleftrightarrow> x = 0"
  unfolding u8_eq xtime_bits by auto

lemma xor_zero_iff: "xor x y = 0 \<longleftrightarrow> x = (y :: u8)"
  by (auto simp: bit_eq_iff bit_xor_iff)

lemma xtime_eq_iff: "xtime x = xtime y \<longleftrightarrow> x = y"
  using xtime_fixes(1) [of "xor x y"] by (simp add: xtime_xor xor_zero_iff)

section \<open>Two errors at most\<close>

text \<open>A column none of whose bytes but two differ from zero is zero: the code has distance three.\<close>

definition parities :: "u8 \<Rightarrow> u8 \<Rightarrow> u8 \<Rightarrow> u8 \<Rightarrow> u8 \<times> u8" where
  "parities a b c d = (xor a (xor b (xor c d)), xor a (xtime (xor b (xtime (xor c (xtime d))))))"

lemma parities_xor:
  "parities (xor a a') (xor b b') (xor c c') (xor d d') =
     (case parities a b c d of (p, q) \<Rightarrow> case parities a' b' c' d' of (p', q') \<Rightarrow> (xor p p', xor q q'))"
  by (simp add: parities_def xtime_xor xor.assoc xor.left_commute)

lemma column_zero:
  assumes "parities a b c d = (p, q)"
    and "4 \<le> length (filter (\<lambda>x. x = 0) [a, b, c, d, p, q])"
  shows "a = 0 \<and> b = 0 \<and> c = 0 \<and> d = 0"
proof -
  have p: "p = xor a (xor b (xor c d))" and q: "q = xor a (xtime (xor b (xtime (xor c (xtime d)))))"
    using assms(1) by (simp_all add: parities_def)
  show ?thesis
    using assms(2) unfolding p q
    by (cases "a = 0"; cases "b = 0"; cases "c = 0"; cases "d = 0")
      (auto simp: xtime_fixes xtime_eq_iff xtime_xor xor_zero_iff dest: xtime_fixes(2-) [THEN iffD1, OF sym] split: if_splits)
qed

section \<open>The crate\<close>

definition field_code :: "bytes list \<Rightarrow> bytes list" where
  "field_code ds = (let col = \<lambda>i. parities (ds ! 0 ! i) (ds ! 1 ! i) (ds ! 2 ! i) (ds ! 3 ! i) in
     take 4 ds @ [map (\<lambda>i. fst (col i)) [0..<length (ds ! 0)], map (\<lambda>i. snd (col i)) [0..<length (ds ! 0)]])"

definition all_u8 :: "u8 list" where
  "all_u8 = map word_of_nat [0..<256]"

definition field_fill :: "bytes option list \<Rightarrow> string + bytes option list" where
  "field_fill slots = (case find_present slots of
       None \<Rightarrow> Inl ''too few shards''
     | Some s \<Rightarrow> (case find (\<lambda>ds. slots_of (field_code ds) slots) (List.n_lists 4 (List.n_lists (length s) all_u8)) of
         None \<Rightarrow> Inl ''too few shards''
       | Some ds \<Rightarrow> Inr (map Some (field_code ds))))"

definition field_crate :: rs_crate where
  "field_crate = \<lparr>rs_new = (\<lambda>k m. if k = 4 \<and> m = 2 then Inr () else Inl ''unsupported''),
     rs_encode = (\<lambda>k m shards. Inr (field_code shards)), rs_reconstruct = (\<lambda>k m slots. field_fill slots)\<rparr>"

lemma all_u8: "set all_u8 = UNIV"
proof -
  have "x \<in> word_of_nat ` {0..<256}" for x :: u8
  proof
    show "x = word_of_nat (unat x)" by simp
    show "unat x \<in> {0..<256}" using unsigned_less [where w = x] by simp
  qed
  then show ?thesis by (auto simp: all_u8_def)
qed

lemma common_slots:
  "slots_of xs slots \<Longrightarrow> slots_of ys slots \<Longrightarrow> survivors slots \<le> length (filter (\<lambda>(x, y). x = y) (zip xs ys))"
proof (induction slots arbitrary: xs ys)
  case (Cons s slots)
  then obtain x xs' y ys' where "xs = x # xs'" "ys = y # ys'" by (auto simp: slots_of_def list_all2_Cons2)
  with Cons show ?case by (cases s) (auto simp: slots_of_def le_SucI)
qed (simp add: slots_of_def)

lemma filter_map_mono:
  "(\<And>z. z \<in> set zs \<Longrightarrow> P z \<Longrightarrow> Q (f z)) \<Longrightarrow> length (filter P zs) \<le> length (filter Q (map f zs))"
  by (induction zs) (auto simp: le_SucI)

lemma field_code_eq:
  "field_code (a # b # c # d # r) = [a, b, c, d,
     map (\<lambda>i. fst (parities (a ! i) (b ! i) (c ! i) (d ! i))) [0..<length a],
     map (\<lambda>i. snd (parities (a ! i) (b ! i) (c ! i) (d ! i))) [0..<length a]]"
  by (simp add: field_code_def numeral_eq_Suc Let_def)

lemma field_code_unique:
  assumes "\<forall>x\<in>set [a, b, c, d, a', b', c', d']. length x = sz"
    and "4 \<le> length (filter (\<lambda>(x, y). x = y) (zip (field_code [a, b, c, d]) (field_code [a', b', c', d'])))"
  shows "[a, b, c, d] = [a', b', c', d']"
proof -
  have same: "a ! t = a' ! t \<and> b ! t = b' ! t \<and> c ! t = c' ! t \<and> d ! t = d' ! t" if "t < sz" for t
  proof -
    let ?zs = "zip (field_code [a, b, c, d]) (field_code [a', b', c', d'])"
    obtain p q p' q' where pq: "parities (a ! t) (b ! t) (c ! t) (d ! t) = (p, q)"
      "parities (a' ! t) (b' ! t) (c' ! t) (d' ! t) = (p', q')" by force
    have "length (filter (\<lambda>(x, y). x = y) ?zs) \<le> length (filter (\<lambda>x. x = 0) (map (\<lambda>(x, y). xor (x ! t) (y ! t)) ?zs))"
      by (rule filter_map_mono) auto
    also have "map (\<lambda>(x, y). xor (x ! t) (y ! t)) ?zs =
        [xor (a ! t) (a' ! t), xor (b ! t) (b' ! t), xor (c ! t) (c' ! t), xor (d ! t) (d' ! t), xor p p', xor q q']"
      using assms(1) that pq by (simp add: field_code_eq)
    finally have "xor (a ! t) (a' ! t) = 0 \<and> xor (b ! t) (b' ! t) = 0 \<and> xor (c ! t) (c' ! t) = 0 \<and> xor (d ! t) (d' ! t) = 0"
      using assms(2) by (intro column_zero [of _ _ _ _ "xor p p'" "xor q q'"]) (simp_all add: parities_xor pq)
    then show ?thesis by (simp add: xor_zero_iff)
  qed
  then show ?thesis using assms(1) by (auto intro: nth_equalityI)
qed

lemma field_fill_any_four:
  assumes "\<forall>x\<in>set [a, b, c, d]. length x = sz" and "slots_of (field_code [a, b, c, d]) slots" and "4 \<le> survivors slots"
  shows "field_fill slots = Inr (map Some (field_code [a, b, c, d]))"
proof -
  obtain s where s: "find_present slots = Some s" using assms(3) find_present_None [of slots] by fastforce
  have "Some s \<in> set slots" using find_present_Some [OF s] by simp
  then have "s \<in> set (field_code [a, b, c, d])" using slots_of_mem [OF assms(2)] by blast
  then have len: "length s = sz" using assms(1) by (auto simp: field_code_eq)
  let ?cs = "List.n_lists 4 (List.n_lists sz all_u8)" and ?fits = "\<lambda>ds. slots_of (field_code ds) slots"
  have cand: "ds \<in> set ?cs \<longleftrightarrow> length ds = 4 \<and> (\<forall>x\<in>set ds. length x = sz)" for ds
    by (auto simp: set_n_lists all_u8)
  then have "[a, b, c, d] \<in> set ?cs" using assms(1) by simp
  then have "find ?fits ?cs \<noteq> None" using assms(2) by (auto simp: find_None_iff)
  then obtain ds where ds: "find ?fits ?cs = Some ds" by blast
  then have fits: "?fits ds" "length ds = 4" "\<forall>x\<in>set ds. length x = sz" using cand [of ds] nth_mem by (metis find_Some_iff)+
  then obtain a' b' c' d' where e: "ds = [a', b', c', d']" by (auto simp: length_Suc_conv eval_nat_numeral)
  have "[a, b, c, d] = ds" unfolding e
    by (rule field_code_unique [where sz = sz])
      (use assms fits common_slots [OF assms(2), of "field_code ds"] e in auto)
  with ds s len show ?thesis by (simp add: field_fill_def)
qed

lemma field_crate_contract: "rs_contract field_crate 4 2"
proof -
  have coding: "\<exists>coded. rs_encode field_crate 4 2 shards = Inr coded \<and> length coded = 4 + 2 \<and>
      take 4 coded = take 4 shards \<and> (\<forall>s\<in>set coded. length s = sz) \<and>
      (\<forall>slots. slots_of coded slots \<and> 4 \<le> survivors slots \<longrightarrow>
         rs_reconstruct field_crate 4 2 slots = Inr (map Some coded))"
    if len: "length shards = 4 + 2" and sz: "\<forall>s\<in>set shards. length s = sz" for shards sz
  proof -
    obtain a b c d r where sh: "shards = a # b # c # d # r"
      using len by (cases shards; cases "tl shards"; cases "tl (tl shards)"; cases "tl (tl (tl shards))") auto
    then have code: "field_code shards = field_code [a, b, c, d]" and "\<forall>x\<in>set [a, b, c, d]. length x = sz"
      using sz by (simp_all add: field_code_eq)
    then have "field_fill slots = Inr (map Some (field_code shards))"
      if "slots_of (field_code shards) slots" "4 \<le> survivors slots" for slots
      using that field_fill_any_four [of a b c d sz slots] by simp
    moreover have "length (field_code shards) = 6" "take 4 (field_code shards) = take 4 shards" "\<forall>s\<in>set (field_code shards). length s = sz"
      using sz by (auto simp: sh field_code_eq)
    ultimately show ?thesis by (simp add: field_crate_def)
  qed
  have "rs_new field_crate 4 2 = Inr ()" by (simp add: field_crate_def)
  with coding show ?thesis unfolding rs_contract_def by blast
qed

lemma field_crate_supported: "rs_supported field_crate recommended_params"
  using field_crate_contract by (simp add: rs_supported_def valid_erasure_def recommended_params_def)

end
