(* ===== verification/Roundtrip.thy ===== *)
theory Roundtrip
  imports Startup Rs_Field
begin

text \<open>
  The example program of the client library, \<^verbatim>\<open>crates/vault-client/examples/roundtrip.rs\<close>: register,
  allocate a namespace, encrypt, back up, restore, decrypt, compare.  It runs against the coordinator and
  a node-agent that share the coordinator's metadata; the property composes every layer of the system.
\<close>

section \<open>The program (examples/roundtrip.rs)\<close>

text \<open>The final \<^verbatim>\<open>assert_eq!\<close> panics when the bytes differ; every other failure is an error of the client.\<close>

datatype example_error = ExampleFailed client_error | NotIdentical

definition example_secret :: bytes where
  "example_secret = as_bytes ''an-app-held-secret-derived-per-owner''"

definition example_payload :: bytes where
  "example_payload = as_bytes ''arbitrary bytes: this could be any app's .lfbak container''"

definition example_quota :: quota where
  "example_quota = \<lparr>q_max_bytes = push_bit 30 1, q_max_objects = 10000\<rparr>"

text \<open>\<open>http\<close> gives the connection to a base URL; the other parameters are those of the client library.\<close>

definition roundtrip_main ::
  "env \<Rightarrow> (string \<Rightarrow> 's net) \<Rightarrow> b64_engine \<Rightarrow> (body \<Rightarrow> string) \<Rightarrow> (port_error \<Rightarrow> string) \<Rightarrow> 's cryptographer \<Rightarrow>
   (example_error, 's, unit) act" where
  "roundtrip_main env http b64 text show_err cr =
     (let control = http (env_or env ''VAULT_COORDINATOR_URL'' ''http://127.0.0.1:8787'');
          data = http (env_or env ''VAULT_SIDECAR_URL'' ''http://127.0.0.1:8790'') in
      io_bind (io_map_err ExampleFailed (client_register_app control text ''demo-app'' example_quota
        \<lparr>rp_keep_versions = 3, rp_min_days = 30\<rparr> recommended_params)) (\<lambda>app.
      io_bind (io_map_err ExampleFailed (client_create_namespace control text (rap_app_id app))) (\<lambda>resp.
      (let ns = cnp_namespace_id resp; cipher = cipher_for_namespace cr example_secret (ns_str ns) in
       io_bind (io_map_err ExampleFailed (cipher_encrypt show_err cipher example_payload)) (\<lambda>ciphertext.
       io_bind (io_map_err ExampleFailed (client_issue_capability control text (rap_app_id app) ns OpPut 300)) (\<lambda>put_tok.
       io_bind (io_map_err ExampleFailed (client_put b64 data text ns put_tok ciphertext)) (\<lambda>blob_id.
       io_bind (io_map_err ExampleFailed (client_issue_capability control text (rap_app_id app) ns OpGet 300)) (\<lambda>get_tok.
       io_bind (io_map_err ExampleFailed (client_get b64 data text ns get_tok blob_id)) (\<lambda>restored_ct.
       io_bind (io_lift (map_sum ExampleFailed id (cipher_decrypt show_err cipher restored_ct))) (\<lambda>restored.
       if restored = example_payload then io_return () else io_throw NotIdentical))))))))))"

section \<open>The two services it talks to\<close>

text \<open>
  The state of a run: the application's random generator beside the node-agent, whose world holds the
  coordinator.
\<close>

definition to_coordinator ::
  "'o coordinator_app \<Rightarrow> (string set \<Rightarrow> string list) \<Rightarrow> ('v \<times> ('o coordinator \<times> world) node) net" where
  "to_coordinator app order q s = (case s of (v, nd) \<Rightarrow>
     map_prod id (\<lambda>c. (v, nd\<lparr>nd_world := (c, snd (nd_world nd))\<rparr>)) (direct_net app order q (fst (nd_world nd))))"

definition to_node :: "b64_engine \<Rightarrow> 'w node_app \<Rightarrow> ('v \<times> 'w node) net" where
  "to_node b64 node q s = (case s of (v, nd) \<Rightarrow> map_prod id (Pair v) (node_net b64 node q nd))"

definition own_rng :: "('v \<Rightarrow> bytes \<times> 'v) \<Rightarrow> 'v \<times> 'n \<Rightarrow> bytes \<times> ('v \<times> 'n)" where
  "own_rng rng s = (case s of (v, n) \<Rightarrow> map_prod id (\<lambda>v'. (v', n)) (rng v))"

text \<open>A call of the client over a part of the state is a call over the whole.\<close>

lemma bind_through:
  assumes "m' s = map_prod id f (m t)" and "\<And>x t'. k' x (f t') = map_prod id f (k x t')"
  shows "io_bind m' k' s = map_prod id f (io_bind m k t)"
  using assms by (auto simp: io_bind_def split: prod.splits sum.splits)

lemma post_through:
  assumes "\<And>q. net' q s = map_prod id f (net q t)"
  shows "post_json net' text path j dec s = map_prod id f (post_json net text path j dec t)"
  unfolding post_json_def
  by (rule bind_through) (simp_all add: assms io_map_err_def io_throw_def io_lift_def split: prod.splits)

lemma client_through:
  assumes "\<And>q. net' q s = map_prod id f (net q t)"
  shows "client_register_app net' text label qu ret er s = map_prod id f (client_register_app net text label qu ret er t)"
    and "client_create_namespace net' text a s = map_prod id f (client_create_namespace net text a t)"
    and "client_issue_capability net' text a ns oper ttl s = map_prod id f (client_issue_capability net text a ns oper ttl t)"
    and "client_put b64 net' text ns tok d s = map_prod id f (client_put b64 net text ns tok d t)"
    and "client_get b64 net' text ns tok b s = map_prod id f (client_get b64 net text ns tok b t)"
  unfolding client_register_app_def client_create_namespace_def client_issue_capability_def client_put_def client_get_def
  by (auto intro!: post_through bind_through assms simp: io_return_def io_lift_def)

lemma control_through:
  fixes nd :: "('o coordinator \<times> world) node"
  defines "f \<equiv> \<lambda>v w c. (v, nd\<lparr>nd_world := (c, w)\<rparr>)"
  shows "client_register_app (to_coordinator app order) text label qu ret er (v, nd\<lparr>nd_world := (c, w)\<rparr>) =
      map_prod id (f v w) (client_register_app (direct_net app order) text label qu ret er c)"
    and "client_create_namespace (to_coordinator app order) text a (v, nd\<lparr>nd_world := (c, w)\<rparr>) =
      map_prod id (f v w) (client_create_namespace (direct_net app order) text a c)"
    and "client_issue_capability (to_coordinator app order) text a ns oper ttl (v, nd\<lparr>nd_world := (c, w)\<rparr>) =
      map_prod id (f v w) (client_issue_capability (direct_net app order) text a ns oper ttl c)"
  by (rule client_through; simp add: to_coordinator_def f_def)+

lemma data_through:
  "client_put b64 (to_node b64' node) text ns tok d (v, nd) = map_prod id (Pair v) (client_put b64 (node_net b64' node) text ns tok d nd)"
  "client_get b64 (to_node b64' node) text ns tok b (v, nd) = map_prod id (Pair v) (client_get b64 (node_net b64' node) text ns tok b nd)"
  by (rule client_through; simp add: to_node_def)+

section \<open>Running it\<close>

text \<open>What the cipher crate promises of sealing: it does not fail on messages it allows, and adds a tag of 16 bytes.\<close>

definition gcm_seals :: "content_crates \<Rightarrow> bool" where
  "gcm_seals cc \<longleftrightarrow> (\<forall>key nonce pt. length nonce = NONCE_LEN \<and> length pt < 2 ^ 36 \<longrightarrow>
     (\<exists>ct. gcm_seal cc key nonce pt = Inr ct \<and> length ct \<le> length pt + 16))"

lemma example_payload_length: "length example_payload = 57"
  by (simp add: example_payload_def)

text \<open>Registering and allocating, at a coordinator that a node relies on.\<close>

lemma example_onboards:
  assumes "http_ok (c, w)"
    and "\<forall>i b. mv_manifests (mem_view (co_meta c)) (NamespaceId (''ns-'' @ uuid_simple (co_random c i)), b) = None"
  obtains r c1 ns c2 where "client_register_app (direct_net app order) text label q ret er c = (Inr r, c1)"
    and "client_create_namespace (direct_net app order) text (rap_app_id r) c1 = (Inr \<lparr>cnp_namespace_id = ns\<rparr>, c2)"
    and "mv_contracts (mem_view (co_meta c2)) (rap_app_id r) = Some (app_contract_new (rap_app_id r) q ret er)"
    and "mv_namespaces (mem_view (co_meta c2)) ns = Some \<lparr>nsp_id = ns, nsp_app_id = rap_app_id r\<rparr>"
    and "blobs_of (mem_view (co_meta c2)) ns = {}" and "url_ns ns" and "http_ok (c2, w)" and "co_clock c2 = co_clock c"
proof -
  have u: "\<not> is_blocked (pm_responder c) ''anonymous''" using assms(1) by (simp add: http_at_def)
  obtain a r c1 where r: "client_register_app (direct_net app order) text label q ret er c = (Inr r, c1)" "rap_app_id r = a"
      "a = AppId (''app-'' @ uuid_simple (co_random c (co_draws c)))" "rap_contract r = app_contract_new a q ret er"
      "mem_view (co_meta c1) = add_contract (app_contract_new a q ret er) (mem_view (co_meta c))" "perim c1 = perim c"
      "co_random c1 = co_random c"
    using u by (rule client_registers)
  have "\<not> is_blocked (pm_responder c1) ''anonymous''" "mv_contracts (mem_view (co_meta c1)) a \<noteq> None"
    using u r by (simp_all add: add_contract_def app_contract_new_def)
  then obtain ns c2 where n: "client_create_namespace (direct_net app order) text a c1 = (Inr \<lparr>cnp_namespace_id = ns\<rparr>, c2)"
      "mem_view (co_meta c2) = add_namespace \<lparr>nsp_id = ns, nsp_app_id = a\<rparr> (mem_view (co_meta c1))"
      "ns = NamespaceId (''ns-'' @ uuid_simple (co_random c1 (co_draws c1)))" "perim c2 = perim c1"
    by (rule client_allocates)
  note view = n(2) [unfolded r(5)]
  have ids: "url_ns ns" "url_app a" using fresh_id_url n(3) r(3) by simp_all
  have "url_view (mem_view (co_meta c2))"
    using assms(1) ids unfolding view by (auto simp: http_at_def url_view_def add_namespace_def add_contract_def)
  then have ok: "http_ok (c2, w)" using u r(6) n(4) by (simp add: http_at_def)
  have none: "blobs_of (mem_view (co_meta c2)) ns = {}"
    using assms(2) r(7) n(3) unfolding view by (auto simp: blobs_of_def add_namespace_def add_contract_def)
  show thesis
    by (rule that [OF r(1) n(1) [folded r(2)] _ _ none ids(1) ok])
      (use r n(4) in \<open>simp_all add: view add_namespace_def add_contract_def app_contract_new_def\<close>)
qed

text \<open>A capability of five minutes, accepted by every node whose clock is less than that ahead.\<close>

lemma example_issues:
  assumes "http_ok (c, w)" and "ed_correct (cf_ed app) (cf_signing_key app)"
    and "mv_namespaces (mem_view (co_meta c)) ns = Some \<lparr>nsp_id = ns, nsp_app_id = a\<rparr>"
    and "\<forall>i j. Timestamp (clock i) < plus_secs (Timestamp (co_clock c j)) 300"
  obtains tok c' where "client_issue_capability (direct_net app order) text a ns oper 300 c = (Inr tok, c')"
    and "av_verify_signature (ed25519_verifier (cf_ed app) (ed_verifying_key (cf_ed app) (cf_signing_key app))) tok = Inr ()"
    and "cc_app_id (ct_claims tok) = a" and "cc_namespace (ct_claims tok) = ns" and "cc_operation (ct_claims tok) = oper"
    and "\<forall>i. Timestamp (clock i) < cc_expires_at (ct_claims tok)"
    and "co_meta c' = co_meta c" and "perim c' = perim c"
proof -
  have u: "\<not> is_blocked (pm_responder c) ''anonymous''" using assms(1) by (simp add: http_at_def)
  have ttl: "clamp_u64 1 MAX_TOKEN_TTL_SECS 300 = 300" by code_simp
  obtain non c' tok where t: "client_issue_capability (direct_net app order) text a ns oper 300 c = (Inr tok, c')"
      "ed25519_sign (cf_ed app) (cf_signing_key app) \<lparr>cc_app_id = a, cc_namespace = ns, cc_operation = oper, cc_nonce = non,
        cc_expires_at = plus_secs (Timestamp (co_clock c (Suc (co_ticks c)))) (clamp_u64 1 MAX_TOKEN_TTL_SECS 300)\<rparr> = Inr tok"
      "co_meta c' = co_meta c" "perim c' = perim c"
    by (rule client_issues [OF u assms(3)]) simp_all
  from sign_then_verify [OF assms(2) t(2)] assms(4) t show thesis
    by (intro that [OF t(1)]) (simp_all add: ed25519_verifier_def ttl)
qed

lemma example_encrypts:
  assumes "gcm_seals cc" and "length (fst (rng v)) = NONCE_LEN"
    and "ci = cipher_for_namespace (aes_gcm_cryptographer cc (own_rng rng)) example_secret s"
  obtains ct where "gcm_seal cc (cip_key ci) (fst (rng v)) example_payload = Inr ct" and "length ct \<le> 73"
    and "\<forall>n. cipher_encrypt show_err ci example_payload (v, n) = (Inr (fst (rng v) @ ct), (snd (rng v), n))"
proof -
  obtain ct where ct: "gcm_seal cc (cip_key ci) (fst (rng v)) example_payload = Inr ct" "length ct \<le> 73"
    using assms(1) [unfolded gcm_seals_def, rule_format, of "fst (rng v)" example_payload "cip_key ci"] assms(2)
    by (auto simp: example_payload_length)
  then show thesis
    using that assms(3) by (simp add: cipher_encrypt_def cipher_for_namespace_def aes_gcm_cryptographer_def aes_encrypt_def own_rng_def
        io_bind_def io_read_def io_lift_def io_map_err_def map_prod_def split_beta)
qed

lemma example_admits:
  assumes "blobs_of v ns = {}" and "length d \<le> 85"
  shows "admits example_quota (nu_bytes (usage_of v ns)) (nu_objects (usage_of v ns))
    (word_of_nat (length d))"
proof -
  have "unat (word_of_nat (length d) :: u64) = length d" using assms(2) by (simp add: unat_of_nat take_bit_nat_eq_self)
  then have "unat (saturating_add 0 (word_of_nat (length d)) :: u64) \<le> 85" using assms(2) unfolding unat_saturating_add by simp
  then have "saturating_add 0 (word_of_nat (length d)) \<le> (push_bit 30 1 :: u64)"
    by (simp add: word_le_nat_alt push_bit_eq_mult)
  then show ?thesis by (simp add: admits_def usage_of_def assms(1) example_quota_def)
qed

text \<open>Putting a blob through the client and fetching it with a capability issued in between.\<close>

lemma example_stores:
  assumes node: "node = http_node app order root roots (reed_solomon_coder c) cr
      (ed25519_verifier (cf_ed app) (ed_verifying_key (cf_ed app) (cf_signing_key app))) peers"
    and crates: "ed_correct (cf_ed app) (cf_signing_key app)" "b64_correct b64" "rs_supported c (ac_erasure ct)"
    and state: "nd_world nd = (co, w)" "http_ok (co, w)" "calm root w"
      "\<forall>i j. Timestamp (w_clock w i) < plus_secs (Timestamp (co_clock co j)) 300"
    and known: "mv_namespaces (mem_view (co_meta co)) ns = Some \<lparr>nsp_id = ns, nsp_app_id = a\<rparr>" "url_ns ns"
      "mv_contracts (mem_view (co_meta co)) a = Some ct"
    and quota: "admits (ac_quota ct) (nu_bytes (usage_of (mem_view (co_meta co)) ns)) (nu_objects (usage_of (mem_view (co_meta co)) ns))
      (word_of_nat (length d))" "length d < 2 ^ 64"
    and hash: "\<forall>shs. rs_coder_encode c d (ac_erasure ct) = Inr shs \<longrightarrow> no_second_preimage (cr_sha256_hex cr) shs"
    and tok: "av_verify_signature (ed25519_verifier (cf_ed app) (ed_verifying_key (cf_ed app) (cf_signing_key app))) tok = Inr ()"
      "cc_app_id (ct_claims tok) = a" "cc_namespace (ct_claims tok) = ns" "cc_operation (ct_claims tok) = OpPut"
      "\<forall>i. Timestamp (w_clock w i) < cc_expires_at (ct_claims tok)"
  obtains b c1 w1 tok2 c2 nd' where "client_put b64 (node_net b64 node) text ns tok d nd = (Inr b, nd\<lparr>nd_world := (c1, w1)\<rparr>)"
    and "client_issue_capability (direct_net app order) text a ns OpGet 300 c1 = (Inr tok2, c2)"
    and "client_get b64 (node_net b64 node) text ns tok2 b (nd\<lparr>nd_world := (c2, w1)\<rparr>) = (Inr d, nd')"
proof -
  let ?ver = "ed25519_verifier (cf_ed app) (ed_verifying_key (cf_ed app) (cf_signing_key app))"
  have ct: "mv_contracts (mem_view (co_meta co)) (cc_app_id (ct_claims tok)) = Some ct" by (simp add: tok known)
  have "http_at (\<lambda>k. k = co_clock co) (co, w)" using state(2) by (simp add: http_at_def)
  then obtain b cw1 shs m where put: "put_backup_execute (na_put node) ns tok d (co, w) = (Inr b, cw1)"
    and ok: "http_at (\<lambda>k. k = co_clock co) cw1" and calm: "calm root (snd cw1)"
    and enc: "rs_coder_encode c d (ac_erasure ct) = Inr shs" and k: "unat (ep_k (ac_erasure ct)) \<le> card (intact_shards root (snd cw1) ns b shs)"
    and view: "mem_view (co_meta (fst cw1)) = add_manifest m (mem_view (co_meta co))" and clock: "w_clock (snd cw1) = w_clock w"
    unfolding node
    by (rule http_stored [of _ "(co, w)" root ns ?ver tok "\<lparr>nsp_id = ns, nsp_app_id = a\<rparr>" ct c d app order roots cr peers])
      (use state known tok ct crates(3) quota(1) in simp_all)
  obtain c1 w1 where cw1: "cw1 = (c1, w1)" by (cases cw1)
  then have ok1: "http_ok (c1, w1)" and same: "co_clock c1 = co_clock co" using ok by (simp_all add: http_at_def)
  have ns1: "mv_namespaces (mem_view (co_meta c1)) ns = Some \<lparr>nsp_id = ns, nsp_app_id = a\<rparr>"
    using view known cw1 by (simp add: add_manifest_def)
  obtain tok2 c2 where tok2: "client_issue_capability (direct_net app order) text a ns OpGet 300 c1 = (Inr tok2, c2)"
      "av_verify_signature ?ver tok2 = Inr ()" "cc_app_id (ct_claims tok2) = a" "cc_namespace (ct_claims tok2) = ns"
      "cc_operation (ct_claims tok2) = OpGet" "\<forall>i. Timestamp (w_clock w i) < cc_expires_at (ct_claims tok2)"
      "co_meta c2 = co_meta c1" "perim c2 = perim c1"
    by (rule example_issues [OF ok1 crates(1) ns1, where clock = "w_clock w"]) (use same state(4) in simp_all)
  have ok2: "http_ok (c2, w1)" using ok1 tok2(7,8) by (simp add: http_at_def)
  obtain cw3 where guard: "guard_authorize ?ver (remote_metadata_store (coordinator_net app order)) (own_clock system_clock) ns tok2 OpGet (c2, w1) =
      (Inr (cc_app_id (ct_claims tok2)), cw3)" "w_calls (snd cw3) (w_called (snd cw3)) = Delivered"
    by (rule http_guard_accepts [OF ok2, where root = root and ns = ns and ver = ?ver and tok = tok2 and oper = OpGet and app = app and
        order = order and n = "\<lparr>nsp_id = ns, nsp_app_id = a\<rparr>"]) (use calm cw1 clock known tok2 ns1 in simp_all)
  have "\<exists>out cw'. get_backup_restore (na_get node) ns tok2 b (c2, w1) = (Inr out, cw') \<and> ro_ciphertext out = d"
    unfolding node
    by (rule http_put_then_restore [OF state(2) ok2 known(2) _ crates(3) enc _ quota(2) put [unfolded node] _ _ guard])
      (use ct hash enc k cw1 tok2(7) in simp_all)
  then obtain out cw' where "get_backup_restore (na_get node) ns tok2 b (c2, w1) = (Inr out, cw')" "ro_ciphertext out = d" by blast
  then obtain nd' where get: "client_get b64 (node_net b64 node) text ns tok2 b (nd\<lparr>nd_world := (c2, w1)\<rparr>) = (Inr d, nd')"
    by (simp add: client_get_runs [OF crates(2)])
  have "client_put b64 (node_net b64 node) text ns tok d nd = (Inr b, nd\<lparr>nd_world := (c1, w1)\<rparr>)"
    using put by (simp add: client_put_runs [OF crates(2)] state(1) cw1)
  then show thesis by (rule that [OF _ tok2(1) get])
qed

text \<open>
  C2. The example program works.  Started against a coordinator and a node-agent that use its key, on a
  disk that takes writes, with calls that arrive, header-less callers not blocked and clocks less than
  five minutes apart, the program registers, encrypts, backs up and restores, and its final assertion
  that the restored bytes are the payload holds, whatever the peers do.
\<close>

theorem example_roundtrip:
  fixes rng :: "'v \<Rightarrow> bytes \<times> 'v" and app :: "'o coordinator_app"
  assumes "http (env_or env ''VAULT_COORDINATOR_URL'' ''http://127.0.0.1:8787'') = to_coordinator app order"
    and "http (env_or env ''VAULT_SIDECAR_URL'' ''http://127.0.0.1:8790'') = to_node b64 node"
    and "node = http_node app order root roots (reed_solomon_coder c) cr
      (ed25519_verifier (cf_ed app) (ed_verifying_key (cf_ed app) (cf_signing_key app))) peers"
    and "ed_correct (cf_ed app) (cf_signing_key app)" and "b64_correct b64" and "rs_supported c recommended_params"
    and "gcm_correct cc" and "gcm_seals cc" and "\<forall>v. length (fst (rng v)) = NONCE_LEN"
    and "nd_world nd = (co, w)" and "http_ok (co, w)" and "calm root w"
    and "\<forall>i j. Timestamp (w_clock w i) < plus_secs (Timestamp (co_clock co j)) 300"
    and "\<forall>i b. mv_manifests (mem_view (co_meta co)) (NamespaceId (''ns-'' @ uuid_simple (co_random co i)), b) = None"
    and "\<forall>key ct shs. gcm_seal cc key (fst (rng v)) example_payload = Inr ct \<longrightarrow>
      rs_coder_encode c (fst (rng v) @ ct) recommended_params = Inr shs \<longrightarrow> no_second_preimage (cr_sha256_hex cr) shs"
  shows "\<exists>s'. roundtrip_main env http b64 text show_err (aes_gcm_cryptographer cc (own_rng rng)) (v, nd) = (Inr (), s')"
proof -
  let ?q = example_quota and ?ret = "\<lparr>rp_keep_versions = 3, rp_min_days = 30\<rparr>"
  let ?ver = "ed25519_verifier (cf_ed app) (ed_verifying_key (cf_ed app) (cf_signing_key app))"
  let ?at = "\<lambda>v' c w'. (v', nd\<lparr>nd_world := (c, w')\<rparr>)" and ?v = "snd (rng v)"
  obtain r c1 ns c2 where on: "client_register_app (direct_net app order) text ''demo-app'' ?q ?ret recommended_params co = (Inr r, c1)"
      "client_create_namespace (direct_net app order) text (rap_app_id r) c1 = (Inr \<lparr>cnp_namespace_id = ns\<rparr>, c2)"
      "mv_contracts (mem_view (co_meta c2)) (rap_app_id r) = Some (app_contract_new (rap_app_id r) ?q ?ret recommended_params)"
      "mv_namespaces (mem_view (co_meta c2)) ns = Some \<lparr>nsp_id = ns, nsp_app_id = rap_app_id r\<rparr>"
      "blobs_of (mem_view (co_meta c2)) ns = {}" "url_ns ns" "http_ok (c2, w)" "co_clock c2 = co_clock co"
    using assms(11,14) by (rule example_onboards)
  let ?ct = "app_contract_new (rap_app_id r) ?q ?ret recommended_params"
  let ?ci = "cipher_for_namespace (aes_gcm_cryptographer cc (own_rng rng)) example_secret (ns_str ns)
    :: ('v \<times> ('o coordinator \<times> world) node) content_cipher"
  have nonce: "length (fst (rng v)) = NONCE_LEN" using assms(9) by blast
  obtain ct where ct: "gcm_seal cc (cip_key ?ci) (fst (rng v)) example_payload = Inr ct" "length ct \<le> 73"
      "\<forall>n. cipher_encrypt show_err ?ci example_payload (v, n) = (Inr (fst (rng v) @ ct), (?v, n))"
    by (rule example_encrypts [where rng = rng and v = v, OF assms(8) nonce refl])
  let ?d = "fst (rng v) @ ct"
  have d: "length ?d \<le> 85" using ct(2) assms(9) by (simp add: NONCE_LEN_def)
  have small: "length ?d < 2 ^ 64" using d by simp
  have quota: "admits (ac_quota ?ct) (nu_bytes (usage_of (mem_view (co_meta c2)) ns)) (nu_objects (usage_of (mem_view (co_meta c2)) ns))
      (word_of_nat (length ?d))"
    using example_admits [OF on(5) d] by (simp add: app_contract_new_def)
  have hash: "\<forall>shs. rs_coder_encode c ?d (ac_erasure ?ct) = Inr shs \<longrightarrow> no_second_preimage (cr_sha256_hex cr) shs"
    using assms(15) ct(1) by (auto simp: app_contract_new_def)
  have clocks: "\<forall>i j. Timestamp (w_clock w i) < plus_secs (Timestamp (co_clock c2 j)) 300" using assms(13) on(8) by simp
  obtain tok c3 where tok: "client_issue_capability (direct_net app order) text (rap_app_id r) ns OpPut 300 c2 = (Inr tok, c3)"
      "av_verify_signature ?ver tok = Inr ()" "cc_app_id (ct_claims tok) = rap_app_id r" "cc_namespace (ct_claims tok) = ns"
      "cc_operation (ct_claims tok) = OpPut" "\<forall>i. Timestamp (w_clock w i) < cc_expires_at (ct_claims tok)"
      "co_meta c3 = co_meta c2" "perim c3 = perim c2"
    by (rule example_issues [OF on(7) assms(4) on(4) clocks])
  have ok3: "http_ok (c3, w)" using on(7) tok(7,8) by (simp add: http_at_def)
  obtain b c4 w4 tok2 c5 nd' where st: "client_put b64 (node_net b64 node) text ns tok ?d (nd\<lparr>nd_world := (c3, w)\<rparr>) =
        (Inr b, nd\<lparr>nd_world := (c3, w), nd_world := (c4, w4)\<rparr>)"
      "client_issue_capability (direct_net app order) text (rap_app_id r) ns OpGet 300 c4 = (Inr tok2, c5)"
      "client_get b64 (node_net b64 node) text ns tok2 b (nd\<lparr>nd_world := (c3, w), nd_world := (c5, w4)\<rparr>) = (Inr ?d, nd')"
    by (rule example_stores [OF assms(3,4,5), where ct = ?ct and ns = ns and a = "rap_app_id r" and d = ?d and tok = tok and
          nd = "nd\<lparr>nd_world := (c3, w)\<rparr>" and co = c3 and w = w])
      (use assms(6,12) on(3,4,6) tok(2-8) ok3 clocks quota hash small in \<open>simp_all add: app_contract_new_def\<close>)
  have dec: "cipher_decrypt show_err ?ci ?d = Inr example_payload"
    by (rule content_cipher_roundtrip [OF assms(7) _ refl ct(3) [rule_format]]) (use assms(9) in \<open>auto simp: own_rng_def split_beta\<close>)
  have get: "client_get b64 (node_net b64 node) text ns tok2 b (nd\<lparr>nd_world := (c5, w4)\<rparr>) = (Inr ?d, nd')" using st(3) by simp
  have nd: "nd = nd\<lparr>nd_world := (co, w)\<rparr>" using assms(10) by simp
  show ?thesis
    by (subst nd) (simp add: roundtrip_main_def assms(1,2) Let_def io_bind_def io_map_err_def io_lift_def io_return_def
      control_through data_through on tok st get dec ct(3))
qed

text \<open>Two services on one machine, the coordinator just started.\<close>

definition example_app :: "unit coordinator_app" where
  "example_app = demo_coordinator_app\<lparr>cf_ed := lenient_ed\<rparr>"

definition example_node :: "(unit coordinator \<times> world) node_app" where
  "example_node = http_node example_app (\<lambda>_. []) [] (\<lambda>_. []) (reed_solomon_coder field_crate) demo_crypto
     (ed25519_verifier lenient_ed (ed_verifying_key lenient_ed [])) [''10.0.0.1:1'']"

definition example_http :: "string \<Rightarrow> (unit \<times> (unit coordinator \<times> world) node) net" where
  "example_http url = (if url = ''http://127.0.0.1:8787'' then to_coordinator example_app (\<lambda>_. []) else to_node (cf_b64 example_app) example_node)"

lemma example_parts:
  "ed_correct (cf_ed example_app) (cf_signing_key example_app)" "b64_correct (cf_b64 example_app)"
  "http_ok (demo_coordinator, demo_world 5 [])" "calm [] (demo_world 5 [])"
  "\<forall>i j. Timestamp (w_clock (demo_world 5 []) i) < plus_secs (Timestamp (co_clock demo_coordinator j)) 300"
  "\<forall>i b. mv_manifests (mem_view (co_meta demo_coordinator)) (NamespaceId (''ns-'' @ uuid_simple (co_random demo_coordinator i)), b) = None"
proof -
  have parts: "co_meta demo_coordinator = memstore_new" "co_clock demo_coordinator = (\<lambda>_. 5)" by (simp_all add: demo_coordinator_def)
  have "\<not> is_blocked (pm_responder demo_coordinator) ''anonymous''" by code_simp
  then show "http_ok (demo_coordinator, demo_world 5 [])" by (simp add: http_at_def parts url_view_def mem_view_def memstore_new_def)
  have "Timestamp 5 < plus_secs (Timestamp 5) 300" by (simp add: less_timestamp_def plus_secs_def saturating_add_def saturating_mul_def)
  then show "\<forall>i j. Timestamp (w_clock (demo_world 5 []) i) < plus_secs (Timestamp (co_clock demo_coordinator j)) 300"
    by (simp add: parts demo_world_views)
qed (simp_all add: lenient_ed_correct b64_correct_def demo_world_views example_app_def demo_coordinator_app_def demo_coordinator_def
    memstore_new_def mem_view_def)

theorem example_roundtrip_witness:
  "\<exists>s'. roundtrip_main (\<lambda>_. None) example_http (cf_b64 example_app) (\<lambda>_. []) show_port_error
     (aes_gcm_cryptographer demo_content (own_rng (\<lambda>v. (replicate 12 7, v))))
     ((), \<lparr>nd_world = (demo_coordinator, demo_world 5 []), nd_sweep = sweep_status_new None, nd_tasks = []\<rparr>) = (Inr (), s')"
proof (rule example_roundtrip [where app = example_app and order = "\<lambda>_. []" and node = example_node and root = "[]" and roots = "\<lambda>_. []" and
    c = field_crate and cr = demo_crypto and peers = "[''10.0.0.1:1'']" and co = demo_coordinator and w = "demo_world 5 []",
    OF _ _ _ example_parts(1,2) _ _ _ _ _ example_parts(3-6)])
  show "gcm_correct demo_content" by (auto simp: gcm_correct_def demo_content_def comp_def)
qed (simp_all add: example_http_def env_or_def example_node_def field_crate_supported gcm_seals_def demo_content_def NONCE_LEN_def
    demo_no_second_preimage example_app_def demo_coordinator_app_def)

end
