(* ===== verification/Lost_Backups.thy ===== *)
theory Lost_Backups
  imports Roundtrip
begin

text \<open>
  A contract whose erasure parameters skip validation.  \<^verbatim>\<open>POST /v1/apps\<close> stores the \<^verbatim>\<open>ErasureParams\<close> of the
  request as deserialized, without the check \<open>1 \<le> k \<le> n\<close> of their constructor.  The property follows such
  a contract through the client, the coordinator and the node.
\<close>

lemma collect_length: "collect_shards gb ns b shs w = (slots, w') \<Longrightarrow> length slots = length shs"
  by (induction shs arbitrary: w slots) (auto split: prod.splits)

text \<open>With more data shards than shards there is no restore.\<close>

lemma restore_impossible:
  assumes "wired_get root roots c gb" and "mv_manifests (node_mview w) (ns, b) = Some m"
    and "unat (ep_n (mf_erasure m)) < unat (ep_k (mf_erasure m))" and "length (mf_shards m) = unat (ep_k (mf_erasure m))"
  shows "\<exists>e w'. get_backup_restore gb ns tok b w = (Inl e, w')"
proof -
  have us: "gb_metadata gb = node_meta" "gb_clock gb = system_clock" "gb_erasure gb = reed_solomon_coder c"
    using wiredD(3,4) [OF assms(1)] by (simp_all add: get_uses_def)
  obtain r w' where run: "get_backup_restore gb ns tok b w = (r, w')" by force
  have "r \<noteq> Inr out" for out
  proof
    assume "r = Inr out"
    with run obtain app w1 m' w2 slots w3 d where p:
      "guard_authorize (gb_verifier gb) node_meta system_clock ns tok OpGet w = (Inr app, w1)"
      "ms_get_manifest node_meta ns b w1 = (Inr (Some m'), w2)" "collect_shards gb ns b (mf_shards m') w2 = (slots, w3)"
      "rs_coder_decode c slots (mf_erasure m') (unat (mf_ciphertext_len m')) = Inr d"
      by (auto simp: get_backup_restore_def Let_def us io_inv io_return_def ok_or_def reed_solomon_coder_def split: if_splits option.splits)
    have "node_mview w1 = node_mview w" using keepsD [OF node.guard_keeps p(1)] .
    then have "m' = m" using nodem.get_manifest [OF p(2)] assms(2) by simp
    with p(3,4) collect_length [OF p(3)] assms(3,4) show False by (simp add: rs_coder_decode_def Let_def)
  qed
  with run show ?thesis by (cases r) auto
qed

lemma http_get_impossible:
  assumes "http_ok (nd_world nd)" and "b64_correct b64" and "url_ns ns"
    and "mv_manifests (mem_view (co_meta (fst (nd_world nd)))) (ns, b) = Some m"
    and "unat (ep_n (mf_erasure m)) < unat (ep_k (mf_erasure m))" and "length (mf_shards m) = unat (ep_k (mf_erasure m))"
  shows "\<exists>e nd'. client_get b64 (node_net b64 (http_node app order root roots (reed_solomon_coder c) cr ver peers)) text ns tok b nd = (Inl e, nd')"
proof -
  let ?node = "http_node app order root roots (reed_solomon_coder c) cr ver peers" and ?direct = "direct_node root roots (reed_solomon_coder c) cr ver peers"
  have "url_blob b" using assms(1,4) by (auto simp: http_at_def url_view_def)
  then have sim: "sim meta_abs http_ok (get_backup_restore (na_get ?node) ns tok b) (get_backup_restore (na_get ?direct) ns tok b)"
    unfolding http_node_def direct_node_def by (intro http.get [OF own_hash assms(3)])
  obtain e w' where d: "get_backup_restore (na_get ?direct) ns tok b (meta_abs (nd_world nd)) = (Inl e, w')"
    using restore_impossible [OF direct_wired(2)] assms(4-6) by (metis meta_abs_view)
  obtain r cw' where "get_backup_restore (na_get ?node) ns tok b (nd_world nd) = (r, cw')" "r = Inl e"
    by (rule sim_run [OF sim assms(1)]) (use d in simp)
  then show ?thesis by (simp add: client_get_runs [OF assms(2)])
qed



end
