(* ===== verification/Concurrent_Disk.thy ===== *)
theory Concurrent_Disk
  imports Blob_Fs
begin

text \<open>
  The filesystem anchor under concurrency.  Each \<^verbatim>\<open>await\<close> of \<^verbatim>\<open>put_shard\<close> and \<^verbatim>\<open>get_shard\<close> is a system call
  of its own, and \<^verbatim>\<open>tokio::fs::write\<close> and \<^verbatim>\<open>read\<close> are several; calls of different requests interleave.
  The disk is modelled as the kernel keeps it: names refer to inodes, an open file is an inode, and a
  rename moves a name while whoever has the inode open goes on using it.  The specification is an
  anchor whose operations are atomic.
\<close>

section \<open>The disk and the calls in progress\<close>

text \<open>Where a put is: before a call, with a file open at an offset, before the rename, or finished.\<close>

datatype put_pc = Creating | Opening | Writing nat nat | Renaming nat | Finished "port_error + unit"

record put_task =
  pt_ref :: shard_ref
  pt_bytes :: bytes
  pt_pc :: put_pc

record get_task =
  gt_ref :: shard_ref
  gt_inode :: nat
  gt_got :: bytes

record disk =
  dk_dir :: "path \<rightharpoonup> nat"
  dk_data :: "nat \<Rightarrow> bytes"
  dk_next :: nat
  dk_puts :: "nat \<rightharpoonup> put_task"
  dk_gets :: "nat \<rightharpoonup> get_task"

datatype disk_event =
    Silent
  | Stored shard_ref bytes
  | Removed shard_ref
  | Opened nat shard_ref
  | Got nat shard_ref bytes
  | Missing shard_ref

definition tmp_path :: "path \<Rightarrow> shard_ref \<Rightarrow> path" where
  "tmp_path root at = with_extension (shard_path root at) ''shard.tmp''"

text \<open>\<^verbatim>\<open>write(2)\<close> at an offset: what lies beyond the written part stays, a gap would be zero.\<close>

definition write_at :: "nat \<Rightarrow> bytes \<Rightarrow> bytes \<Rightarrow> bytes" where
  "write_at k x old = take k (old @ replicate (k - length old) 0) @ x @ drop (k + length x) old"

definition put_at :: "nat \<Rightarrow> put_task \<Rightarrow> put_pc \<Rightarrow> disk \<Rightarrow> disk" where
  "put_at i t pc d = d\<lparr>dk_puts := (dk_puts d)(i \<mapsto> t\<lparr>pt_pc := pc\<rparr>)\<rparr>"

text \<open>\<^verbatim>\<open>File::create\<close>: an existing file is truncated, its inode kept; otherwise there is a new one.\<close>

definition open_truncated :: "path \<Rightarrow> disk \<Rightarrow> nat \<times> disk" where
  "open_truncated p d = (case dk_dir d p of
       Some n \<Rightarrow> (n, d\<lparr>dk_data := (dk_data d)(n := [])\<rparr>)
     | None \<Rightarrow> (let n = dk_next d in (n, d\<lparr>dk_dir := (dk_dir d)(p \<mapsto> n), dk_data := (dk_data d)(n := []), dk_next := Suc n\<rparr>)))"

definition rename_path :: "path \<Rightarrow> path \<Rightarrow> disk \<Rightarrow> disk option" where
  "rename_path src dst d = (case dk_dir d src of
       None \<Rightarrow> None
     | Some n \<Rightarrow> Some (d\<lparr>dk_dir := (dk_dir d)(src := None, dst \<mapsto> n)\<rparr>))"

definition busy :: "put_task \<Rightarrow> bool" where
  "busy t \<longleftrightarrow> (case pt_pc t of Finished r \<Rightarrow> False | _ \<Rightarrow> True)"

text \<open>
  One system call.  Any call of a put may fail, which ends it with that error; a delete in progress is
  the sequence of its unlink calls.
\<close>

inductive disk_step :: "path \<Rightarrow> disk \<Rightarrow> disk_event \<Rightarrow> disk \<Rightarrow> bool" for root where
  Put: "dk_puts d i = None \<Longrightarrow> plain_ref at \<Longrightarrow>
    disk_step root d Silent (d\<lparr>dk_puts := (dk_puts d)(i \<mapsto> \<lparr>pt_ref = at, pt_bytes = bs, pt_pc = Creating\<rparr>)\<rparr>)"
| CreateDir: "dk_puts d i = Some t \<Longrightarrow> pt_pc t = Creating \<Longrightarrow> disk_step root d Silent (put_at i t Opening d)"
| Open: "dk_puts d i = Some t \<Longrightarrow> pt_pc t = Opening \<Longrightarrow> open_truncated (tmp_path root (pt_ref t)) d = (n, d') \<Longrightarrow>
    disk_step root d Silent (put_at i t (Writing n 0) d')"
| Write: "dk_puts d i = Some t \<Longrightarrow> pt_pc t = Writing n k \<Longrightarrow> k + m \<le> length (pt_bytes t) \<Longrightarrow> x = take m (drop k (pt_bytes t)) \<Longrightarrow>
    disk_step root d Silent (put_at i t (Writing n (k + m)) (d\<lparr>dk_data := (dk_data d)(n := write_at k x (dk_data d n))\<rparr>))"
| Close: "dk_puts d i = Some t \<Longrightarrow> pt_pc t = Writing n (length (pt_bytes t)) \<Longrightarrow> disk_step root d Silent (put_at i t (Renaming n) d)"
| Rename: "dk_puts d i = Some t \<Longrightarrow> pt_pc t = Renaming n \<Longrightarrow>
    rename_path (tmp_path root (pt_ref t)) (shard_path root (pt_ref t)) d = Some d' \<Longrightarrow>
    disk_step root d (Stored (pt_ref t) (pt_bytes t)) (put_at i t (Finished (Inr ())) d')"
| Lost: "dk_puts d i = Some t \<Longrightarrow> pt_pc t = Renaming n \<Longrightarrow>
    rename_path (tmp_path root (pt_ref t)) (shard_path root (pt_ref t)) d = None \<Longrightarrow>
    disk_step root d Silent (put_at i t (Finished (Inl (fs_backend IoNotFound))) d)"
| Fail: "dk_puts d i = Some t \<Longrightarrow> busy t \<Longrightarrow> disk_step root d Silent (put_at i t (Finished (Inl (fs_backend e))) d)"
| Unlink: "plain_ref at \<Longrightarrow> disk_step root d (Removed at) (d\<lparr>dk_dir := (dk_dir d)(shard_path root at := None)\<rparr>)"
| UnlinkTmp: "plain_ref at \<Longrightarrow> disk_step root d Silent (d\<lparr>dk_dir := (dk_dir d)(tmp_path root at := None)\<rparr>)"
| OpenRead: "dk_gets d j = None \<Longrightarrow> plain_ref at \<Longrightarrow> dk_dir d (shard_path root at) = Some n \<Longrightarrow>
    disk_step root d (Opened j at) (d\<lparr>dk_gets := (dk_gets d)(j \<mapsto> \<lparr>gt_ref = at, gt_inode = n, gt_got = []\<rparr>)\<rparr>)"
| NoFile: "plain_ref at \<Longrightarrow> dk_dir d (shard_path root at) = None \<Longrightarrow> disk_step root d (Missing at) d"
| Read: "dk_gets d j = Some g \<Longrightarrow> x = take m (drop (length (gt_got g)) (dk_data d (gt_inode g))) \<Longrightarrow>
    disk_step root d Silent (d\<lparr>dk_gets := (dk_gets d)(j \<mapsto> g\<lparr>gt_got := gt_got g @ x\<rparr>)\<rparr>)"
| EndOfFile: "dk_gets d j = Some g \<Longrightarrow> length (dk_data d (gt_inode g)) \<le> length (gt_got g) \<Longrightarrow>
    disk_step root d (Got j (gt_ref g) (gt_got g)) (d\<lparr>dk_gets := (dk_gets d)(j := None)\<rparr>)"

text \<open>No two puts of the same shard are in progress.\<close>

definition one_writer :: "disk \<Rightarrow> bool" where
  "one_writer d \<longleftrightarrow> (\<forall>i j t u. dk_puts d i = Some t \<longrightarrow> dk_puts d j = Some u \<longrightarrow> busy t \<longrightarrow> busy u \<longrightarrow>
     pt_ref t = pt_ref u \<longrightarrow> i = j)"

inductive disk_run :: "path \<Rightarrow> (disk \<Rightarrow> bool) \<Rightarrow> disk \<Rightarrow> disk_event list \<Rightarrow> disk \<Rightarrow> bool" for root ok where
  Start: "disk_run root ok d [] d"
| Step: "disk_run root ok d es d1 \<Longrightarrow> disk_step root d1 e d2 \<Longrightarrow> ok d2 \<Longrightarrow> disk_run root ok d (es @ [e]) d2"

section \<open>The atomic anchor\<close>

record shelf =
  sf_view :: "shard_ref \<rightharpoonup> bytes"
  sf_reads :: "nat \<rightharpoonup> shard_ref \<times> bytes"

fun shelf_step :: "shelf \<Rightarrow> disk_event \<Rightarrow> shelf option" where
  "shelf_step s Silent = Some s"
| "shelf_step s (Stored at bs) = Some (s\<lparr>sf_view := (sf_view s)(at \<mapsto> bs)\<rparr>)"
| "shelf_step s (Removed at) = Some (s\<lparr>sf_view := (sf_view s)(at := None)\<rparr>)"
| "shelf_step s (Opened j at) =
     (case sf_view s at of Some bs \<Rightarrow> Some (s\<lparr>sf_reads := (sf_reads s)(j \<mapsto> (at, bs))\<rparr>) | None \<Rightarrow> None)"
| "shelf_step s (Got j at bs) =
     (if sf_reads s j = Some (at, bs) then Some (s\<lparr>sf_reads := (sf_reads s)(j := None)\<rparr>) else None)"
| "shelf_step s (Missing at) = (if sf_view s at = None then Some s else None)"

fun shelf_run :: "shelf \<Rightarrow> disk_event list \<Rightarrow> shelf option" where
  "shelf_run s [] = Some s"
| "shelf_run s (e # es) = (case shelf_step s e of Some s' \<Rightarrow> shelf_run s' es | None \<Rightarrow> None)"

text \<open>What the disk holds for the anchor's clients: whole shards, and the shards their reads have open.\<close>

definition shelf_of :: "path \<Rightarrow> disk \<Rightarrow> shelf" where
  "shelf_of root d = \<lparr>sf_view = (\<lambda>at. if plain_ref at then map_option (dk_data d) (dk_dir d (shard_path root at)) else None),
     sf_reads = (\<lambda>j. map_option (\<lambda>g. (gt_ref g, dk_data d (gt_inode g))) (dk_gets d j))\<rparr>"

section \<open>The invariant\<close>

lemma tmp_path_inject: "plain_ref a \<Longrightarrow> plain_ref b \<Longrightarrow> tmp_path root a = tmp_path root b \<longleftrightarrow> a = b"
  by (auto simp: tmp_path_def tmp_path_plain intro!: shard_ref.equality namespace_id.expand blob_id.expand)

lemma tmp_path_not_shard: "plain_ref a \<Longrightarrow> plain_ref b \<Longrightarrow> tmp_path root a \<noteq> shard_path root b"
  using tmp_not_shard [of a b] by (simp add: tmp_path_def tmp_path_plain) (simp add: shard_path_plain)

fun pc_inode :: "put_pc \<Rightarrow> nat option" where
  "pc_inode (Writing n k) = Some n"
| "pc_inode (Renaming n) = Some n"
| "pc_inode _ = None"

definition names :: "disk \<Rightarrow> nat \<Rightarrow> path set" where
  "names d n = {p. dk_dir d p = Some n}"

definition writers :: "disk \<Rightarrow> nat \<Rightarrow> nat set" where
  "writers d n = {i. \<exists>t. dk_puts d i = Some t \<and> pc_inode (pt_pc t) = Some n}"

lemma names_simps [simp]:
  "names (d\<lparr>dk_dir := (dk_dir d)(p := None)\<rparr>) n = names d n - {p}"
  "names (d\<lparr>dk_dir := (dk_dir d)(p \<mapsto> m)\<rparr>) n = (if n = m then insert p (names d n) else names d n - {p})"
  "names (d\<lparr>dk_data := f\<rparr>) n = names d n" "names (d\<lparr>dk_next := k\<rparr>) n = names d n"
  "names (d\<lparr>dk_puts := ps\<rparr>) n = names d n" "names (d\<lparr>dk_gets := gs\<rparr>) n = names d n"
  "names (put_at i t pc d) n = names d n"
  by (auto simp: names_def put_at_def)

lemma writers_simps [simp]:
  "writers (d\<lparr>dk_dir := f\<rparr>) n = writers d n" "writers (d\<lparr>dk_data := g\<rparr>) n = writers d n" "writers (d\<lparr>dk_next := k\<rparr>) n = writers d n"
  "writers (d\<lparr>dk_gets := gs\<rparr>) n = writers d n"
  "writers (put_at i t pc d) n = (if pc_inode pc = Some n then insert i (writers d n) else writers d n - {i})"
  by (auto simp: writers_def put_at_def)

lemma put_at_simps [simp]:
  "dk_dir (put_at i t pc d) = dk_dir d" "dk_data (put_at i t pc d) = dk_data d" "dk_next (put_at i t pc d) = dk_next d"
  "dk_gets (put_at i t pc d) = dk_gets d" "dk_puts (put_at i t pc d) = (dk_puts d)(i \<mapsto> t\<lparr>pt_pc := pc\<rparr>)"
  by (simp_all add: put_at_def)

text \<open>
  An inode has one name at most.  The one a put writes is named by its temporary file only, holds what
  the put has written so far, and has no other writer; one that is read has no writer and is named by
  its shard only.
\<close>

fun wrote :: "bytes \<Rightarrow> put_pc \<Rightarrow> bytes" where
  "wrote bs (Writing n k) = take k bs"
| "wrote bs pc = bs"

definition named_once :: "disk \<Rightarrow> bool" where
  "named_once d \<longleftrightarrow> (\<forall>p n. dk_dir d p = Some n \<longrightarrow> names d n \<subseteq> {p} \<and> n < dk_next d)"

definition put_sound :: "path \<Rightarrow> disk \<Rightarrow> nat \<Rightarrow> put_task \<Rightarrow> bool" where
  "put_sound root d i t \<longleftrightarrow> plain_ref (pt_ref t) \<and>
     (\<forall>n. pc_inode (pt_pc t) = Some n \<longrightarrow> n < dk_next d \<and> dk_data d n = wrote (pt_bytes t) (pt_pc t) \<and>
        names d n \<subseteq> {tmp_path root (pt_ref t)} \<and> dk_dir d (tmp_path root (pt_ref t)) \<in> {None, Some n} \<and> writers d n \<subseteq> {i})"

definition get_sound :: "path \<Rightarrow> disk \<Rightarrow> get_task \<Rightarrow> bool" where
  "get_sound root d g \<longleftrightarrow> plain_ref (gt_ref g) \<and> gt_inode g < dk_next d \<and> prefix (gt_got g) (dk_data d (gt_inode g)) \<and>
     names d (gt_inode g) \<subseteq> {shard_path root (gt_ref g)} \<and> writers d (gt_inode g) = {}"

definition disk_sound :: "path \<Rightarrow> disk \<Rightarrow> bool" where
  "disk_sound root d \<longleftrightarrow> named_once d \<and> (\<forall>i t. dk_puts d i = Some t \<longrightarrow> put_sound root d i t) \<and>
     (\<forall>j g. dk_gets d j = Some g \<longrightarrow> get_sound root d g)"

lemma soundD:
  assumes "disk_sound root d"
  shows "dk_dir d p = Some n \<Longrightarrow> names d n \<subseteq> {p}" "dk_dir d p = Some n \<Longrightarrow> n < dk_next d"
    "dk_puts d i = Some t \<Longrightarrow> put_sound root d i t" "dk_gets d j = Some g \<Longrightarrow> get_sound root d g"
  using assms by (auto simp: disk_sound_def named_once_def)

lemma named: "dk_dir d p = Some n \<longleftrightarrow> p \<in> names d n"
  by (simp add: names_def)

text \<open>A task stays in order while its inode keeps its contents and gains neither names nor writers.\<close>

lemma put_sound_frame:
  assumes "put_sound root d i t" and "dk_next d \<le> dk_next d'"
    and "\<And>n. pc_inode (pt_pc t) = Some n \<Longrightarrow> dk_data d' n = dk_data d n \<and> names d' n \<subseteq> names d n \<and>
      dk_dir d' (tmp_path root (pt_ref t)) \<in> {None, dk_dir d (tmp_path root (pt_ref t))} \<and> writers d' n \<subseteq> writers d n"
  shows "put_sound root d' i t"
  unfolding put_sound_def
proof (intro conjI allI impI)
  show "plain_ref (pt_ref t)" using assms(1) by (simp add: put_sound_def)
  fix n
  assume n: "pc_inode (pt_pc t) = Some n"
  then have d: "n < dk_next d" "dk_data d n = wrote (pt_bytes t) (pt_pc t)" "names d n \<subseteq> {tmp_path root (pt_ref t)}"
      "dk_dir d (tmp_path root (pt_ref t)) \<in> {None, Some n}" "writers d n \<subseteq> {i}"
    using assms(1) by (auto simp: put_sound_def)
  note k = assms(3) [OF n]
  show "n < dk_next d'" using d(1) assms(2) by simp
  show "dk_data d' n = wrote (pt_bytes t) (pt_pc t)" using d(2) k by simp
  show "names d' n \<subseteq> {tmp_path root (pt_ref t)}" using d(3) k by blast
  show "dk_dir d' (tmp_path root (pt_ref t)) \<in> {None, Some n}" using d(4) k by auto
  show "writers d' n \<subseteq> {i}" using d(5) k by blast
qed

lemma get_sound_frame:
  assumes "get_sound root d g" and "dk_next d \<le> dk_next d'" and "dk_data d' (gt_inode g) = dk_data d (gt_inode g)"
    and "names d' (gt_inode g) \<subseteq> names d (gt_inode g)" and "writers d' (gt_inode g) \<subseteq> writers d (gt_inode g)"
  shows "get_sound root d' g"
  using assms(1) subset_trans [OF assms(4)] assms(2,3,5) by (auto simp: get_sound_def)

lemma disk_soundI:
  assumes "\<And>p n. dk_dir d p = Some n \<Longrightarrow> names d n \<subseteq> {p} \<and> n < dk_next d"
    and "\<And>i t. dk_puts d i = Some t \<Longrightarrow> put_sound root d i t" and "\<And>j g. dk_gets d j = Some g \<Longrightarrow> get_sound root d g"
  shows "disk_sound root d"
  using assms by (simp add: disk_sound_def named_once_def)

text \<open>A step of one put that leaves the other tasks' inodes alone.\<close>

lemma sound_put_step:
  assumes "disk_sound root d" and t: "dk_puts d i = Some t"
    and puts: "dk_puts d' = (dk_puts d)(i \<mapsto> t\<lparr>pt_pc := pc\<rparr>)" and gets: "dk_gets d' = dk_gets d"
    and more: "dk_next d \<le> dk_next d'"
    and named: "\<And>p n. dk_dir d' p = Some n \<Longrightarrow> names d' n \<subseteq> {p} \<and> n < dk_next d'"
    and own: "put_sound root d' i (t\<lparr>pt_pc := pc\<rparr>)"
    and other: "\<And>j u n. dk_puts d j = Some u \<Longrightarrow> j \<noteq> i \<Longrightarrow> pc_inode (pt_pc u) = Some n \<Longrightarrow> dk_data d' n = dk_data d n \<and>
      names d' n \<subseteq> names d n \<and> dk_dir d' (tmp_path root (pt_ref u)) \<in> {None, dk_dir d (tmp_path root (pt_ref u))} \<and> pc_inode pc \<noteq> Some n"
    and reads: "\<And>j g. dk_gets d j = Some g \<Longrightarrow> dk_data d' (gt_inode g) = dk_data d (gt_inode g) \<and>
      names d' (gt_inode g) \<subseteq> names d (gt_inode g) \<and> pc_inode pc \<noteq> Some (gt_inode g)"
  shows "disk_sound root d'"
proof (rule disk_soundI)
  have w: "writers d' n \<subseteq> writers d n" if "pc_inode pc \<noteq> Some n" for n
    using that by (auto simp: writers_def puts split: if_splits)
  show "put_sound root d' j u" if "dk_puts d' j = Some u" for j u
  proof (cases "j = i")
    case False
    then have u: "dk_puts d j = Some u" using that puts by simp
    show ?thesis
      by (rule put_sound_frame [OF soundD(3) [OF assms(1) u] more]) (use other [OF u False] w in blast)
  qed (use that own puts in simp)
  show "get_sound root d' g" if "dk_gets d' j = Some g" for j g
  proof -
    have g: "dk_gets d j = Some g" using that gets by simp
    from reads [OF this] w show ?thesis by (intro get_sound_frame [OF soundD(4) [OF assms(1) g] more]) blast+
  qed
qed (rule named)

lemma put_soundD:
  assumes "put_sound root d i t" and "pc_inode (pt_pc t) = Some n"
  shows "n < dk_next d" "dk_data d n = wrote (pt_bytes t) (pt_pc t)" "names d n \<subseteq> {tmp_path root (pt_ref t)}"
    "dk_dir d (tmp_path root (pt_ref t)) \<in> {None, Some n}" "writers d n \<subseteq> {i}"
  using assms by (auto simp: put_sound_def)

lemma only_writer:
  assumes "disk_sound root d" and "dk_puts d i = Some t" and "pc_inode (pt_pc t) = Some n"
    and "dk_puts d j = Some u" and "pc_inode (pt_pc u) = Some n"
  shows "j = i"
proof -
  have "j \<in> writers d n" using assms(4,5) by (auto simp: writers_def)
  then show ?thesis using put_soundD(5) [OF soundD(3) [OF assms(1,2)] assms(3)] by blast
qed

lemma reader_apart:
  assumes "disk_sound root d" and "dk_gets d j = Some g"
  shows "dk_puts d i = Some t \<Longrightarrow> pc_inode (pt_pc t) \<noteq> Some (gt_inode g)"
    and "plain_ref a \<Longrightarrow> dk_dir d (tmp_path root a) \<noteq> Some (gt_inode g)"
proof -
  have g: "writers d (gt_inode g) = {}" "names d (gt_inode g) \<subseteq> {shard_path root (gt_ref g)}" "plain_ref (gt_ref g)"
    using soundD(4) [OF assms] by (simp_all add: get_sound_def)
  show "dk_puts d i = Some t \<Longrightarrow> pc_inode (pt_pc t) \<noteq> Some (gt_inode g)" using g(1) by (auto simp: writers_def)
  show "plain_ref a \<Longrightarrow> dk_dir d (tmp_path root a) \<noteq> Some (gt_inode g)"
    using g(2,3) tmp_path_not_shard [of a "gt_ref g" root] by (auto simp: named)
qed

lemma writer_named:
  assumes "disk_sound root d" and "dk_puts d j = Some u" and "pc_inode (pt_pc u) = Some n" and "dk_dir d p = Some n"
  shows "p = tmp_path root (pt_ref u)"
  using put_soundD(3) [OF soundD(3) [OF assms(1,2)] assms(3)] assms(4) by (auto simp: named)

lemma put_plain: "disk_sound root d \<Longrightarrow> dk_puts d i = Some t \<Longrightarrow> plain_ref (pt_ref t)"
  using soundD(3) by (auto simp: put_sound_def)

text \<open>The steps of a put.\<close>

lemma sound_pc:
  assumes "disk_sound root d" and "dk_puts d i = Some t"
    and "pc_inode pc = None \<or> pc_inode pc = pc_inode (pt_pc t) \<and> wrote (pt_bytes t) pc = wrote (pt_bytes t) (pt_pc t)"
  shows "disk_sound root (put_at i t pc d)"
proof (rule sound_put_step [OF assms(1,2), where pc = pc])
  note t = soundD(3) [OF assms(1,2)]
  show "put_sound root (put_at i t pc d) i (t\<lparr>pt_pc := pc\<rparr>)"
    using assms(3) put_soundD [OF t] t by (auto simp: put_sound_def)
qed (use assms(3) only_writer [OF assms(1,2)] reader_apart [OF assms(1)] assms(2) soundD(1,2) [OF assms(1)] in auto)

lemma sound_write:
  assumes "disk_sound root d" and "dk_puts d i = Some t" and "pt_pc t = Writing n k" and "k + m \<le> length (pt_bytes t)"
    and "x = take m (drop k (pt_bytes t))"
  shows "disk_sound root (put_at i t (Writing n (k + m)) (d\<lparr>dk_data := (dk_data d)(n := write_at k x (dk_data d n))\<rparr>))"
    (is "disk_sound root ?d")
proof (rule sound_put_step [OF assms(1,2), where pc = "Writing n (k + m)"])
  have n: "pc_inode (pt_pc t) = Some n" using assms(3) by simp
  note t = put_soundD [OF soundD(3) [OF assms(1,2)] n]
  have "write_at k x (dk_data d n) = take (k + m) (pt_bytes t)"
    using t(2) assms(3-5) by (simp add: write_at_def take_add)
  then show "put_sound root ?d i (t\<lparr>pt_pc := Writing n (k + m)\<rparr>)"
    using t put_plain [OF assms(1,2)] by (auto simp: put_sound_def)
  show "dk_data ?d m' = dk_data d m' \<and> names ?d m' \<subseteq> names d m' \<and>
      dk_dir ?d (tmp_path root (pt_ref u)) \<in> {None, dk_dir d (tmp_path root (pt_ref u))} \<and> pc_inode (Writing n (k + m)) \<noteq> Some m'"
    if "dk_puts d j = Some u" "j \<noteq> i" "pc_inode (pt_pc u) = Some m'" for j u m'
    using only_writer [OF assms(1,2) n that(1)] that(2,3) by auto
  show "dk_data ?d (gt_inode g) = dk_data d (gt_inode g) \<and> names ?d (gt_inode g) \<subseteq> names d (gt_inode g) \<and>
      pc_inode (Writing n (k + m)) \<noteq> Some (gt_inode g)" if "dk_gets d j = Some g" for j g
    using reader_apart(1) [OF assms(1) that assms(2)] n by simp
  show "names ?d m' \<subseteq> {p} \<and> m' < dk_next ?d" if "dk_dir ?d p = Some m'" for p m'
    using soundD(1,2) [OF assms(1), of p m'] that by simp
qed simp_all

lemma sound_rename:
  assumes "disk_sound root d" and "dk_puts d i = Some t" and "pt_pc t = Renaming n"
    and "rename_path (tmp_path root (pt_ref t)) (shard_path root (pt_ref t)) d = Some d'"
  shows "disk_sound root (put_at i t (Finished (Inr ())) d')" "dk_dir d (tmp_path root (pt_ref t)) = Some n"
    "d' = d\<lparr>dk_dir := (dk_dir d)(tmp_path root (pt_ref t) := None, shard_path root (pt_ref t) \<mapsto> n)\<rparr>"
proof -
  let ?tmp = "tmp_path root (pt_ref t)" and ?sh = "shard_path root (pt_ref t)"
  have n: "pc_inode (pt_pc t) = Some n" using assms(3) by simp
  note t = put_soundD [OF soundD(3) [OF assms(1,2)] n] and plain = put_plain [OF assms(1)]
  show dir: "dk_dir d ?tmp = Some n" using t(4) assms(4) by (auto simp: rename_path_def)
  then show d': "d' = d\<lparr>dk_dir := (dk_dir d)(?tmp := None, ?sh \<mapsto> n)\<rparr>" using assms(4) by (simp add: rename_path_def)
  have ns: "names d' m = (if m = n then {?sh} else names d m - {?sh, ?tmp})" for m
    using t(3) tmp_path_not_shard [OF plain plain, OF assms(2) assms(2), of root] unfolding d' by (auto simp: names_def)
  let ?d = "put_at i t (Finished (Inr ())) d'"
  show "disk_sound root ?d"
  proof (rule sound_put_step [OF assms(1,2), where pc = "Finished (Inr ())"])
    show "put_sound root ?d i (t\<lparr>pt_pc := Finished (Inr ())\<rparr>)" using plain [OF assms(2)] by (simp add: put_sound_def)
    show "dk_data ?d m = dk_data d m \<and> names ?d m \<subseteq> names d m \<and>
        dk_dir ?d (tmp_path root (pt_ref u)) \<in> {None, dk_dir d (tmp_path root (pt_ref u))} \<and> pc_inode (Finished (Inr ())) \<noteq> Some m"
      if "dk_puts d j = Some u" "j \<noteq> i" "pc_inode (pt_pc u) = Some m" for j u m
    proof -
      have "m \<noteq> n" using only_writer [OF assms(1,2) n that(1)] that(2,3) by auto
      then show ?thesis using tmp_path_not_shard [OF plain plain, OF that(1) assms(2), of root] by (auto simp: ns) (auto simp: d' split: if_splits)
    qed
    show "dk_data ?d (gt_inode g) = dk_data d (gt_inode g) \<and> names ?d (gt_inode g) \<subseteq> names d (gt_inode g) \<and>
        pc_inode (Finished (Inr ())) \<noteq> Some (gt_inode g)" if "dk_gets d j = Some g" for j g
      using reader_apart(1) [OF assms(1) that assms(2)] n by (auto simp: ns) (simp add: d')
    show "names ?d m \<subseteq> {p} \<and> m < dk_next ?d" if "dk_dir ?d p = Some m" for p m
      using that soundD(1,2) [OF assms(1), of p m] t(1,3) dir by (auto simp: ns) (auto simp: d' named split: if_splits)
  qed (simp_all add: d')
qed

lemma sound_open:
  assumes "disk_sound root d" and "dk_puts d i = Some t" and "pt_pc t = Opening" and "one_writer d"
    and "open_truncated (tmp_path root (pt_ref t)) d = (n, d')"
  shows "disk_sound root (put_at i t (Writing n 0) d')"
    and "\<And>j u. dk_puts d j = Some u \<Longrightarrow> pc_inode (pt_pc u) \<noteq> Some n" and "\<And>j g. dk_gets d j = Some g \<Longrightarrow> gt_inode g \<noteq> n"
    and "\<And>p. p \<noteq> tmp_path root (pt_ref t) \<Longrightarrow> dk_dir d p \<noteq> Some n"
proof -
  let ?tmp = "tmp_path root (pt_ref t)"
  note plain = put_plain [OF assms(1)]
  have d': "dk_dir d' = (dk_dir d)(?tmp \<mapsto> n)" "dk_data d' = (dk_data d)(n := [])" "dk_puts d' = dk_puts d" "dk_gets d' = dk_gets d"
      "dk_next d \<le> dk_next d'" "n < dk_next d'" "dk_dir d ?tmp = Some n \<or> dk_dir d ?tmp = None \<and> n = dk_next d"
    using assms(5) soundD(2) [OF assms(1)] by (auto simp: open_truncated_def Let_def split: option.splits)
  show own: "pc_inode (pt_pc u) \<noteq> Some n" if u: "dk_puts d j = Some u" for j u
  proof
    assume n: "pc_inode (pt_pc u) = Some n"
    then have "n < dk_next d" using put_soundD(1) [OF soundD(3) [OF assms(1) u]] by simp
    then have "dk_dir d ?tmp = Some n" using d'(7) by auto
    then have "pt_ref t = pt_ref u"
      using writer_named [OF assms(1) u n] tmp_path_inject [OF plain plain, OF assms(2) u, of root] by simp
    moreover have "busy t" "busy u" using assms(3) n by (auto simp: busy_def split: put_pc.splits)
    ultimately have "i = j" using assms(2,4) u unfolding one_writer_def by blast
    then show False using assms(2,3) u n by simp
  qed
  show reads: "gt_inode g \<noteq> n" if g: "dk_gets d j = Some g" for j g
    using d'(7) reader_apart(2) [OF assms(1) g plain [OF assms(2)]] soundD(4) [OF assms(1) g] by (auto simp: get_sound_def)
  show other: "dk_dir d p \<noteq> Some n" if "p \<noteq> ?tmp" for p
    using d'(7) that soundD(1,2) [OF assms(1), of p n] by (auto simp: named)
  have ns: "names d' m = (if m = n then {?tmp} else names d m - {?tmp})" for m
    using other by (auto simp: names_def d'(1))
  let ?d = "put_at i t (Writing n 0) d'"
  show "disk_sound root ?d"
  proof (rule sound_put_step [OF assms(1,2), where pc = "Writing n 0"])
    have "writers ?d n \<subseteq> {i}" using own by (auto simp: writers_def d'(3))
    then show "put_sound root ?d i (t\<lparr>pt_pc := Writing n 0\<rparr>)"
      using plain [OF assms(2)] d' unfolding put_sound_def by (simp add: ns)
    show "dk_data ?d m = dk_data d m \<and> names ?d m \<subseteq> names d m \<and>
        dk_dir ?d (tmp_path root (pt_ref u)) \<in> {None, dk_dir d (tmp_path root (pt_ref u))} \<and> pc_inode (Writing n 0) \<noteq> Some m"
      if "dk_puts d j = Some u" "j \<noteq> i" "pc_inode (pt_pc u) = Some m" for j u m
    proof -
      have "busy t" "busy u" using assms(3) that(3) by (auto simp: busy_def split: put_pc.splits)
      then have "pt_ref u \<noteq> pt_ref t" using assms(2,4) that(1,2) unfolding one_writer_def by blast
      then have "tmp_path root (pt_ref u) \<noteq> ?tmp" using tmp_path_inject [OF plain plain, OF that(1) assms(2), of root] by simp
      then show ?thesis using own [OF that(1)] that(3) by (auto simp: ns d')
    qed
    show "dk_data ?d (gt_inode g) = dk_data d (gt_inode g) \<and> names ?d (gt_inode g) \<subseteq> names d (gt_inode g) \<and>
        pc_inode (Writing n 0) \<noteq> Some (gt_inode g)" if "dk_gets d j = Some g" for j g
      using reads [OF that] by (auto simp: ns d')
    show "names ?d m \<subseteq> {p} \<and> m < dk_next ?d" if "dk_dir ?d p = Some m" for p m
      using that soundD(1,2) [OF assms(1), of p m] d'(5,6) other by (auto simp: ns d'(1) split: if_splits)
  qed (use d' in simp_all)
qed

text \<open>The other steps.\<close>

lemma sound_new_put:
  assumes "disk_sound root d" and "dk_puts d i = None" and "plain_ref at"
  shows "disk_sound root (d\<lparr>dk_puts := (dk_puts d)(i \<mapsto> \<lparr>pt_ref = at, pt_bytes = bs, pt_pc = Creating\<rparr>)\<rparr>)" (is "disk_sound root ?d")
proof (rule disk_soundI)
  have w: "writers ?d n = writers d n" for n using assms(2) by (auto simp: writers_def)
  show "put_sound root ?d j u" if "dk_puts ?d j = Some u" for j u
  proof (cases "j = i")
    case False
    then have "put_sound root d j u" using that soundD(3) [OF assms(1)] by simp
    then show ?thesis by (rule put_sound_frame) (simp_all add: w)
  qed (use that assms(3) in \<open>auto simp: put_sound_def\<close>)
  show "get_sound root ?d g" if "dk_gets ?d j = Some g" for j g
    by (rule get_sound_frame [OF soundD(4) [OF assms(1), of j g]]) (use that in \<open>simp_all add: w\<close>)
qed (use soundD(1,2) [OF assms(1)] in simp)

lemma sound_unlink:
  assumes "disk_sound root d"
  shows "disk_sound root (d\<lparr>dk_dir := (dk_dir d)(p := None)\<rparr>)" (is "disk_sound root ?d")
proof (rule disk_soundI)
  show "put_sound root ?d j u" if "dk_puts ?d j = Some u" for j u
    by (rule put_sound_frame [OF soundD(3) [OF assms, of j u]]) (use that in auto)
  show "get_sound root ?d g" if "dk_gets ?d j = Some g" for j g
    by (rule get_sound_frame [OF soundD(4) [OF assms, of j g]]) (use that in auto)
qed (use soundD(1,2) [OF assms] in \<open>auto split: if_splits\<close>)

lemma sound_gets:
  assumes "disk_sound root d" and "\<And>j g. gs j = Some g \<Longrightarrow> get_sound root d g"
  shows "disk_sound root (d\<lparr>dk_gets := gs\<rparr>)"
proof (rule disk_soundI)
  show "put_sound root (d\<lparr>dk_gets := gs\<rparr>) j u" if "dk_puts (d\<lparr>dk_gets := gs\<rparr>) j = Some u" for j u
    by (rule put_sound_frame [OF soundD(3) [OF assms(1), of j u]]) (use that in auto)
  show "get_sound root (d\<lparr>dk_gets := gs\<rparr>) g" if "dk_gets (d\<lparr>dk_gets := gs\<rparr>) j = Some g" for j g
    by (rule get_sound_frame [OF assms(2) [of j g]]) (use that in auto)
qed (use soundD(1,2) [OF assms(1)] in simp)

lemma step_sound:
  assumes "disk_step root d e d'" and "disk_sound root d" and "one_writer d"
  shows "disk_sound root d'"
  using assms
proof cases
  case (Open i t n d1)
  then show ?thesis using sound_open(1) assms(2,3) by blast
next
  case (Close i t n)
  then show ?thesis using assms(2) by (auto intro!: sound_pc)
next
  case (OpenRead j at n)
  have "names d n \<subseteq> {shard_path root at}" "n < dk_next d" using soundD(1,2) [OF assms(2) OpenRead(5)] by simp_all
  moreover have "writers d n = {}"
    using writer_named [OF assms(2) _ _ OpenRead(5)] put_plain [OF assms(2)] tmp_path_not_shard [OF _ OpenRead(4), of _ root]
    by (fastforce simp: writers_def)
  ultimately have "get_sound root d \<lparr>gt_ref = at, gt_inode = n, gt_got = []\<rparr>" using OpenRead(4) by (simp add: get_sound_def)
  then show ?thesis using OpenRead(2) soundD(4) [OF assms(2)] by (auto intro!: sound_gets [OF assms(2)] split: if_splits)
next
  case (Read j g x m)
  have g: "get_sound root d g" using soundD(4) [OF assms(2) Read(3)] .
  then obtain r where "dk_data d (gt_inode g) = gt_got g @ r" by (auto simp: get_sound_def prefix_def)
  then have "prefix (gt_got g @ x) (dk_data d (gt_inode g))" using Read(4) by (simp add: take_is_prefix)
  then have "get_sound root d (g\<lparr>gt_got := gt_got g @ x\<rparr>)" using g by (simp add: get_sound_def)
  then show ?thesis using Read(2) soundD(4) [OF assms(2)] by (auto intro!: sound_gets [OF assms(2)] split: if_splits)
next
  case (EndOfFile j g)
  then show ?thesis using soundD(4) [OF assms(2)] by (auto intro!: sound_gets [OF assms(2)] split: if_splits)
next
  case (Rename i t n d1)
  then show ?thesis using sound_rename(1) assms(2) by blast
qed (use assms(2) in \<open>auto intro: sound_new_put sound_pc sound_write sound_unlink\<close>)

section \<open>The disk behaves as the atomic anchor\<close>

lemma shelf_eqI: "(\<And>at. sf_view s at = sf_view s' at) \<Longrightarrow> sf_reads s = sf_reads s' \<Longrightarrow> s = (s' :: shelf)"
  by (simp add: fun_eq_iff)

lemma shelf_frame:
  assumes "\<And>at. plain_ref at \<Longrightarrow> dk_dir d' (shard_path root at) = dk_dir d (shard_path root at)"
    and "\<And>at n. plain_ref at \<Longrightarrow> dk_dir d (shard_path root at) = Some n \<Longrightarrow> dk_data d' n = dk_data d n"
    and "\<And>j g. dk_gets d j = Some g \<Longrightarrow> dk_data d' (gt_inode g) = dk_data d (gt_inode g)"
    and "\<And>j. map_option (\<lambda>g. (gt_ref g, gt_inode g)) (dk_gets d' j) = map_option (\<lambda>g. (gt_ref g, gt_inode g)) (dk_gets d j)"
  shows "shelf_of root d' = shelf_of root d"
proof -
  have "sf_view (shelf_of root d') at = sf_view (shelf_of root d) at" for at
    using assms(1,2) [of at] by (cases "dk_dir d (shard_path root at)") (simp_all add: shelf_of_def)
  moreover have "sf_reads (shelf_of root d') j = sf_reads (shelf_of root d) j" for j
    using assms(3) [of j] assms(4) [of j] by (cases "dk_gets d j"; cases "dk_gets d' j") (simp_all add: shelf_of_def)
  ultimately show ?thesis by (intro shelf_eqI ext)
qed

lemma shelf_put_at [simp]: "shelf_of root (put_at i t pc d) = shelf_of root d"
  by (rule shelf_frame) simp_all

lemma step_shelf:
  assumes "disk_step root d e d'" and "disk_sound root d" and "one_writer d"
  shows "shelf_step (shelf_of root d) e = Some (shelf_of root d')"
  using assms
proof cases
  case (Put i at bs)
  then show ?thesis by (auto intro!: shelf_frame)
next
  case (Open i t n d1)
  note fresh = sound_open(2-4) [OF assms(2) Open(3,4) assms(3) Open(5)]
  have d1: "dk_dir d1 = (dk_dir d)(tmp_path root (pt_ref t) \<mapsto> n)" "dk_data d1 = (dk_data d)(n := [])" "dk_gets d1 = dk_gets d"
    using Open(5) by (auto simp: open_truncated_def Let_def split: option.splits)
  have apart: "shard_path root at \<noteq> tmp_path root (pt_ref t)" if "plain_ref at" for at
    using tmp_path_not_shard [OF put_plain [OF assms(2) Open(3)] that, of root] by metis
  have "shelf_of root d1 = shelf_of root d"
    by (rule shelf_frame) (use fresh(2,3) apart in \<open>auto simp: d1\<close>)
  then show ?thesis using Open(1,2) by simp
next
  case (Write i t n k m x)
  have n: "pc_inode (pt_pc t) = Some n" using Write(4) by simp
  have "dk_dir d (shard_path root at) \<noteq> Some n" if "plain_ref at" for at
    using writer_named [OF assms(2) Write(3) n] tmp_path_not_shard [OF put_plain [OF assms(2) Write(3)] that, of root] by metis
  then have "shelf_of root (d\<lparr>dk_data := (dk_data d)(n := write_at k x (dk_data d n))\<rparr>) = shelf_of root d"
    by (intro shelf_frame) (use reader_apart(1) [OF assms(2) _ Write(3)] n in auto)
  then show ?thesis using Write(1,2) by simp
next
  case (Rename i t n d1)
  note r = sound_rename(2,3) [OF assms(2) Rename(3-5)] and plain = put_plain [OF assms(2) Rename(3)]
  have "dk_data d n = pt_bytes t" using put_soundD(2) [OF soundD(3) [OF assms(2) Rename(3)], of n] Rename(4) by simp
  then have "sf_view (shelf_of root d1) at = ((sf_view (shelf_of root d))(pt_ref t \<mapsto> pt_bytes t)) at" for at
    using shard_path_inject [OF _ plain, of at root] tmp_path_not_shard [OF plain, of at root] plain
    by (cases "plain_ref at") (auto simp: shelf_of_def r(2))
  moreover have "sf_reads (shelf_of root d1) = sf_reads (shelf_of root d)" by (simp add: shelf_of_def r(2))
  ultimately have "shelf_of root d1 = (shelf_of root d)\<lparr>sf_view := (sf_view (shelf_of root d))(pt_ref t \<mapsto> pt_bytes t)\<rparr>"
    by (intro shelf_eqI) simp_all
  then show ?thesis using Rename(1,2) by simp
next
  case (Unlink at)
  have "sf_view (shelf_of root d') s = ((sf_view (shelf_of root d))(at := None)) s" for s
    using shard_path_inject [of s at root] Unlink(3) by (auto simp: shelf_of_def Unlink(2))
  moreover have "sf_reads (shelf_of root d') = sf_reads (shelf_of root d)" by (simp add: shelf_of_def Unlink(2))
  ultimately have "shelf_of root d' = (shelf_of root d)\<lparr>sf_view := (sf_view (shelf_of root d))(at := None)\<rparr>"
    by (intro shelf_eqI) simp_all
  then show ?thesis using Unlink(1) by simp
next
  case (UnlinkTmp at)
  have "shelf_of root d' = shelf_of root d"
    unfolding UnlinkTmp(2) by (rule shelf_frame) (use tmp_path_not_shard [OF UnlinkTmp(3), of _ root, THEN not_sym] in auto)
  then show ?thesis using UnlinkTmp(1) by simp
next
  case (OpenRead j at n)
  then show ?thesis by (auto simp: shelf_of_def fun_eq_iff)
next
  case (Read j g x m)
  have "shelf_of root d' = shelf_of root d" unfolding Read(2) by (rule shelf_frame) (use Read(3) in auto)
  then show ?thesis using Read(1) by simp
next
  case (EndOfFile j g)
  have "prefix (gt_got g) (dk_data d (gt_inode g))" using soundD(4) [OF assms(2) EndOfFile(3)] by (simp add: get_sound_def)
  then have "gt_got g = dk_data d (gt_inode g)" using EndOfFile(4) by (auto simp: prefix_def)
  then show ?thesis using EndOfFile by (auto simp: shelf_of_def fun_eq_iff)
qed (simp_all, simp add: shelf_of_def)

lemma shelf_run_snoc: "shelf_run s (es @ [e]) = Option.bind (shelf_run s es) (\<lambda>s'. shelf_step s' e)"
  by (induction es arbitrary: s) (auto split: option.splits)

lemma run_shelf:
  assumes "disk_run root one_writer d es d'" and "disk_sound root d" and "one_writer d"
  shows "shelf_run (shelf_of root d) es = Some (shelf_of root d') \<and> disk_sound root d' \<and> one_writer d'"
  using assms
proof (induction rule: disk_run.induct)
  case (Step d es d1 e d2)
  then show ?case using step_sound step_shelf by (simp add: shelf_run_snoc)
qed simp

text \<open>A disk with shards on it and nothing going on.\<close>

definition quiet :: "disk \<Rightarrow> bool" where
  "quiet d \<longleftrightarrow> named_once d \<and> dk_puts d = Map.empty \<and> dk_gets d = Map.empty"

lemma quiet_sound: "quiet d \<Longrightarrow> disk_sound root d \<and> one_writer d"
  by (simp add: quiet_def disk_sound_def one_writer_def)

text \<open>
  C11. Atomicity.  However the system calls of puts, gets and deletes interleave and wherever they fail,
  as long as no two puts of the same shard are in progress at once, every run of the disk is a run of
  the anchor whose operations are atomic: a put takes effect as a whole when it renames its file and
  reports success, and a get returns the whole shard as it was when the file was opened, never a part of
  it or a mixture.
\<close>

theorem concurrent_anchor_atomic:
  assumes "disk_run root one_writer d es d'" and "quiet d"
  shows "shelf_run (shelf_of root d) es = Some (shelf_of root d')"
  using run_shelf [OF assms(1)] quiet_sound [OF assms(2)] by simp

text \<open>Two puts of the same shard share a temporary file.\<close>

definition empty_disk :: disk where
  "empty_disk = \<lparr>dk_dir = Map.empty, dk_data = (\<lambda>_. []), dk_next = 0, dk_puts = Map.empty, dk_gets = Map.empty\<rparr>"

text \<open>A schedule of calls, run one after the other.\<close>

datatype disk_op = CPut nat shard_ref bytes | CDir nat | COpen nat | CWrite nat nat | CClose nat | CRename nat
  | COpenRead nat shard_ref | CRead nat nat | CEnd nat

fun call_put :: "path \<Rightarrow> disk_op \<Rightarrow> nat \<Rightarrow> put_task \<Rightarrow> disk \<Rightarrow> (disk_event \<times> disk) option" where
  "call_put root (CDir _) i t d = (if pt_pc t = Creating then Some (Silent, put_at i t Opening d) else None)"
| "call_put root (COpen _) i t d = (if pt_pc t = Opening
     then (case open_truncated (tmp_path root (pt_ref t)) d of (n, d') \<Rightarrow> Some (Silent, put_at i t (Writing n 0) d')) else None)"
| "call_put root (CWrite _ m) i t d = (case pt_pc t of
       Writing n k \<Rightarrow> if k + m \<le> length (pt_bytes t)
         then Some (Silent, put_at i t (Writing n (k + m))
           (d\<lparr>dk_data := (dk_data d)(n := write_at k (take m (drop k (pt_bytes t))) (dk_data d n))\<rparr>)) else None
     | _ \<Rightarrow> None)"
| "call_put root (CClose _) i t d = (case pt_pc t of
       Writing n k \<Rightarrow> if k = length (pt_bytes t) then Some (Silent, put_at i t (Renaming n) d) else None
     | _ \<Rightarrow> None)"
| "call_put root (CRename _) i t d = (case pt_pc t of
       Renaming n \<Rightarrow> (case rename_path (tmp_path root (pt_ref t)) (shard_path root (pt_ref t)) d of
           Some d' \<Rightarrow> Some (Stored (pt_ref t) (pt_bytes t), put_at i t (Finished (Inr ())) d')
         | None \<Rightarrow> Some (Silent, put_at i t (Finished (Inl (fs_backend IoNotFound))) d))
     | _ \<Rightarrow> None)"
| "call_put root _ i t d = None"

fun call_of :: "disk_op \<Rightarrow> nat" where
  "call_of (CDir i) = i" | "call_of (COpen i) = i" | "call_of (CWrite i m) = i" | "call_of (CClose i) = i" | "call_of (CRename i) = i"
| "call_of (CPut i at bs) = i" | "call_of (COpenRead i at) = i" | "call_of (CRead i m) = i" | "call_of (CEnd i) = i"

fun disk_call :: "path \<Rightarrow> disk_op \<Rightarrow> disk \<Rightarrow> (disk_event \<times> disk) option" where
  "disk_call root (CPut i at bs) d = (if dk_puts d i = None \<and> plain_ref at
     then Some (Silent, d\<lparr>dk_puts := (dk_puts d)(i \<mapsto> \<lparr>pt_ref = at, pt_bytes = bs, pt_pc = Creating\<rparr>)\<rparr>) else None)"
| "disk_call root (COpenRead j at) d = (if dk_gets d j = None \<and> plain_ref at
     then (case dk_dir d (shard_path root at) of
         Some n \<Rightarrow> Some (Opened j at, d\<lparr>dk_gets := (dk_gets d)(j \<mapsto> \<lparr>gt_ref = at, gt_inode = n, gt_got = []\<rparr>)\<rparr>)
       | None \<Rightarrow> Some (Missing at, d)) else None)"
| "disk_call root (CRead j m) d = (case dk_gets d j of
       Some g \<Rightarrow> Some (Silent, d\<lparr>dk_gets := (dk_gets d)(j \<mapsto> g\<lparr>gt_got := gt_got g @
         take m (drop (length (gt_got g)) (dk_data d (gt_inode g)))\<rparr>)\<rparr>)
     | None \<Rightarrow> None)"
| "disk_call root (CEnd j) d = (case dk_gets d j of
       Some g \<Rightarrow> if length (dk_data d (gt_inode g)) \<le> length (gt_got g)
         then Some (Got j (gt_ref g) (gt_got g), d\<lparr>dk_gets := (dk_gets d)(j := None)\<rparr>) else None
     | None \<Rightarrow> None)"
| "disk_call root c d = (case dk_puts d (call_of c) of Some t \<Rightarrow> call_put root c (call_of c) t d | None \<Rightarrow> None)"

fun disk_calls :: "path \<Rightarrow> disk_op list \<Rightarrow> disk \<Rightarrow> (disk_event list \<times> disk) option" where
  "disk_calls root [] d = Some ([], d)"
| "disk_calls root (c # cs) d = (case disk_call root c d of
       Some (e, d') \<Rightarrow> map_option (\<lambda>(es, d''). (e # es, d'')) (disk_calls root cs d')
     | None \<Rightarrow> None)"

lemma disk_call_step: "disk_call root c d = Some (e, d') \<Longrightarrow> disk_step root d e d'"
  by (cases c) (auto split: if_splits option.splits put_pc.splits prod.splits intro: disk_step.intros)

lemma disk_run_trans: "disk_run root ok d1 fs d2 \<Longrightarrow> disk_run root ok d es d1 \<Longrightarrow> disk_run root ok d (es @ fs) d2"
  by (induction rule: disk_run.induct) (auto intro: disk_run.Step simp flip: append_assoc)

lemma disk_calls_run:
  assumes "disk_calls root cs d = Some (es, d')" and "kept d"
    and "\<And>c d e d'. c \<in> set cs \<Longrightarrow> disk_call root c d = Some (e, d') \<Longrightarrow> kept d \<Longrightarrow> kept d'" and "\<And>d. kept d \<Longrightarrow> ok d"
  shows "disk_run root ok d es d'"
  using assms(1-3)
proof (induction cs arbitrary: d es)
  case (Cons c cs)
  then obtain e d1 es1 where c: "disk_call root c d = Some (e, d1)" "disk_calls root cs d1 = Some (es1, d')" "es = e # es1"
    by (auto split: option.splits)
  have d1: "kept d1" using Cons.prems(2,3) c(1) by auto
  have "disk_run root ok d1 es1 d'" using Cons.IH [OF c(2) d1] Cons.prems(3) by auto
  from disk_run_trans [OF this disk_run.Step [OF disk_run.Start disk_call_step [OF c(1)]]] d1 assms(4) show ?case by (simp add: c(3))
qed (auto intro: disk_run.Start)

lemma solo_call: "disk_call root c d = Some (e, d') \<Longrightarrow> call_of c = i \<Longrightarrow>
    \<forall>j. j \<noteq> i \<longrightarrow> dk_puts d j = None \<Longrightarrow> \<forall>j. j \<noteq> i \<longrightarrow> dk_puts d' j = None"
  by (cases c) (auto simp: open_truncated_def rename_path_def Let_def split: if_splits option.splits put_pc.splits)

lemma solo_writer: "\<forall>j. j \<noteq> i \<longrightarrow> dk_puts d j = None \<Longrightarrow> one_writer d"
  unfolding one_writer_def by (metis option.distinct(1))

lemma quiet_empty_disk: "quiet empty_disk"
  by (simp add: quiet_def empty_disk_def named_once_def)

text \<open>Alone, the calls of a put do what the sequential model of the anchor says.\<close>

definition disk_files :: "disk \<Rightarrow> path \<rightharpoonup> bytes" where
  "disk_files d p = map_option (dk_data d) (dk_dir d p)"

lemma solo_put_agrees:
  assumes "plain_ref at" and "quiet d" and "fs_file f = disk_files d" and "fs_put_shard root at x f = (Inr (), f')"
  obtains es d' where "disk_calls root [CPut 0 at x, CDir 0, COpen 0, CWrite 0 (length x), CClose 0, CRename 0] d = Some (es, d')"
    and "fs_file f' = disk_files d'"
proof -
  let ?tmp = "tmp_path root at" and ?sh = "shard_path root at"
  have apart: "?sh \<noteq> ?tmp" using tmp_path_not_shard [OF assms(1,1), of root] by metis
  have "fs_file f' = (fs_file f)(?tmp := None, ?sh \<mapsto> x)"
    using assms(4) apart by (auto simp: fs_put_shard_def Let_def fs_create_dir_all_def fs_write_def fs_rename_def tmp_path_def
        io_bind_def io_map_err_def io_return_def fun_eq_iff split: option.splits if_splits)
  then have f': "fs_file f' = (disk_files d)(?tmp := None, ?sh \<mapsto> x)" by (simp add: assms(3))
  have once: "\<And>p n. dk_dir d p = Some n \<Longrightarrow> n \<noteq> dk_next d" "\<And>p n. dk_dir d ?tmp = Some n \<Longrightarrow> p \<noteq> ?tmp \<Longrightarrow> dk_dir d p \<noteq> Some n"
    using assms(2) by (auto simp: quiet_def named_once_def named)
  show thesis
  proof (cases "dk_dir d ?tmp")
    case None
    have "map_option ((dk_data d)(dk_next d := y)) (dk_dir d p) = map_option (dk_data d) (dk_dir d p)" for y p
      using once(1) by (cases "dk_dir d p") auto
    with None show thesis
      using assms(1,2) apart f'
      by (intro that) (auto simp: quiet_def open_truncated_def rename_path_def write_at_def disk_files_def fun_eq_iff Let_def split: option.splits)
  next
    case (Some n)
    have "map_option ((dk_data d)(n := y)) (dk_dir d p) = map_option (dk_data d) (dk_dir d p)" if "p \<noteq> ?tmp" for y p
      using once(2) [OF Some that] by (cases "dk_dir d p") auto
    with Some show thesis
      using assms(1,2) apart f'
      by (intro that) (auto simp: quiet_def open_truncated_def rename_path_def write_at_def disk_files_def fun_eq_iff split: option.splits)
  qed
qed

theorem concurrent_anchor_atomic_witness:
  "let at = \<lparr>sr_namespace = NamespaceId ''n'', sr_blob_id = BlobId ''b'', sr_index = 0\<rparr> in
   \<exists>es d'. disk_run [''data''] one_writer empty_disk es d' \<and> Stored at [1, 2, 3] \<in> set es \<and> Got 0 at [1, 2, 3] \<in> set es \<and>
     shelf_run (shelf_of [''data''] empty_disk) es = Some (shelf_of [''data''] d')"
proof -
  let ?at = "\<lparr>sr_namespace = NamespaceId ''n'', sr_blob_id = BlobId ''b'', sr_index = 0\<rparr>"
  let ?cs = "[CPut 0 ?at [1, 2, 3], CDir 0, COpen 0, CWrite 0 2, CWrite 0 1, CClose 0, CRename 0, COpenRead 0 ?at, CRead 0 1, CRead 0 5, CEnd 0]"
  have plain: "plain_ref ?at" by (simp add: plain_ref_def plain_id_def)
  then have "shard_path [''data''] ?at \<noteq> tmp_path [''data''] ?at" using tmp_path_not_shard by metis
  with plain obtain es d' where run: "disk_calls [''data''] ?cs empty_disk = Some (es, d')" "Stored ?at [1, 2, 3] \<in> set es" "Got 0 ?at [1, 2, 3] \<in> set es"
    by (simp add: empty_disk_def open_truncated_def rename_path_def put_at_def write_at_def)
  have "disk_run [''data''] one_writer empty_disk es d'"
    by (rule disk_calls_run [where kept = "\<lambda>d. \<forall>j. j \<noteq> 0 \<longrightarrow> dk_puts d j = None", OF run(1) _ solo_call solo_writer]) (auto simp: empty_disk_def)
  with run concurrent_anchor_atomic [OF this quiet_empty_disk] show ?thesis unfolding Let_def by blast
qed

text \<open>
  C39. The temporary file protects against readers, not against a second writer.  Two puts of the same
  shard, even of the same bytes, can interleave so that one of them reports success while the shard is
  empty, a get returns the empty file, and the other put fails although nothing was wrong with the disk.
\<close>

theorem overlapping_puts_torn:
  assumes "plain_ref at"
  shows "\<exists>es d'. disk_run root (\<lambda>_. True) empty_disk (es @ [Got 0 at []]) d' \<and> Stored at bs \<in> set es \<and> Removed at \<notin> set es \<and>
    dk_puts d' 0 = Some \<lparr>pt_ref = at, pt_bytes = bs, pt_pc = Finished (Inr ())\<rparr> \<and>
    (\<exists>es2 d2. disk_run root (\<lambda>_. True) d' es2 d2 \<and>
       dk_puts d2 1 = Some \<lparr>pt_ref = at, pt_bytes = bs, pt_pc = Finished (Inl (fs_backend IoNotFound))\<rparr>)"
proof -
  have apart: "shard_path root at \<noteq> tmp_path root at" using tmp_path_not_shard [OF assms assms, of root] by metis
  let ?cs = "[CPut 0 at bs, CPut 1 at bs, CDir 0, CDir 1, COpen 0, CWrite 0 (length bs), CClose 0, COpen 1, CRename 0, COpenRead 0 at, CEnd 0]"
  let ?cs2 = "[CWrite 1 (length bs), CClose 1, CRename 1]"
  obtain es d' where first: "disk_calls root ?cs empty_disk = Some (es @ [Got 0 at []], d')" "Stored at bs \<in> set es" "Removed at \<notin> set es"
    "dk_puts d' 0 = Some \<lparr>pt_ref = at, pt_bytes = bs, pt_pc = Finished (Inr ())\<rparr>"
    "dk_puts d' 1 = Some \<lparr>pt_ref = at, pt_bytes = bs, pt_pc = Writing 0 0\<rparr>" "dk_dir d' (tmp_path root at) = None"
    using assms apart by (simp add: empty_disk_def open_truncated_def rename_path_def put_at_def write_at_def)
  obtain es2 d2 where "disk_calls root ?cs2 d' = Some (es2, d2)"
    "dk_puts d2 1 = Some \<lparr>pt_ref = at, pt_bytes = bs, pt_pc = Finished (Inl (fs_backend IoNotFound))\<rparr>"
    using first(5,6) by (simp add: rename_path_def put_at_def)
  with first show ?thesis by (blast intro: disk_calls_run [where kept = "\<lambda>_. True"])
qed

theorem overlapping_puts_torn_witness:
  "let at = \<lparr>sr_namespace = NamespaceId ''n'', sr_blob_id = BlobId ''b'', sr_index = 0\<rparr> in
   \<exists>es d' e2 d2. disk_run [''data''] (\<lambda>_. True) empty_disk (es @ [Got 0 at []]) d' \<and> Stored at [1, 2, 3] \<in> set es \<and>
     Removed at \<notin> set es \<and> disk_run [''data''] (\<lambda>_. True) d' e2 d2 \<and>
     dk_puts d2 1 = Some \<lparr>pt_ref = at, pt_bytes = [1, 2, 3], pt_pc = Finished (Inl (fs_backend IoNotFound))\<rparr>"
proof -
  have "plain_ref \<lparr>sr_namespace = NamespaceId ''n'', sr_blob_id = BlobId ''b'', sr_index = 0\<rparr>"
    by (simp add: plain_ref_def plain_id_def)
  from overlapping_puts_torn [OF this, of "[''data'']" "[1, 2, 3]"] show ?thesis unfolding Let_def by blast
qed

end
