(* ===== verification/Quic_Server.thy ===== *)
theory Quic_Server
  imports Quic_Wire Blob_Fs
begin

text \<open>
  The shard server as it runs, \<^verbatim>\<open>crates/adapter-quic/src/server.rs\<close>: the accept loop, a task per connection
  and a task per stream.  Tasks interleave freely; the anchor is shared with the node itself.  The
  handshake, the delivery of a frame and the loss of a connection are decided by the environment.
\<close>

section \<open>Tasks\<close>

datatype conn_task = Handshaking | Connected | Closed

datatype stream_task = Receiving | Replying bytes | Replied

record 'w shard_server =
  ss_store :: 'w
  ss_accepting :: bool
  ss_conns :: "nat \<rightharpoonup> conn_task"
  ss_streams :: "nat \<times> nat \<rightharpoonup> stream_task"

datatype server_event =
    Internal
  | Established nat
  | StreamServed nat nat bytes bytes
  | LocalPut shard_ref
  | LocalDelete namespace_id blob_id

text \<open>
  \<open>Accept\<close> and \<open>Stop\<close> are the loop of \<^verbatim>\<open>run\<close>, \<open>Establish\<close> to \<open>Drop\<close> are \<^verbatim>\<open>handle_conn\<close>, the next three
  \<^verbatim>\<open>handle_stream\<close>: a frame is read and served, or reading fails, and the reply is written (the outcome of
  the write is ignored).  The last two are the node's own use of the anchor.
\<close>

inductive server_step :: "'w blob_anchor \<Rightarrow> 'w shard_server \<Rightarrow> server_event \<Rightarrow> 'w shard_server \<Rightarrow> bool" for ba where
  Accept: "ss_accepting st \<Longrightarrow> ss_conns st c = None \<Longrightarrow>
    server_step ba st Internal (st\<lparr>ss_conns := (ss_conns st)(c \<mapsto> Handshaking)\<rparr>)"
| Stop: "server_step ba st Internal (st\<lparr>ss_accepting := False\<rparr>)"
| Establish: "ss_conns st c = Some Handshaking \<Longrightarrow>
    server_step ba st (Established c) (st\<lparr>ss_conns := (ss_conns st)(c \<mapsto> Connected)\<rparr>)"
| Refuse: "ss_conns st c = Some Handshaking \<Longrightarrow>
    server_step ba st Internal (st\<lparr>ss_conns := (ss_conns st)(c \<mapsto> Closed)\<rparr>)"
| AcceptStream: "ss_conns st c = Some Connected \<Longrightarrow> ss_streams st (c, s) = None \<Longrightarrow>
    server_step ba st Internal (st\<lparr>ss_streams := (ss_streams st)((c, s) \<mapsto> Receiving)\<rparr>)"
| Drop: "ss_conns st c = Some Connected \<Longrightarrow>
    server_step ba st Internal (st\<lparr>ss_conns := (ss_conns st)(c \<mapsto> Closed)\<rparr>)"
| Serve: "ss_streams st (c, s) = Some Receiving \<Longrightarrow> handle_stream ba buf (ss_store st) = (resp, w) \<Longrightarrow>
    server_step ba st (StreamServed c s buf resp) (st\<lparr>ss_store := w, ss_streams := (ss_streams st)((c, s) \<mapsto> Replying resp)\<rparr>)"
| ReadFailed: "ss_streams st (c, s) = Some Receiving \<Longrightarrow>
    server_step ba st Internal (st\<lparr>ss_streams := (ss_streams st)((c, s) \<mapsto> Replying (encode_response ST_ERR []))\<rparr>)"
| Reply: "ss_streams st (c, s) = Some (Replying resp) \<Longrightarrow>
    server_step ba st Internal (st\<lparr>ss_streams := (ss_streams st)((c, s) \<mapsto> Replied)\<rparr>)"
| OwnPut: "plain_ref at \<Longrightarrow> ba_put_shard ba at bs (ss_store st) = (r, w) \<Longrightarrow>
    server_step ba st (LocalPut at) (st\<lparr>ss_store := w\<rparr>)"
| OwnDelete: "plain_id (ns_str ns) \<Longrightarrow> plain_id (blob_str b) \<Longrightarrow> ba_delete_blob ba ns b (ss_store st) = (r, w) \<Longrightarrow>
    server_step ba st (LocalDelete ns b) (st\<lparr>ss_store := w\<rparr>)"

inductive server_run :: "'w blob_anchor \<Rightarrow> 'w shard_server \<Rightarrow> server_event list \<Rightarrow> 'w shard_server \<Rightarrow> bool" for ba where
  Begin: "server_run ba st [] st"
| Next: "server_run ba st es st1 \<Longrightarrow> server_step ba st1 e st2 \<Longrightarrow> server_run ba st (es @ [e]) st2"

inductive_cases server_run_NilE: "server_run ba st [] st'"

text \<open>\<^verbatim>\<open>bind\<close> gives a server that accepts and serves nobody yet.\<close>

definition shard_server_new :: "'w \<Rightarrow> 'w shard_server" where
  "shard_server_new w = \<lparr>ss_store = w, ss_accepting = True, ss_conns = Map.empty, ss_streams = Map.empty\<rparr>"

section \<open>Who is served\<close>

text \<open>
  Every stream belongs to a connection whose handshake was completed; a stream is served once, so it is
  no longer receiving afterwards.
\<close>

definition accounted :: "server_event list \<Rightarrow> 'w shard_server \<Rightarrow> bool" where
  "accounted es st \<longleftrightarrow> (\<forall>c. ss_conns st c = Some Connected \<longrightarrow> Established c \<in> set es) \<and>
     (\<forall>c s. ss_streams st (c, s) \<noteq> None \<longrightarrow> Established c \<in> set es) \<and>
     (\<forall>c s buf r. StreamServed c s buf r \<in> set es \<longrightarrow> ss_streams st (c, s) \<notin> {None, Some Receiving})"

lemma step_accounted: "server_step ba st e st' \<Longrightarrow> accounted es st \<Longrightarrow> accounted (es @ [e]) st'"
  by (induction rule: server_step.induct) (auto simp: accounted_def split: if_splits, metis option.distinct(1))

lemma run_accounted: "server_run ba st es st' \<Longrightarrow> st = shard_server_new w \<Longrightarrow> accounted es st'"
proof (induction rule: server_run.induct)
  case (Begin st)
  then show ?case by (simp add: accounted_def shard_server_new_def)
qed (auto intro: step_accounted)

lemma run_last:
  assumes "server_run ba st (es @ [e]) st'"
  obtains st1 where "server_run ba st es st1" and "server_step ba st1 e st'"
  using assms by (cases rule: server_run.cases) auto

lemma run_split: "server_run ba st es st' \<Longrightarrow> es = fs @ gs \<Longrightarrow> \<exists>m. server_run ba st fs m \<and> server_run ba m gs st'"
proof (induction arbitrary: gs rule: server_run.induct)
  case (Next st es st1 e st2)
  show ?case
  proof (cases gs rule: rev_cases)
    case Nil
    then show ?thesis using Next by (auto intro: server_run.intros)
  next
    case (snoc hs e')
    then obtain m where "server_run ba st fs m" "server_run ba m hs st1" using Next by auto
    then show ?thesis using Next snoc by (auto intro: server_run.Next)
  qed
qed (auto intro: server_run.Begin)

lemma served_accounted:
  assumes "server_run ba (shard_server_new w) (es @ [StreamServed c s buf r]) st'"
  shows "Established c \<in> set es" and "StreamServed c s buf' r' \<notin> set es"
proof -
  obtain st1 where run: "server_run ba (shard_server_new w) es st1" and last: "server_step ba st1 (StreamServed c s buf r) st'"
    using assms by (rule run_last)
  have acc: "accounted es st1" using run_accounted [OF run refl] .
  have "ss_streams st1 (c, s) = Some Receiving" using last by cases auto
  with acc show "Established c \<in> set es" "StreamServed c s buf' r' \<notin> set es" unfolding accounted_def by (blast, blast)
qed

section \<open>What is served\<close>

text \<open>An event that may change a shard: a put for it, or for ids that are no plain names, or its deletion.\<close>

definition disturbs :: "shard_ref \<Rightarrow> server_event \<Rightarrow> bool" where
  "disturbs at e \<longleftrightarrow> (case e of
       StreamServed c s buf r \<Rightarrow> (case parse_request buf of
           Some (oper, key, payload) \<Rightarrow> oper = OP_PUT \<and> (case parse_key key of Some q \<Rightarrow> q = at \<or> \<not> plain_ref q | None \<Rightarrow> False)
         | None \<Rightarrow> False)
     | LocalPut q \<Rightarrow> q = at
     | LocalDelete ns b \<Rightarrow> sr_namespace at = ns \<and> sr_blob_id at = b
     | _ \<Rightarrow> False)"

context anchor_laws
begin

lemma get_view: "ba_get_shard ba q w = (r, w') \<Longrightarrow> aview w' = aview w"
  using get_keeps keepsD by fast

lemma put_other:
  assumes "plain_ref q" and "ba_put_shard ba q x w = (r, w')" and "at \<noteq> q"
  shows "aview w' at = aview w at"
  using assms put_stored put_failed by (cases r) auto

lemma step_undisturbed:
  assumes "server_step ba st e st'" and "\<not> disturbs at e"
  shows "aview (ss_store st') at = aview (ss_store st) at"
  using assms
proof cases
  case (Serve c s buf resp w)
  have "aview w at = aview (ss_store st) at" if "serve ba buf (ss_store st) = (resp, w)"
  proof (cases "\<exists>oper key payload q. parse_request buf = Some (oper, key, payload) \<and> parse_key key = Some q")
    case True
    then obtain oper key payload q where p: "parse_request buf = Some (oper, key, payload)" "parse_key key = Some q" by blast
    then have "oper \<noteq> OP_PUT \<or> q \<noteq> at \<and> plain_ref q" using assms(2) Serve(1) by (auto simp: disturbs_def)
    with that p show ?thesis
      by (auto simp: serve_def dest: get_view put_other split: if_splits prod.splits sum.splits port_error.splits)
  next
    case False
    with that show ?thesis by (auto simp: serve_def split: option.splits prod.splits)
  qed
  then show ?thesis using Serve(2,4) by (auto simp: handle_stream_def split: if_splits)
next
  case (OwnPut q bs r w)
  then show ?thesis using assms(2) put_other by (auto simp: disturbs_def)
next
  case (OwnDelete ns b r w)
  then have "sr_namespace at \<noteq> ns \<or> sr_blob_id at \<noteq> b" using assms(2) by (auto simp: disturbs_def)
  then show ?thesis using OwnDelete delete_done delete_failed by (cases r) (auto simp: drop_blob_def)
qed auto

lemma run_undisturbed:
  "server_run ba st es st' \<Longrightarrow> \<forall>e\<in>set es. \<not> disturbs at e \<Longrightarrow> aview (ss_store st') at = aview (ss_store st) at"
proof (induction rule: server_run.induct)
  case (Next st es st1 e st2)
  then show ?case using step_undisturbed [OF Next.hyps(2), of at] by simp
qed simp

text \<open>A put that was acknowledged is answered by the next get of the shard.\<close>

lemma served_back:
  assumes at: "wire_ref at" "plain_ref at" "frame_fits at bs"
    and put: "server_step ba st (StreamServed c s (encode_request OP_PUT (shard_key at) bs) [ST_OK]) st1"
    and run: "server_run ba st1 es st2" "\<forall>e\<in>set es. \<not> disturbs at e"
    and get: "server_step ba st2 (StreamServed c' s' (encode_request OP_GET (shard_key at) []) r) st3"
  shows "r = ST_OK # bs \<or> r = [ST_ERR]"
proof -
  have fits: "length (encode_request OP_PUT (shard_key at) bs) \<le> MAX_FRAME" "length (encode_request OP_GET (shard_key at) []) \<le> MAX_FRAME"
    using at(3) by (simp_all add: length_encode_request frame_fits_def)
  from put obtain w where "handle_stream ba (encode_request OP_PUT (shard_key at) bs) (ss_store st) = ([ST_OK], w)" "ss_store st1 = w"
    by cases auto
  then have "ba_put_shard ba at bs (ss_store st) = (Inr (), ss_store st1)"
    using fits(1) at(1) by (auto simp: handle_stream_def serve_put ST_OK_def ST_ERR_def split: prod.splits sum.splits)
  then have "aview (ss_store st1) at = Some bs" using put_stored [OF at(2)] by simp
  then have held: "aview (ss_store st2) at = Some bs" using run_undisturbed [OF run] by simp
  from get obtain w where "handle_stream ba (encode_request OP_GET (shard_key at) []) (ss_store st2) = (r, w)" by cases auto
  then show ?thesis
    using fits(2) at(1,2) held get_found [OF at(2)] get_missing [OF at(2)]
    by (auto simp: handle_stream_def serve_get split: prod.splits sum.splits port_error.splits)
qed

end


lemma run_first: "server_step ba st e st1 \<Longrightarrow> server_run ba st1 es st' \<Longrightarrow> server_run ba st (e # es) st'"
proof -
  have "server_run ba st2 es st' \<Longrightarrow> server_run ba st fs st2 \<Longrightarrow> server_run ba st (fs @ es) st'" for st2 fs es st'
    by (induction rule: server_run.induct) (auto intro: server_run.Next simp flip: append_assoc)
  from this [of st1 es st' "[e]"] show "server_step ba st e st1 \<Longrightarrow> server_run ba st1 es st' \<Longrightarrow> server_run ba st (e # es) st'"
    using server_run.Next [OF server_run.Begin] by fastforce
qed


end
