(* ===== verification/Spec2Isabelle.thy ===== *)
theory Spec2Isabelle
  imports Vault_Guarantees Vault_Client Presigned_Anchor Onboarding Concurrent_Puts Manifest_Types Startup Roundtrip
    Lost_Backups Concurrent_Disk Quic_Server
begin

text \<open>
  VaultMesh: encrypted backups, erasure-coded over an anchor store and a mesh of peers.

  \<^bold>\<open>The program.\<close>  A coordinator (\<^verbatim>\<open>bins/coordinator\<close>) registers applications and namespaces, issues
  signed capabilities, keeps the manifests of all blobs, hands out presigned URLs of an object store,
  and guards itself with a perimeter of a blocklist and a hash-chained intrusion ledger.  Node-agents
  (\<^verbatim>\<open>bins/node-agent\<close>) serve the data plane: they verify capabilities, split ciphertext into \<open>n\<close> shards
  of which any \<open>k\<close> restore it, write all shards to an anchor and copies to peers, record the manifest
  at the coordinator, restore, list, delete, prune and repair.  Applications use \<^verbatim>\<open>crates/vault-client\<close>.
  The logic is in \<^verbatim>\<open>crates/vault-app\<close> behind the ports of \<^verbatim>\<open>crates/vault-ports\<close>; the adapters implement
  the ports.

  \<^bold>\<open>How it is modelled.\<close>  A port is a record of operations, an adapter a value of that record, a
  use-case a record of the ports it holds (\<^verbatim>\<open>PutBackup\<close> is \<open>put_backup\<close>) with one definition per method.
  An operation takes the state of the world and returns an error or a value together with the new
  state (\<open>io\<close>, Prelude and Ports); a panic is an error value of its own (\<open>Panic\<close>).  Machine integers
  are words of their width, with saturation, wrap-around and truncation where the code has them.
  Third-party crates (ed25519, AES-GCM, SHA-256, Reed-Solomon, rcgen, rustls, quinn, object\_store, base64) are
  arguments; what the code relies on is a predicate on the argument (\<open>ed_correct\<close>, \<open>ed_unforgeable\<close>,
  \<open>gcm_correct\<close>, \<open>rs_contract\<close>, \<open>store_contract\<close>, \<open>url_contract\<close>, \<open>b64_correct\<close>, \<open>roots_kept\<close>), satisfied by a
  concrete instance in the witnesses.  What the environment decides (clock readings, random bits, the
  fate of each call and dial, disk errors) is part of the state, so a theorem holds for all of it.

  \<^bold>\<open>Theories.\<close>
  \<^item> Prelude: words and saturating arithmetic, decimal text, bytes, trimming, actions and their inversion
    rules.  Std\_Net: what the code uses of Rust's standard library on addresses, the whole parser of
    \<^verbatim>\<open>IpAddr\<close> and \<^verbatim>\<open>SocketAddr\<close> included.
  \<^item> Domain (\<^verbatim>\<open>vault-domain\<close>): ids, claims and the bytes that are signed, quotas, retention, erasure
    parameters, manifests.  The encoding of claims is injective on ids without line breaks and
    ambiguous otherwise; the retention hold in exact days.
  \<^item> Ports (\<^verbatim>\<open>vault-ports\<close>): the ports and the contracts of the metadata store (\<open>meta_laws\<close>), the
    anchor (\<open>anchor_laws\<close>), and of a vault built on them (\<open>control_laws\<close>, \<open>vault_laws\<close>,
    \<open>live_vault\<close>), as locales over an abstract view of the state.
  \<^item> Memstore, Blob\_Fs, Erasure\_Coders, Token\_Crypto (\<^verbatim>\<open>adapter-memstore\<close>, \<^verbatim>\<open>-blob-fs\<close>,
    \<^verbatim>\<open>-reed-solomon\<close>, \<^verbatim>\<open>-erasure\<close>, \<^verbatim>\<open>-crypto\<close>): the adapters, with the interpretations of the
    contracts.  The filesystem anchor is verified over an explicit file system; an id that is not a
    plain file name can leave its root.  Rs\_Field: a Reed-Solomon code with two parities over \<open>GF(256)\<close>, an
    instance of what the coder expects of the crate at the parameters the program recommends.
  \<^item> Concurrent\_Disk: the same anchor one system call at a time, with inodes and open files, all
    requests interleaved; it refines an anchor with atomic operations (\<open>shelf\<close>).
  \<^item> Control\_Plane, Data\_Plane, Maintenance (\<^verbatim>\<open>vault-app\<close>): the use-cases.  Their lemmas are proved
    once, inside the locales, from the contracts of the ports only.
  \<^item> Concurrent\_Puts: puts that overlap between the quota check and the record, as a step relation.
  \<^item> Perimeter (\<^verbatim>\<open>adapter-perimeter\<close>, \<^verbatim>\<open>coordinator/src/perimeter.rs\<close>): responder, ledger, middleware.
  \<^item> Quic\_Wire, Tls (\<^verbatim>\<open>adapter-quic\<close>, \<^verbatim>\<open>coordinator/src/tls.rs\<close>): frames, the shard server and the
    transport; the TLS configurations of the overlay and of the coordinator, and the NAT broker.
    Quic\_Server: the accept loop with a task per connection and per stream, as a step relation.
  \<^item> Wire\_Json (\<^verbatim>\<open>vault-proto\<close> and the serde derivations): every message as JSON, with a codec
    contract interpreted for each type.
  \<^item> Http\_Api, Node\_Service, Node\_Runs (\<^verbatim>\<open>node-agent\<close>): error mapping, handlers, router, background
    sweep and reactive repair, runs of the service.
  \<^item> Self\_Sovereign (\<^verbatim>\<open>adapter-rcgen-ca\<close>, \<^verbatim>\<open>adapter-ddns\<close>), Object\_Anchor (\<^verbatim>\<open>adapter-rustfs\<close>),
    Coordinator and Coordinator\_Runs (\<^verbatim>\<open>bins/coordinator\<close>): the coordinator with all its handlers and
    routes, and invariants of its runs.
  \<^item> Remote\_Meta, Presigned\_Anchor, Peer\_Http (\<^verbatim>\<open>node-agent/src/remote_meta.rs\<close>,
    \<^verbatim>\<open>presigned_anchor.rs\<close>, \<^verbatim>\<open>adapter-peer-http\<close>): the adapters that speak HTTP, composed with the
    routers that answer them.
  \<^item> Vault\_Client (\<^verbatim>\<open>vault-client\<close>), Onboarding (\<^verbatim>\<open>fetch_verifier\<close> of the node, and an application
    that joins).
  \<^item> Deployment: a node that holds the metadata store itself, where all contracts are discharged.
    Vault\_Guarantees and this theory: what the whole promises.
  \<^item> Simulation: running the same use-cases, router and sweep over two sets of ports that simulate each
    other (locale \<open>simulated_ports\<close>).  Remote\_Vault interprets it on the node whose metadata is at the
    coordinator, over HTTP, against the node of Deployment; Manifest\_Types interprets it on that node
    against itself, which makes it the preservation of the type invariant of manifests.
  \<^item> Startup: the two \<^verbatim>\<open>main\<close> functions, from the environment to the running service.
  \<^item> Roundtrip: the example program of \<^verbatim>\<open>vault-client\<close>, run against the coordinator and a node-agent.
    Lost\_Backups: the same calls with a contract whose erasure parameters were not validated.

  \<^bold>\<open>What is shown.\<close>  A stored blob is restored byte for byte from any \<open>k\<close> intact shards, through the
  use-cases and through cipher, client, router, JSON and the coordinator; the example program of the
  client succeeds from registration to the comparison of the bytes; the node over HTTP answers as
  the node that holds the store, whatever happens to both; every manifest in the store stays well
  formed; a restore never returns other bytes; a put
  that succeeds was authorized and within quota, one that fails leaves all other blobs alone, and in
  a calm environment an authorized put succeeds; concurrent puts overshoot a quota by a bound that is
  attained.  Repair and the background sweep bring back every shard that can be rebuilt, and their
  reports and counters are exact.  Deletion and pruning remove exactly what they should and respect
  retention holds.  A capability opens exactly its namespace and operation until it expires, and an
  accepted token was issued.  The HTTP metadata store refines the coordinator's store; the object
  store and the presigned anchor satisfy the contract of the anchor; peers give back what they
  accepted, over QUIC and HTTP, also when the shard server serves many streams at once; the filesystem
  anchor is atomic for its readers as long as no two puts of one shard overlap.  Start-up makes a bounded number of calls, builds the service the
  guarantees are about, never uses object-store keys with the presigned anchor, and in mTLS mode admits
  exactly the callers with a certificate of the coordinator's root.  The blocklist is exactly what the ledger justifies.  Some theorems
  state what the code does where a caller would not expect it: unvalidated erasure parameters, ids
  with line breaks or path separators, the client's delete, the shared anonymous fingerprint, QUIC
  peers given by host name, overlapping puts of one shard, and what the ledger does not detect.

  \<^bold>\<open>Bounds and loops.\<close>  Every loop of the modelled code is a recursion over a list or a counter it
  already has (shards, blobs, namespaces, peers, listing entries, the ten attempts of start-up), or, in
  \<open>strip\<close>, over a text that gets shorter; so all definitions are total and no fuel is used.  The background sweep and the servers, which run for
  ever, are step relations over events (\<open>node_run\<close>, \<open>server_run\<close>) and folds over request lists (\<open>serve_all\<close>).
  Sizes are bounded where the code's types bound them: payloads below \<open>2 ^ 64\<close> bytes and at most
  \<open>2 ^ 16\<close> shards.

  \<^bold>\<open>Not modelled.\<close>  The handshakes and connections of rustls, quinn, hyper and axum, and the listening
  sockets (when a handshake ends or a frame arrives is up to the environment); the builders of the S3, HTTP and TLS crates (what they are told is modelled).
  Log output, the console's HTML, and percent-encoding: ids that
  a URL would re-encode are excluded by \<open>url_safe\<close>.
\<close>

section \<open>The node service heals itself\<close>

text \<open>The small deployment as a service.\<close>

definition demo_app :: "world node_app" where
  "demo_app = node_app_new node_meta (node_anchor []) (reed_solomon_coder xor_crate) demo_crypto open_verifier
     random_id_source system_clock (node_transport (\<lambda>_. [])) [''10.0.0.1:1'']"

definition demo_node :: "world \<Rightarrow> world node" where
  "demo_node w = \<lparr>nd_world = w, nd_sweep = sweep_status_new (Some 60), nd_tasks = []\<rparr>"

text \<open>The engine of the small deployment: each byte as one character.\<close>

definition demo_b64 :: b64_engine where
  "demo_b64 = \<lparr>b64_encode = of_bytes, b64_decode = (\<lambda>s. Inr (as_bytes s))\<rparr>"

lemma demo_b64_correct: "b64_correct demo_b64"
  by (simp add: b64_correct_def demo_b64_def)

lemma demo_app_sel:
  "na_put demo_app = demo_put" "na_get demo_app = demo_get" "na_repair demo_app = demo_repair"
  "na_clock demo_app = system_clock" "na_delete demo_app = node_delete [] open_verifier" "na_anchor demo_app = node_anchor []"
  by (simp_all add: demo_app_def node_app_new_def demo_put_def demo_get_def demo_repair_def node_placement_def node_delete_def)

lemma calm_list_namespaces:
  "calm root w \<Longrightarrow> \<exists>nss. ms_list_namespaces node_meta w = (Inr nss, w\<lparr>w_called := Suc (w_called w)\<rparr>)"
  by (simp add: node_meta_sel on_meta_calm mem_list_namespaces_def)



lemma demo_sweep_idle:
  "\<exists>nd'. sweep_round node_meta demo_app (demo_node (demo_world 5 [])) = (True, nd') \<and>
     nd_sweep nd' = (nd_sweep (demo_node (demo_world 5 [])))\<lparr>sw_sweeps := 1, sw_last_run_ms := 5\<rparr>"
  by (simp add: sweep_round_def demo_node_def node_meta_sel on_meta_def Let_def demo_world_def mem_list_namespaces_def
      mem_list_blobs_def DAList.update.rep_eq DAList.empty.rep_eq demo_app_sel system_clock_def sweep_status_new_def)


section \<open>From the application's payload and back\<close>

lemma demo_encrypts:
  "cipher_encrypt show_err (cipher_for_namespace demo_crypto secret s) payload v =
     (Inr (replicate 12 7 @ map (\<lambda>b. b + 1) payload), v)"
  by (simp add: cipher_encrypt_def cipher_for_namespace_def demo_crypto_def aes_gcm_cryptographer_def aes_encrypt_def
      demo_content_def io_bind_def io_read_def io_lift_def io_map_err_def)

lemma demo_gcm_correct: "gcm_correct demo_content"
  by (auto simp: gcm_correct_def demo_content_def comp_def)

text \<open>The small deployment over HTTP: its put reaches the coordinator, and a get is authorized afterwards.\<close>

definition demo_http :: "(unit coordinator \<times> world) node_app" where
  "demo_http = http_node demo_coordinator_app (\<lambda>_. []) [] (\<lambda>_. []) (reed_solomon_coder xor_crate) demo_crypto open_verifier [''10.0.0.1:1'']"

definition demo_http_node :: "(unit coordinator \<times> world) node" where
  "demo_http_node = \<lparr>nd_world = demo_remote (demo_world 5 []), nd_sweep = sweep_status_new (Some 60), nd_tasks = []\<rparr>"

lemma demo_http_stored:
  assumes "length d \<le> 1000"
  obtains b cw1 shs cw3 where
    "put_backup_execute (na_put demo_http) demo_ns (demo_token OpPut) d (demo_remote (demo_world 5 [])) = (Inr b, cw1)"
    and "http_ok cw1" and "rs_coder_encode xor_crate d (ac_erasure demo_contract) = Inr shs"
    and "unat (ep_k (ac_erasure demo_contract)) \<le> card (intact_shards [] (snd cw1) demo_ns b shs)"
    and "guard_authorize open_verifier (remote_metadata_store (coordinator_net demo_coordinator_app (\<lambda>_. []))) (own_clock system_clock)
      demo_ns (demo_token OpGet) OpGet cw1 = (Inr (AppId ''a''), cw3)"
    and "w_calls (snd cw3) (w_called (snd cw3)) = Delivered"
proof -
  let ?w = "demo_world 5 []"
  have ns: "url_ns demo_ns" by code_simp
  have tok: "av_verify_signature open_verifier tok = Inr ()" "Timestamp (w_clock ?w i) < cc_expires_at (ct_claims (demo_token oper))" for tok i oper
    by (simp_all add: open_verifier_def demo_token_def demo_world_views less_timestamp_def)
  have start: "calm [] (snd (demo_remote ?w))" "mem_view (co_meta (fst (demo_remote ?w))) = node_mview ?w" "snd (demo_remote ?w) = ?w"
    by (simp_all add: demo_remote_def demo_world_views)
  obtain b cw1 shs m where put: "put_backup_execute (na_put demo_http) demo_ns (demo_token OpPut) d (demo_remote ?w) = (Inr b, cw1)"
    and ok: "http_ok cw1" and calm: "calm [] (snd cw1)" and enc: "rs_coder_encode xor_crate d (ac_erasure demo_contract) = Inr shs"
    and k: "unat (ep_k (ac_erasure demo_contract)) \<le> card (intact_shards [] (snd cw1) demo_ns b shs)"
    and view: "mem_view (co_meta (fst cw1)) = add_manifest m (mem_view (co_meta (fst (demo_remote ?w))))"
    and clock: "w_clock (snd cw1) = w_clock (snd (demo_remote ?w))"
    unfolding demo_http_def
    by (rule http_stored [OF demo_remote_ok start(1) ns tok(1), where tok = "demo_token OpPut" and ct = demo_contract and c = xor_crate and d = d and
          n = "\<lparr>nsp_id = demo_ns, nsp_app_id = AppId ''a''\<rparr>" and app = demo_coordinator_app and order = "\<lambda>_. []" and
          roots = "\<lambda>_. []" and cr = demo_crypto and peers = "[''10.0.0.1:1'']"])
      (use tok(2) demo_supported demo_admits [OF assms] in \<open>simp_all add: start demo_world_views demo_token_def\<close>)
  obtain cw3 where "guard_authorize open_verifier (remote_metadata_store (coordinator_net demo_coordinator_app (\<lambda>_. []))) (own_clock system_clock)
      demo_ns (demo_token OpGet) OpGet cw1 = (Inr (cc_app_id (ct_claims (demo_token OpGet))), cw3)"
      "w_calls (snd cw3) (w_called (snd cw3)) = Delivered"
    by (rule http_guard_accepts [OF ok calm ns tok(1), where tok = "demo_token OpGet" and oper = OpGet and
          n = "\<lparr>nsp_id = demo_ns, nsp_app_id = AppId ''a''\<rparr>" and app = demo_coordinator_app and order = "\<lambda>_. []"])
      (use tok(2) in \<open>simp_all add: clock view start add_manifest_def demo_world_views demo_token_def\<close>)
  with put ok enc k show thesis by (intro that) (simp_all add: demo_token_def)
qed

theorem client_backup_over_http_witness:
  "\<exists>ciphertext b bs nd1 nd'.
     cipher_encrypt show_port_error (cipher_for_namespace demo_crypto [9] ''n'') [1, 2, 3] (demo_world 5 []) =
       (Inr ciphertext, demo_world 5 []) \<and>
     client_put demo_b64 (node_net demo_b64 demo_http) (\<lambda>_. []) demo_ns (demo_token OpPut) ciphertext demo_http_node = (Inr b, nd1) \<and>
     client_get demo_b64 (node_net demo_b64 demo_http) (\<lambda>_. []) demo_ns (demo_token OpGet) b nd1 = (Inr bs, nd') \<and>
     cipher_decrypt show_port_error (cipher_for_namespace demo_crypto [9] ''n'') bs = Inr [1, 2, 3]"
proof -
  let ?d = "replicate 12 7 @ map (\<lambda>b. b + 1) [1, 2, 3] :: bytes"
  obtain b cw1 shs cw3 where put: "put_backup_execute (na_put demo_http) demo_ns (demo_token OpPut) ?d (demo_remote (demo_world 5 [])) = (Inr b, cw1)"
    and ok: "http_ok cw1" and enc: "rs_coder_encode xor_crate ?d (ac_erasure demo_contract) = Inr shs"
    and k: "unat (ep_k (ac_erasure demo_contract)) \<le> card (intact_shards [] (snd cw1) demo_ns b shs)"
    and guard: "guard_authorize open_verifier (remote_metadata_store (coordinator_net demo_coordinator_app (\<lambda>_. []))) (own_clock system_clock)
      demo_ns (demo_token OpGet) OpGet cw1 = (Inr (AppId ''a''), cw3)" "w_calls (snd cw3) (w_called (snd cw3)) = Delivered"
    by (rule demo_http_stored [of ?d]) simp_all
  let ?nd1 = "demo_http_node\<lparr>nd_world := cw1\<rparr>"
  have cput: "client_put demo_b64 (node_net demo_b64 demo_http) (\<lambda>_. []) demo_ns (demo_token OpPut) ?d demo_http_node = (Inr b, ?nd1)"
    using put by (simp add: client_put_runs [OF demo_b64_correct] demo_http_node_def)
  have ci: "cipher_for_namespace demo_crypto [9] ''n'' =
      cipher_for_namespace (aes_gcm_cryptographer demo_content (\<lambda>w. (replicate 12 7, w))) [9] (ns_str demo_ns)"
    by (simp add: demo_crypto_def demo_ns_def)
  have ok0: "http_ok (nd_world demo_http_node)" using demo_remote_ok by (simp add: demo_http_node_def)
  have ct: "mv_contracts (mem_view (co_meta (fst (nd_world demo_http_node)))) (cc_app_id (ct_claims (demo_token OpPut))) = Some demo_contract"
    by (simp add: demo_http_node_def demo_remote_def demo_world_views demo_token_def)
  have ns: "url_ns demo_ns" by code_simp
  have "\<exists>bs nd'. client_get demo_b64 (node_net demo_b64 demo_http) (\<lambda>_. []) demo_ns (demo_token OpGet) b ?nd1 = (Inr bs, nd') \<and>
      cipher_decrypt show_port_error (cipher_for_namespace demo_crypto [9] ''n'') bs = Inr [1, 2, 3]"
    by (rule client_backup_over_http [OF demo_gcm_correct _ ci demo_encrypts demo_b64_correct demo_http_def ok0 _ ns ct
          demo_supported enc _ _ cput _ _ _ guard(2)])
      (use k ok guard(1) demo_no_second_preimage in \<open>simp_all add: NONCE_LEN_def demo_crypto_sel\<close>)
  with cput demo_encrypts show ?thesis by blast
qed

section \<open>Well-formed manifests\<close>


section \<open>Peers over HTTP\<close>

theorem peer_http_faithful_witness:
  "\<exists>nodes1 nodes3. let tr = peer_http_transport (peer_nodes demo_b64 (\<lambda>_. demo_app));
      at = \<lparr>sr_namespace = demo_ns, sr_blob_id = BlobId ''b'', sr_index = 7\<rparr> in
    st_send_shard tr ''http://p/'' at [1, 2] (\<lambda>_. demo_node (demo_world 5 [])) = (Inr (), nodes1) \<and>
    st_fetch_shard tr ''http://p/'' at nodes1 = (Inr [1, 2], nodes3)"
proof -
  let ?at = "\<lparr>sr_namespace = demo_ns, sr_blob_id = BlobId ''b'', sr_index = 7\<rparr>" and ?nodes = "\<lambda>_. demo_node (demo_world 5 [])"
  let ?tr = "peer_http_transport (peer_nodes demo_b64 (\<lambda>_. demo_app))" and ?base = "trim_end_slashes ''http://p/''"
  have "url_safe ''n''" "url_safe ''b''" by code_simp+
  then have at: "url_ref ?at" "plain_ref ?at" by (simp_all add: url_ref_def plain_ref_def plain_id_def demo_ns_def)
  have disk: "shard_disk [] (w_fs (demo_world 5 []))" using demo_world_views(1) by (simp add: calm_def)
  obtain f where f: "fs_put_shard [] ?at [1, 2] (w_fs (demo_world 5 [])) = (Inr (), f)" using fs_put_succeeds [OF disk at(2)] by blast
  let ?w = "(demo_world 5 [])\<lparr>w_fs := f\<rparr>"
  let ?nodes1 = "?nodes(?base := (demo_node (demo_world 5 []))\<lparr>nd_world := ?w\<rparr>)"
  have anchor: "anchor_laws (na_anchor ((\<lambda>_. demo_app) ?base)) (node_aview [])"
    using nodea.anchor_laws_axioms by (simp add: demo_app_sel)
  have send: "st_send_shard ?tr ''http://p/'' ?at [1, 2] ?nodes = (Inr (), ?nodes1)"
    using f by (simp add: peer_http_transport_def peer_http_send_eq [OF at(1)] demo_app_sel node_anchor_def on_fs_def demo_node_def)
  obtain r nodes3 where fetch: "st_fetch_shard ?tr ''http://p/'' ?at ?nodes1 = (r, nodes3)" by force
  have "fs_view [] f ?at = Some [1, 2]" using fs_put_view [OF _ f] at(2) by fastforce
  moreover have "fs_deny f = fs_deny (w_fs (demo_world 5 []))" using f fs_ops_keep_deny by (metis snd_conv)
  then have "fs_deny f (shard_path [] ?at) = None" by (simp add: demo_world_def demo_disk_def)
  ultimately have "fs_get_shard [] ?at f = (Inr [1, 2], f)"
    using at(2) by (simp add: fs_get_shard_def fs_read_def fs_view_def)
  then have "\<exists>x. r = Inr x"
    using fetch by (auto simp: peer_http_transport_def peer_http_fetch_eq [OF at(1)] demo_app_sel node_anchor_def on_fs_def demo_node_def Let_def)
  then have "r = Inr [1, 2]"
    using peer_http_faithful [OF at anchor send refl fetch] by auto
  with send fetch show ?thesis by (auto simp: Let_def)
qed

end
